theory Spec2Isabelle
  imports Complex_Main "HOL-Library.List_Lexorder" "HOL-Library.Char_ord"
begin

section \<open>AQI breakpoint interpolation\<close>

text \<open>
  Concentrations and AQI values are Python floats in the source; they are modelled as
  \<^typ>\<open>real\<close>. Where the source rounds a float to an integer, the arithmetic that
  feeds the rounding is modelled in binary64; elsewhere the rounding of the binary
  representation is abstracted away.
  A breakpoint bracket is the source's 4-tuple \<open>(bp_low, bp_high, aqi_low, aqi_high)\<close>.
\<close>

type_synonym bracket = "real \<times> real \<times> real \<times> real"

text \<open>
  The literal tables of \<open>calculate_aqi\<close>, identical in \<open>forecasting_system.py\<close> and
  \<open>ml_prediction_service.py\<close>: the branch \<open>pollutant == 'pm25'\<close>, and the \<open>else\<close> branch
  (PM10) for every other string.
\<close>

definition breakpoints :: "string \<Rightarrow> bracket list" where
  "breakpoints pollutant =
     (if pollutant = ''pm25''
      then [(0, 12.0, 0, 50), (12.1, 35.4, 51, 100), (35.5, 55.4, 101, 150),
            (55.5, 150.4, 151, 200), (150.5, 250.4, 201, 300), (250.5, 350.4, 301, 400)]
      else [(0, 54, 0, 50), (55, 154, 51, 100), (155, 254, 101, 150),
            (255, 354, 151, 200), (355, 424, 201, 300), (425, 504, 301, 400)])"

text \<open>
  The \<open>for bp_low, bp_high, aqi_low, aqi_high in breakpoints\<close> loop with its early
  \<open>return\<close>: \<open>Some\<close> is the value computed in the first bracket whose test
  \<open>bp_low <= concentration <= bp_high\<close> succeeds, \<open>None\<close> is falling out of the loop.
\<close>

fun aqi_loop :: "bracket list \<Rightarrow> real \<Rightarrow> real option" where
  "aqi_loop [] concentration = None"
| "aqi_loop ((bp_low, bp_high, aqi_low, aqi_high) # bps) concentration =
     (if bp_low \<le> concentration \<and> concentration \<le> bp_high
      then Some (((aqi_high - aqi_low) / (bp_high - bp_low)) * (concentration - bp_low) + aqi_low)
      else aqi_loop bps concentration)"

text \<open>\<open>AirQualityForecaster.calculate_aqi\<close>: the unrounded value, or 500 after the loop.\<close>

definition forecaster_calculate_aqi :: "real \<Rightarrow> string \<Rightarrow> real" where
  "forecaster_calculate_aqi concentration pollutant =
     (case aqi_loop (breakpoints pollutant) concentration of
        Some aqi \<Rightarrow> aqi
      | None \<Rightarrow> 500)"

text \<open>Python's \<open>round\<close> of a float to an \<open>int\<close>: to the nearest integer, ties to even.\<close>

definition py_round :: "real \<Rightarrow> int" where
  "py_round x =
     (let f = \<lfloor>x\<rfloor>; d = x - of_int f
      in if d < 1 / 2 then f
         else if 1 / 2 < d then f + 1
         else if even f then f else f + 1)"

text \<open>
  \<open>DashboardMLPredictor.calculate_aqi\<close> rounds inside the loop, so the rounding of the
  floating-point arithmetic decides its result near a half, and its arithmetic is
  modelled in binary64.

  \<open>binary64 x\<close> is the binary64 number nearest to \<open>x\<close>, ties to the even significand: with
  \<open>e\<close> the binary exponent of \<open>x\<close>, not below that of the smallest normal number, the
  binary64 numbers around \<open>x\<close> are the multiples of \<open>2 ^ (e - 52)\<close>. Overflow is not
  modelled: the interpolation inside a bracket stays far below \<open>2 ^ 1024\<close>.
\<close>

definition binary64 :: "real \<Rightarrow> real" where
  "binary64 x =
     (if x = 0 then 0
      else let e = max \<lfloor>log 2 \<bar>x\<bar>\<rfloor> (- 1022); u = 2 powr (of_int e - 52)
           in of_int (py_round (x / u)) * u)"

text \<open>
  The expression
  \<open>((aqi_high - aqi_low) / (bp_high - bp_low)) * (concentration - bp_low) + aqi_low\<close>
  as Python evaluates it: the table entries and the concentration are the binary64
  numbers that their decimals denote (the integer entries are exact), and every
  operation rounds its exact result.
\<close>

definition binary64_interpolate :: "bracket \<Rightarrow> real \<Rightarrow> real" where
  "binary64_interpolate b c =
     (case b of (bp_low, bp_high, aqi_low, aqi_high) \<Rightarrow>
        let bp_low = binary64 bp_low; bp_high = binary64 bp_high;
            aqi_low = binary64 aqi_low; aqi_high = binary64 aqi_high;
            concentration = binary64 c
        in binary64 (binary64 (binary64 (binary64 (aqi_high - aqi_low) / binary64 (bp_high - bp_low))
                                 * binary64 (concentration - bp_low))
                     + aqi_low))"

text \<open>
  \<open>DashboardMLPredictor.calculate_aqi\<close>: \<open>round(aqi)\<close> inside the loop; after the loop, 500
  when the concentration exceeds \<open>breakpoints[-1][1]\<close>, and 0 otherwise. The comparisons
  are made on the reals: rounding is monotone, so they agree with the comparisons of the
  binary64 numbers unless two different reals round to the same binary64 number.
\<close>

fun dashboard_aqi_loop :: "bracket list \<Rightarrow> real \<Rightarrow> int option" where
  "dashboard_aqi_loop [] concentration = None"
| "dashboard_aqi_loop ((bp_low, bp_high, aqi_low, aqi_high) # bps) concentration =
     (if bp_low \<le> concentration \<and> concentration \<le> bp_high
      then Some (py_round (binary64_interpolate (bp_low, bp_high, aqi_low, aqi_high) concentration))
      else dashboard_aqi_loop bps concentration)"

definition dashboard_calculate_aqi :: "real \<Rightarrow> string \<Rightarrow> int" where
  "dashboard_calculate_aqi concentration pollutant =
     (case dashboard_aqi_loop (breakpoints pollutant) concentration of
        Some aqi \<Rightarrow> aqi
      | None \<Rightarrow> (if fst (snd (last (breakpoints pollutant))) < concentration then 500 else 0))"

text \<open>
  Specification side: the interpolation formula of a bracket, and the test that a
  concentration lies in a bracket. The first matching bracket is \<open>find (in_bracket c)\<close>.
\<close>

definition interpolate :: "bracket \<Rightarrow> real \<Rightarrow> real" where
  "interpolate b c =
     (case b of (bp_low, bp_high, aqi_low, aqi_high) \<Rightarrow>
        (aqi_high - aqi_low) / (bp_high - bp_low) * (c - bp_low) + aqi_low)"

definition in_bracket :: "real \<Rightarrow> bracket \<Rightarrow> bool" where
  "in_bracket c b = (case b of (bp_low, bp_high, aqi_low, aqi_high) \<Rightarrow> bp_low \<le> c \<and> c \<le> bp_high)"


definition bracket_high :: "bracket \<Rightarrow> real" where
  "bracket_high b = fst (snd b)"

subsection \<open>The loop returns the first matching bracket's interpolation\<close>

lemma aqi_loop_find:
  "aqi_loop bps c = map_option (\<lambda>b. interpolate b c) (find (in_bracket c) bps)"
  by (induction bps c rule: aqi_loop.induct) (simp_all add: interpolate_def in_bracket_def)

lemma aqi_loop_above_all:
  "\<forall>b \<in> set bps. bracket_high b < c \<Longrightarrow> aqi_loop bps c = None"
  by (induction bps c rule: aqi_loop.induct) (auto simp: bracket_high_def)

lemma breakpoints_high_le_last:
  "b \<in> set (breakpoints p) \<Longrightarrow> bracket_high b \<le> bracket_high (last (breakpoints p))"
  by (auto simp: breakpoints_def bracket_high_def split: if_splits)

lemma aqi_loop_above_last:
  assumes "bracket_high (last (breakpoints p)) < c"
  shows "aqi_loop (breakpoints p) c = None"
proof (rule aqi_loop_above_all, rule ballI)
  fix b assume "b \<in> set (breakpoints p)"
  from breakpoints_high_le_last [OF this] assms show "bracket_high b < c" by linarith
qed

lemma dashboard_aqi_loop_find:
  "dashboard_aqi_loop bps c
     = map_option (\<lambda>b. py_round (binary64_interpolate b c)) (find (in_bracket c) bps)"
  by (induction bps c rule: dashboard_aqi_loop.induct) (simp_all add: in_bracket_def)

lemma find_above_last:
  assumes "bracket_high (last (breakpoints p)) < c"
  shows "find (in_bracket c) (breakpoints p) = None"
  using aqi_loop_above_last [OF assms] by (simp add: aqi_loop_find)

text \<open>\<open>round\<close> moves a number by at most one half.\<close>

lemma py_round_near: "\<bar>real_of_int (py_round x) - x\<bar> \<le> 1 / 2"
proof -
  have f: "real_of_int \<lfloor>x\<rfloor> \<le> x" "x < real_of_int \<lfloor>x\<rfloor> + 1" by linarith+
  show ?thesis
    unfolding py_round_def Let_def using f by (auto simp: abs_le_iff)
qed

subsection \<open>Evaluating the binary64 arithmetic\<close>

lemma binary64_zero: "binary64 0 = 0"
  by (simp add: binary64_def)

lemma floor_log2:
  assumes "2 powr (of_int e) \<le> x" "x < 2 powr (of_int e + 1)"
  shows "\<lfloor>log 2 x\<rfloor> = e"
proof -
  have p: "0 < x" using assms(1) powr_gt_zero [of 2 "of_int e"] by linarith
  have "of_int e \<le> log 2 x" using assms(1) p by (simp add: le_log_iff)
  moreover have "log 2 x < of_int e + 1" using assms(2) p by (simp add: log_less_iff)
  ultimately show ?thesis by linarith
qed

lemma binary64_scaled:
  assumes "(2::real) powr (of_int e) \<le> \<bar>x\<bar>" "\<bar>x\<bar> < 2 powr (of_int e + 1)" "- 1022 \<le> e"
    and "u = 2 powr (of_int e - 52)"
  shows "binary64 x = of_int (py_round (x / u)) * u"
proof -
  have "x \<noteq> 0" using assms(1) powr_gt_zero [of 2 "of_int e"] by auto
  moreover have "\<lfloor>log 2 \<bar>x\<bar>\<rfloor> = e" by (rule floor_log2) (use assms in auto)
  ultimately show ?thesis using assms(3,4) by (simp add: binary64_def Let_def max_def)
qed

text \<open>A number in \<open>[2 ^ n, 2 ^ (n + 1))\<close> is rounded to a multiple of \<open>2 ^ (n - 52)\<close>.\<close>

lemma binary64_pos_exp:
  assumes "2 ^ n \<le> \<bar>x\<bar>" "\<bar>x\<bar> < 2 ^ Suc n" "n \<le> 52"
  shows "binary64 x = of_int (py_round (x * 2 ^ (52 - n))) / 2 ^ (52 - n)"
proof -
  have u: "(2::real) powr (of_int (int n) - 52) = 1 / 2 ^ (52 - n)"
  proof -
    have "(2::real) powr (of_int (int n) - 52) = 2 powr (- real (52 - n))"
      using assms(3) by (simp add: of_nat_diff)
    also have "\<dots> = 1 / 2 powr (real (52 - n))" by (rule powr_minus_divide)
    also have "\<dots> = 1 / 2 ^ (52 - n)" by (subst powr_realpow) simp_all
    finally show ?thesis .
  qed
  have a: "(2::real) powr (of_int (int n)) \<le> \<bar>x\<bar>" using assms(1) by (simp add: powr_realpow)
  have b: "\<bar>x\<bar> < 2 powr (of_int (int n) + 1)"
    using assms(2) by (simp add: powr_add powr_realpow)
  have c: "- 1022 \<le> int n" by simp
  from binary64_scaled [OF a b c u [symmetric]] show ?thesis by simp
qed

text \<open>A number in \<open>[2 ^ - n, 2 ^ (1 - n))\<close> is rounded to a multiple of \<open>2 ^ (- n - 52)\<close>.\<close>

lemma binary64_neg_exp:
  assumes "1 / 2 ^ n \<le> \<bar>x\<bar>" "\<bar>x\<bar> < 2 / 2 ^ n" "n \<le> 1022"
  shows "binary64 x = of_int (py_round (x * 2 ^ (52 + n))) / 2 ^ (52 + n)"
proof -
  have u: "(2::real) powr (of_int (- int n) - 52) = 1 / 2 ^ (52 + n)"
  proof -
    have "(2::real) powr (of_int (- int n) - 52) = 2 powr (- real (52 + n))"
      by (simp add: algebra_simps)
    also have "\<dots> = 1 / 2 powr (real (52 + n))" by (rule powr_minus_divide)
    also have "\<dots> = 1 / 2 ^ (52 + n)" by (subst powr_realpow) simp_all
    finally show ?thesis .
  qed
  have p: "(2::real) powr (of_int (- int n)) = 1 / 2 ^ n"
    by (simp add: powr_minus divide_inverse powr_realpow)
  have a: "(2::real) powr (of_int (- int n)) \<le> \<bar>x\<bar>" using assms(1) unfolding p .
  have "(2::real) powr (of_int (- int n) + 1) = 2 powr (of_int (- int n)) * 2 powr 1"
    by (rule powr_add)
  also have "\<dots> = 2 / 2 ^ n" unfolding p by simp
  finally have b: "\<bar>x\<bar> < 2 powr (of_int (- int n) + 1)"
    using assms(2) by simp
  have c: "- 1022 \<le> - int n" using assms(3) by simp
  from binary64_scaled [OF a b c u [symmetric]] show ?thesis by simp
qed

text \<open>
  The roundings met at PM2.5 = 5.4, 6.1 and 1.08 and at PM10 = 16.74, each in the first
  bracket of its table.
\<close>

lemma binary64_value_1: "binary64 12 = 12"
  using binary64_pos_exp [of 3 "12"]
  by (simp add: py_round_def Let_def)

lemma binary64_value_2: "binary64 50 = 50"
  using binary64_pos_exp [of 5 "50"]
  by (simp add: py_round_def Let_def)

lemma binary64_value_3: "binary64 (27 / 5) = 3039929748475085 / 562949953421312"
  using binary64_pos_exp [of 2 "27 / 5"]
  by (simp add: py_round_def Let_def)

lemma binary64_value_4: "binary64 (25 / 6) = 4691249611844267 / 1125899906842624"
  using binary64_pos_exp [of 2 "25 / 6"]
  by (simp add: py_round_def Let_def)

lemma binary64_value_5:
  "binary64 (3039929748475085 / 562949953421312)
     = 3039929748475085 / 562949953421312"
  using binary64_pos_exp [of 2 "3039929748475085 / 562949953421312"]
  by (simp add: py_round_def Let_def)

lemma binary64_value_6:
  "binary64 (14261069252567582718397749587695 / 633825300114114700748351602688)
     = 6333186975989761 / 281474976710656"
  using binary64_pos_exp
    [of 4 "14261069252567582718397749587695 / 633825300114114700748351602688"]
  by (simp add: py_round_def Let_def)

lemma binary64_value_7:
  "binary64 (6333186975989761 / 281474976710656)
     = 6333186975989761 / 281474976710656"
  using binary64_pos_exp [of 4 "6333186975989761 / 281474976710656"]
  by (simp add: py_round_def Let_def)

lemma binary64_value_8: "binary64 (61 / 10) = 3433994715870003 / 562949953421312"
  using binary64_pos_exp [of 2 "61 / 10"]
  by (simp add: py_round_def Let_def)

lemma binary64_value_9:
  "binary64 (3433994715870003 / 562949953421312)
     = 3433994715870003 / 562949953421312"
  using binary64_pos_exp [of 2 "3433994715870003 / 562949953421312"]
  by (simp add: py_round_def Let_def)

lemma binary64_value_10:
  "binary64 (16109726377900415517102252822801 / 633825300114114700748351602688)
     = 7154155658062507 / 281474976710656"
  using binary64_pos_exp
    [of 4 "16109726377900415517102252822801 / 633825300114114700748351602688"]
  by (simp add: py_round_def Let_def)

lemma binary64_value_11:
  "binary64 (7154155658062507 / 281474976710656)
     = 7154155658062507 / 281474976710656"
  using binary64_pos_exp [of 4 "7154155658062507 / 281474976710656"]
  by (simp add: py_round_def Let_def)

lemma binary64_value_12: "binary64 (27 / 25) = 607985949695017 / 562949953421312"
  using binary64_pos_exp [of 0 "27 / 25"]
  by (simp add: py_round_def Let_def)

lemma binary64_value_13:
  "binary64 (607985949695017 / 562949953421312)
     = 607985949695017 / 562949953421312"
  using binary64_pos_exp [of 0 "607985949695017 / 562949953421312"]
  by (simp add: py_round_def Let_def)

lemma binary64_value_14:
  "binary64 (2852213850513516543679549917539 / 633825300114114700748351602688)
     = 5066549580791809 / 1125899906842624"
  using binary64_pos_exp
    [of 2 "2852213850513516543679549917539 / 633825300114114700748351602688"]
  by (simp add: py_round_def Let_def)

lemma binary64_value_15:
  "binary64 (5066549580791809 / 1125899906842624)
     = 5066549580791809 / 1125899906842624"
  using binary64_pos_exp [of 2 "5066549580791809 / 1125899906842624"]
  by (simp add: py_round_def Let_def)

lemma binary64_value_16: "binary64 54 = 54"
  using binary64_pos_exp [of 5 "54"]
  by (simp add: py_round_def Let_def)

lemma binary64_value_17: "binary64 (837 / 50) = 4711891110136381 / 281474976710656"
  using binary64_pos_exp [of 4 "837 / 50"]
  by (simp add: py_round_def Let_def)

lemma binary64_value_18: "binary64 (25 / 27) = 8339999309945363 / 9007199254740992"
  using binary64_neg_exp [of 1 "25 / 27"]
  by (simp add: py_round_def Let_def)

lemma binary64_value_19:
  "binary64 (4711891110136381 / 281474976710656)
     = 4711891110136381 / 281474976710656"
  using binary64_pos_exp [of 4 "4711891110136381 / 281474976710656"]
  by (simp add: py_round_def Let_def)

lemma binary64_value_20:
  "binary64 (39297168607075107951312588551303 / 2535301200456458802993406410752)
     = 8725724278030335 / 562949953421312"
  using binary64_pos_exp
    [of 3 "39297168607075107951312588551303 / 2535301200456458802993406410752"]
  by (simp add: py_round_def Let_def)

lemma binary64_value_21:
  "binary64 (8725724278030335 / 562949953421312)
     = 8725724278030335 / 562949953421312"
  using binary64_pos_exp [of 3 "8725724278030335 / 562949953421312"]
  by (simp add: py_round_def Let_def)

lemmas binary64_values =
  binary64_zero binary64_value_1 binary64_value_2 binary64_value_3 binary64_value_4
  binary64_value_5 binary64_value_6 binary64_value_7 binary64_value_8
  binary64_value_9 binary64_value_10 binary64_value_11 binary64_value_12
  binary64_value_13 binary64_value_14 binary64_value_15
  binary64_value_16 binary64_value_17 binary64_value_18
  binary64_value_19 binary64_value_20 binary64_value_21

lemma binary64_interpolate_pm25_5_4:
  "binary64_interpolate (0, 12, 0, 50) (27 / 5) = 6333186975989761 / 281474976710656"
  by (simp add: binary64_interpolate_def Let_def binary64_values)

lemma binary64_interpolate_pm25_6_1:
  "binary64_interpolate (0, 12, 0, 50) (61 / 10) = 7154155658062507 / 281474976710656"
  by (simp add: binary64_interpolate_def Let_def binary64_values)

lemma binary64_interpolate_pm25_1_08:
  "binary64_interpolate (0, 12, 0, 50) (27 / 25) = 5066549580791809 / 1125899906842624"
  by (simp add: binary64_interpolate_def Let_def binary64_values)

lemma binary64_interpolate_pm10_16_74:
  "binary64_interpolate (0, 54, 0, 50) (837 / 50) = 8725724278030335 / 562949953421312"
  by (simp add: binary64_interpolate_def Let_def binary64_values)

subsection \<open>Rounding is monotone and keeps the sign\<close>

lemma py_round_nonneg: "0 \<le> x \<Longrightarrow> 0 \<le> py_round x"
  by (auto simp: py_round_def Let_def)

lemma py_round_of_int: "py_round (of_int k) = k"
  by (simp add: py_round_def)

lemma py_round_mono:
  assumes "x \<le> y"
  shows "py_round x \<le> py_round y"
proof (rule ccontr)
  assume "\<not> py_round x \<le> py_round y"
  then have "py_round y + 1 \<le> py_round x" by simp
  then have "real_of_int (py_round y) + 1 \<le> real_of_int (py_round x)"
    by (metis of_int_le_iff of_int_add of_int_1)
  with py_round_near [of x] py_round_near [of y] have "y \<le> x" by linarith
  with assms have "x = y" by simp
  with \<open>\<not> py_round x \<le> py_round y\<close> show False by simp
qed

lemma binary64_nonneg:
  assumes "0 \<le> x"
  shows "0 \<le> binary64 x"
proof (cases "x = 0")
  case True
  then show ?thesis by (simp add: binary64_def)
next
  case False
  define u where "u = (2::real) powr (of_int (max \<lfloor>log 2 \<bar>x\<bar>\<rfloor> (- 1022)) - 52)"
  have u: "0 < u" by (simp add: u_def)
  with assms have "0 \<le> x / u" by simp
  then have "0 \<le> py_round (x / u)" by (rule py_round_nonneg)
  with u have "0 \<le> of_int (py_round (x / u)) * u" by simp
  with False show ?thesis by (simp add: binary64_def Let_def u_def)
qed

lemma binary64_mono:
  assumes "0 \<le> x" "x \<le> y"
  shows "binary64 x \<le> binary64 y"
proof (cases "x = 0")
  case True
  with assms binary64_nonneg [of y] show ?thesis by (simp add: binary64_def)
next
  case False
  with assms have x: "0 < x" and y: "0 < y" by simp_all
  define lx where "lx = \<lfloor>log 2 x\<rfloor>"
  define ly where "ly = \<lfloor>log 2 y\<rfloor>"
  define ex where "ex = max lx (- 1022)"
  define ey where "ey = max ly (- 1022)"
  define ux where "ux = (2::real) powr (of_int ex - 52)"
  define uy where "uy = (2::real) powr (of_int ey - 52)"
  have bx: "binary64 x = of_int (py_round (x / ux)) * ux"
    using x by (simp add: binary64_def Let_def ux_def ex_def lx_def)
  have by': "binary64 y = of_int (py_round (y / uy)) * uy"
    using y by (simp add: binary64_def Let_def uy_def ey_def ly_def)
  have ux: "0 < ux" and uy: "0 < uy" by (simp_all add: ux_def uy_def)
  have "log 2 x \<le> log 2 y" using x assms(2) by simp
  then have "lx \<le> ly" unfolding lx_def ly_def by (rule floor_mono)
  then have le: "ex \<le> ey" by (simp add: ex_def ey_def)
  show ?thesis
  proof (cases "ex = ey")
    case True
    then have "ux = uy" by (simp add: ux_def uy_def)
    moreover have "x / uy \<le> y / uy" using assms(2) uy by (simp add: divide_right_mono)
    then have "py_round (x / uy) \<le> py_round (y / uy)" by (rule py_round_mono)
    ultimately show ?thesis unfolding bx by' using uy by simp
  next
    case False
    with le have lt: "ex + 1 \<le> ey" by simp
    then have "ey = ly" by (simp add: ey_def ex_def)
    have "of_int ly \<le> log 2 y" unfolding ly_def by simp
    then have "2 powr (of_int ey) \<le> y" using y \<open>ey = ly\<close> by (simp add: le_log_iff)
    then have "2 powr (of_int ey) / uy \<le> y / uy" using uy by (simp add: divide_right_mono)
    moreover have "2 powr (of_int ey) / uy = 2 ^ 52"
    proof -
      have "2 powr (of_int ey) / uy = 2 powr (of_int ey - (of_int ey - 52))"
        unfolding uy_def by (rule powr_diff [symmetric])
      also have "\<dots> = 2 powr (real 52)" by simp
      also have "\<dots> = 2 ^ 52" by (subst powr_realpow) simp_all
      finally show ?thesis .
    qed
    ultimately have "real_of_int (2 ^ 52) \<le> y / uy" by simp
    then have "py_round (real_of_int (2 ^ 52)) \<le> py_round (y / uy)" by (rule py_round_mono)
    then have "2 ^ 52 \<le> py_round (y / uy)" by (simp only: py_round_of_int)
    then have "real_of_int (2 ^ 52) \<le> real_of_int (py_round (y / uy))" by (simp only: of_int_le_iff)
    then have "2 ^ 52 * uy \<le> binary64 y" unfolding by' using uy by simp
    moreover have "2 ^ 52 * uy = 2 powr (of_int ey)"
    proof -
      have "(2::real) ^ 52 = 2 powr (real 52)" by (subst powr_realpow) simp_all
      then have "2 ^ 52 * uy = 2 powr (real 52 + (of_int ey - 52))"
        unfolding uy_def by (simp only: powr_add)
      then show ?thesis by simp
    qed
    ultimately have low: "2 powr (of_int ey) \<le> binary64 y" by simp
    have "log 2 x < of_int lx + 1" unfolding lx_def by linarith
    moreover have "of_int lx + 1 \<le> (of_int ex :: real) + 1" by (simp add: ex_def)
    ultimately have "log 2 x < of_int ex + 1" by linarith
    then have "x < 2 powr (of_int ex + 1)" using x by (simp add: log_less_iff)
    then have "x / ux \<le> 2 powr (of_int ex + 1) / ux" using ux by (simp add: divide_right_mono)
    moreover have "2 powr (of_int ex + 1) / ux = 2 ^ 53"
    proof -
      have "2 powr (of_int ex + 1) / ux = 2 powr (of_int ex + 1 - (of_int ex - 52))"
        unfolding ux_def by (rule powr_diff [symmetric])
      also have "\<dots> = 2 powr (real 53)" by simp
      also have "\<dots> = 2 ^ 53" by (subst powr_realpow) simp_all
      finally show ?thesis .
    qed
    ultimately have "x / ux \<le> real_of_int (2 ^ 53)" by simp
    then have "py_round (x / ux) \<le> py_round (real_of_int (2 ^ 53))" by (rule py_round_mono)
    then have "py_round (x / ux) \<le> 2 ^ 53" by (simp only: py_round_of_int)
    then have "real_of_int (py_round (x / ux)) \<le> real_of_int (2 ^ 53)" by (simp only: of_int_le_iff)
    then have "binary64 x \<le> 2 ^ 53 * ux" unfolding bx using ux by simp
    moreover have "2 ^ 53 * ux = 2 powr (of_int ex + 1)"
    proof -
      have "(2::real) ^ 53 = 2 powr (real 53)" by (subst powr_realpow) simp_all
      then have "2 ^ 53 * ux = 2 powr (real 53 + (of_int ex - 52))"
        unfolding ux_def by (simp only: powr_add)
      then show ?thesis by (simp add: algebra_simps)
    qed
    moreover have "(2::real) powr (of_int ex + 1) \<le> 2 powr (of_int ey)"
    proof -
      from lt have "real_of_int (ex + 1) \<le> real_of_int ey" by (simp only: of_int_le_iff)
      then show ?thesis by simp
    qed
    ultimately show ?thesis using low by linarith
  qed
qed

text \<open>The shape of the two tables.\<close>

lemma breakpoints_bounds:
  assumes "(bp_low, bp_high, aqi_low, aqi_high) \<in> set (breakpoints p)"
  shows "0 \<le> bp_low" "bp_low + 11 \<le> bp_high" "bp_high \<le> 504"
    "0 \<le> aqi_low" "aqi_low \<le> aqi_high" "aqi_high \<le> 400" "aqi_high - aqi_low \<le> 99"
  using assms by (auto simp: breakpoints_def split: if_splits)

lemma binary64_interpolate_nonneg:
  assumes "b \<in> set (breakpoints p)" "in_bracket c b"
  shows "0 \<le> binary64_interpolate b c"
proof -
  obtain bp_low bp_high aqi_low aqi_high where b: "b = (bp_low, bp_high, aqi_low, aqi_high)"
    by (cases b) auto
  from breakpoints_bounds [of bp_low bp_high aqi_low aqi_high p] assms(1) b
  have w: "0 \<le> bp_low" "bp_low \<le> bp_high" "0 \<le> aqi_low" "aqi_low \<le> aqi_high" by simp_all
  from assms(2) b have c: "bp_low \<le> c" by (simp add: in_bracket_def)
  have al: "0 \<le> binary64 aqi_low" using w(3) by (rule binary64_nonneg)
  have "binary64 aqi_low \<le> binary64 aqi_high" using w(3,4) by (rule binary64_mono)
  then have n: "0 \<le> binary64 (binary64 aqi_high - binary64 aqi_low)"
    by (intro binary64_nonneg) simp
  have "binary64 bp_low \<le> binary64 bp_high" using w(1,2) by (rule binary64_mono)
  then have d: "0 \<le> binary64 (binary64 bp_high - binary64 bp_low)"
    by (intro binary64_nonneg) simp
  from n d have q: "0 \<le> binary64 (binary64 (binary64 aqi_high - binary64 aqi_low)
      / binary64 (binary64 bp_high - binary64 bp_low))"
    by (intro binary64_nonneg) simp
  have "binary64 bp_low \<le> binary64 c" using w(1) c by (rule binary64_mono)
  then have y: "0 \<le> binary64 (binary64 c - binary64 bp_low)"
    by (intro binary64_nonneg) simp
  from q y have "0 \<le> binary64 (binary64 (binary64 (binary64 aqi_high - binary64 aqi_low)
      / binary64 (binary64 bp_high - binary64 bp_low)) * binary64 (binary64 c - binary64 bp_low))"
    by (intro binary64_nonneg) simp
  with al have "0 \<le> binary64 (binary64 (binary64 (binary64 (binary64 aqi_high - binary64 aqi_low)
      / binary64 (binary64 bp_high - binary64 bp_low)) * binary64 (binary64 c - binary64 bp_low))
      + binary64 aqi_low)"
    by (intro binary64_nonneg) simp
  then show ?thesis by (simp add: binary64_interpolate_def b Let_def)
qed

lemma dashboard_calculate_aqi_nonneg: "0 \<le> dashboard_calculate_aqi c p"
proof (cases "find (in_bracket c) (breakpoints p)")
  case None
  then show ?thesis by (simp add: dashboard_calculate_aqi_def dashboard_aqi_loop_find)
next
  case (Some b)
  then have "b \<in> set (breakpoints p)" "in_bracket c b"
    by (auto simp: find_Some_iff in_set_conv_nth)
  then have "0 \<le> binary64_interpolate b c" by (rule binary64_interpolate_nonneg)
  then have "0 \<le> py_round (binary64_interpolate b c)" by (rule py_round_nonneg)
  with Some show ?thesis by (simp add: dashboard_calculate_aqi_def dashboard_aqi_loop_find)
qed

subsection \<open>The rounding error of the interpolation\<close>

text \<open>One rounding moves \<open>x\<close> by at most \<open>(\<bar>x\<bar> + 1) / 2 ^ 53\<close>.\<close>

lemma binary64_error: "\<bar>binary64 x - x\<bar> \<le> (\<bar>x\<bar> + 1) / 2 ^ 53"
proof (cases "x = 0")
  case True
  then show ?thesis by (simp add: binary64_def)
next
  case False
  define l where "l = \<lfloor>log 2 \<bar>x\<bar>\<rfloor>"
  define e where "e = max l (- 1022)"
  define u where "u = (2::real) powr (of_int e - 52)"
  define k where "k = py_round (x / u)"
  have u: "0 < u" by (simp add: u_def)
  have bx: "binary64 x = of_int k * u"
    using False by (simp add: binary64_def Let_def u_def e_def l_def k_def)
  have "of_int k * u - x = (of_int k - x / u) * u" using u by (simp add: algebra_simps)
  then have "\<bar>of_int k * u - x\<bar> = \<bar>of_int k - x / u\<bar> * u"
    using u by (simp add: abs_mult)
  also have "\<dots> \<le> 1 / 2 * u"
    using py_round_near [of "x / u"] u unfolding k_def by (intro mult_right_mono) simp_all
  finally have h: "\<bar>binary64 x - x\<bar> \<le> u / 2" unfolding bx by simp
  have p: "2 powr (of_int e) \<le> \<bar>x\<bar> + 1"
  proof (cases "l \<le> - 1022")
    case True
    then have "e = - 1022" by (simp add: e_def)
    then have "(2::real) powr (of_int e) \<le> 2 powr 0" by (intro powr_mono) simp_all
    then show ?thesis by simp
  next
    case False
    then have "e = l" by (simp add: e_def)
    have "of_int l \<le> log 2 \<bar>x\<bar>" unfolding l_def by simp
    then have "2 powr (of_int l) \<le> \<bar>x\<bar>" using \<open>x \<noteq> 0\<close> by (simp add: le_log_iff)
    with \<open>e = l\<close> show ?thesis by simp
  qed
  have "u = 2 powr (of_int e) / 2 powr (real 52)" unfolding u_def by (simp add: powr_diff)
  also have "2 powr (real 52) = (2::real) ^ 52" by (subst powr_realpow) simp_all
  finally have "u / 2 = 2 powr (of_int e) / 2 ^ 53" by simp
  also have "\<dots> \<le> (\<bar>x\<bar> + 1) / 2 ^ 53" using p by (simp add: divide_right_mono)
  finally show ?thesis using h by linarith
qed

lemma binary64_error_bound:
  assumes "\<bar>x\<bar> \<le> M"
  shows "\<bar>binary64 x - x\<bar> \<le> (M + 1) * (1 / 2 ^ 53)"
proof -
  have "(\<bar>x\<bar> + 1) / 2 ^ 53 \<le> (M + 1) / 2 ^ 53" using assms by (simp add: divide_right_mono)
  with binary64_error [of x] show ?thesis by simp
qed

lemma mult_error:
  fixes q y Q Y :: real
  assumes "\<bar>q - Q\<bar> \<le> a" "\<bar>y - Y\<bar> \<le> b" "\<bar>y\<bar> \<le> ym" "\<bar>Q\<bar> \<le> qm"
  shows "\<bar>q * y - Q * Y\<bar> \<le> a * ym + qm * b"
proof -
  have "q * y - Q * Y = (q - Q) * y + Q * (y - Y)" by (simp add: algebra_simps)
  then have "\<bar>q * y - Q * Y\<bar> \<le> \<bar>q - Q\<bar> * \<bar>y\<bar> + \<bar>Q\<bar> * \<bar>y - Y\<bar>"
    by (metis abs_mult abs_triangle_ineq)
  moreover have "\<bar>q - Q\<bar> * \<bar>y\<bar> \<le> a * ym" using assms(1,3) by (intro mult_mono) simp_all
  moreover have "\<bar>Q\<bar> * \<bar>y - Y\<bar> \<le> qm * b" using assms(2,4) by (intro mult_mono) simp_all
  ultimately show ?thesis by linarith
qed

lemma inverse_error:
  fixes d D :: real
  assumes "\<bar>d - D\<bar> \<le> b" "dm \<le> d" "0 < dm" "Dm \<le> D" "0 < Dm"
  shows "\<bar>1 / d - 1 / D\<bar> \<le> b / (dm * Dm)"
proof -
  have d: "0 < d" "0 < D" using assms by linarith+
  have "1 / d - 1 / D = (D - d) / (d * D)" using d by (simp add: field_simps)
  then have "\<bar>1 / d - 1 / D\<bar> = \<bar>d - D\<bar> / (d * D)"
    using d by (simp add: abs_minus_commute)
  also have "\<dots> \<le> b / (dm * Dm)"
  proof (rule frac_le)
    show "0 \<le> b" using assms(1) by linarith
    show "\<bar>d - D\<bar> \<le> b" by (rule assms(1))
    show "0 < dm * Dm" using assms by simp
    show "dm * Dm \<le> d * D" using assms by (intro mult_mono) simp_all
  qed
  finally show ?thesis .
qed

text \<open>
  Inside a bracket of the tables the eleven roundings of the expression add up to less
  than \<open>10\<^sup>-\<^sup>9\<close>.
\<close>

lemma binary64_interpolate_error:
  assumes "b \<in> set (breakpoints p)" "in_bracket c b"
  shows "\<bar>binary64_interpolate b c - interpolate b c\<bar> \<le> 1 / 10 ^ 9"
proof -
  obtain bl bh al ah where b: "b = (bl, bh, al, ah)" by (cases b) auto
  from breakpoints_bounds [of bl bh al ah p] assms(1) b
  have w: "0 \<le> bl" "bl + 11 \<le> bh" "bh \<le> 504" "0 \<le> al" "al \<le> ah" "ah \<le> 400" "ah - al \<le> 99"
    by simp_all
  from assms(2) b have c: "bl \<le> c" "c \<le> bh" by (simp_all add: in_bracket_def)
  define e :: real where "e = 1 / 2 ^ 53"
  have e: "0 < e" "e \<le> 1 / 1000000000000000" by (simp_all add: e_def)
  have rnd: "\<bar>binary64 x - x\<bar> \<le> (M + 1) * e" if "\<bar>x\<bar> \<le> M" for x M
    using binary64_error_bound [OF that] by (simp add: e_def)
  define bl' where "bl' = binary64 bl"
  define bh' where "bh' = binary64 bh"
  define al' where "al' = binary64 al"
  define ah' where "ah' = binary64 ah"
  define c' where "c' = binary64 c"
  define n where "n = binary64 (ah' - al')"
  define d where "d = binary64 (bh' - bl')"
  define q where "q = binary64 (n / d)"
  define y where "y = binary64 (c' - bl')"
  define t where "t = binary64 (q * y)"
  define r where "r = binary64 (t + al')"
  have r: "binary64_interpolate b c = r"
    by (simp add: binary64_interpolate_def b Let_def r_def t_def y_def q_def d_def n_def
        c'_def ah'_def al'_def bh'_def bl'_def)
  have bl': "\<bar>bl' - bl\<bar> \<le> 505 * e" unfolding bl'_def using rnd [of bl 504] w c by simp
  have bh': "\<bar>bh' - bh\<bar> \<le> 505 * e" unfolding bh'_def using rnd [of bh 504] w c by simp
  have al': "\<bar>al' - al\<bar> \<le> 505 * e" unfolding al'_def using rnd [of al 504] w c by simp
  have ah': "\<bar>ah' - ah\<bar> \<le> 505 * e" unfolding ah'_def using rnd [of ah 504] w c by simp
  have c': "\<bar>c' - c\<bar> \<le> 505 * e" unfolding c'_def using rnd [of c 504] w c by simp
  have "\<bar>ah' - al'\<bar> \<le> 100" using ah' al' w e by linarith
  from rnd [OF this] have "\<bar>n - (ah' - al')\<bar> \<le> 101 * e" unfolding n_def by simp
  with ah' al' have n: "\<bar>n - (ah - al)\<bar> \<le> 1111 * e" by linarith
  have "\<bar>bh' - bl'\<bar> \<le> 505" using bh' bl' w e by linarith
  from rnd [OF this] have "\<bar>d - (bh' - bl')\<bar> \<le> 506 * e" unfolding d_def by simp
  with bh' bl' have d: "\<bar>d - (bh - bl)\<bar> \<le> 1516 * e" by linarith
  have d10: "10 \<le> d" using d w e by linarith
  have inv: "\<bar>1 / d - 1 / (bh - bl)\<bar> \<le> 1516 * e / (10 * 11)"
    by (rule inverse_error [OF d d10]) (use w in simp_all)
  have invd: "\<bar>1 / d\<bar> \<le> 1 / 10" using d10 by (simp add: field_simps)
  have N: "\<bar>ah - al\<bar> \<le> 99" using w by linarith
  from mult_error [OF n inv invd N]
  have q0: "\<bar>n / d - (ah - al) / (bh - bl)\<bar> \<le> 1476 * e" using e by simp
  have Q: "\<bar>(ah - al) / (bh - bl)\<bar> \<le> 9"
  proof -
    have "(ah - al) / (bh - bl) \<le> 99 / 11" by (rule frac_le) (use w in simp_all)
    moreover have "0 \<le> (ah - al) / (bh - bl)" using w by simp
    ultimately show ?thesis by linarith
  qed
  have "\<bar>n / d\<bar> \<le> 10" using q0 Q e by linarith
  from rnd [OF this] have "\<bar>q - n / d\<bar> \<le> 11 * e" unfolding q_def by simp
  with q0 have q: "\<bar>q - (ah - al) / (bh - bl)\<bar> \<le> 1487 * e" by linarith
  have q10: "\<bar>q\<bar> \<le> 10" using q Q e by linarith
  have "\<bar>c' - bl'\<bar> \<le> 505" using c' bl' w c e by linarith
  from rnd [OF this] have "\<bar>y - (c' - bl')\<bar> \<le> 506 * e" unfolding y_def by simp
  with c' bl' have y: "\<bar>y - (c - bl)\<bar> \<le> 1516 * e" by linarith
  have y505: "\<bar>y\<bar> \<le> 505" using y w c e by linarith
  from mult_error [OF q y y505 Q]
  have t0: "\<bar>q * y - (ah - al) / (bh - bl) * (c - bl)\<bar> \<le> 764579 * e" using e by simp
  have "\<bar>q * y\<bar> \<le> 10 * 505"
    unfolding abs_mult using q10 y505 by (intro mult_mono) simp_all
  then have qy: "\<bar>q * y\<bar> \<le> 5050" by simp
  from rnd [OF this] have t1: "\<bar>t - q * y\<bar> \<le> 5051 * e" unfolding t_def by simp
  with t0 have t: "\<bar>t - (ah - al) / (bh - bl) * (c - bl)\<bar> \<le> 769630 * e" by linarith
  have "\<bar>t + al'\<bar> \<le> 5452" using t1 qy al' w e by linarith
  from rnd [OF this] have "\<bar>r - (t + al')\<bar> \<le> 5453 * e" unfolding r_def by simp
  with t al' have "\<bar>r - ((ah - al) / (bh - bl) * (c - bl) + al)\<bar> \<le> 775588 * e" by linarith
  moreover have "775588 * e \<le> 1 / 10 ^ 9" by (simp add: e_def)
  ultimately show ?thesis unfolding r by (simp add: interpolate_def b)
qed

subsection \<open>What the two functions return\<close>

text \<open>
  C5 (amended). For every concentration \<open>c\<close> and pollutant: when \<open>b\<close> is the first bracket of
  the pollutant's table with \<open>bp_low \<le> c \<le> bp_high\<close>, the forecaster's \<open>calculate_aqi\<close>
  returns \<open>(aqi_high - aqi_low) / (bp_high - bp_low) * (c - bp_low) + aqi_low\<close> for that
  bracket, and the dashboard service's \<open>calculate_aqi\<close> returns an integer, the rounding of
  the binary64 value of that expression, which is within \<open>1/2 + 10\<^sup>-\<^sup>9\<close> of the formula's
  value; when \<open>c\<close> is strictly greater than the last bracket's \<open>bp_high\<close>, both return 500.
\<close>

theorem calculate_aqi_first_bracket_or_ceiling:
  "(find (in_bracket c) (breakpoints p) = Some b \<longrightarrow>
      forecaster_calculate_aqi c p = interpolate b c \<and>
      dashboard_calculate_aqi c p = py_round (binary64_interpolate b c) \<and>
      \<bar>real_of_int (dashboard_calculate_aqi c p) - interpolate b c\<bar> \<le> 1 / 2 + 1 / 10 ^ 9)
   \<and> (bracket_high (last (breakpoints p)) < c \<longrightarrow>
      forecaster_calculate_aqi c p = 500 \<and> dashboard_calculate_aqi c p = 500)"
proof (intro conjI impI)
  assume f: "find (in_bracket c) (breakpoints p) = Some b"
  then show "forecaster_calculate_aqi c p = interpolate b c"
    by (simp add: forecaster_calculate_aqi_def aqi_loop_find)
  from f show d: "dashboard_calculate_aqi c p = py_round (binary64_interpolate b c)"
    by (simp add: dashboard_calculate_aqi_def dashboard_aqi_loop_find)
  from f have "b \<in> set (breakpoints p)" "in_bracket c b"
    by (auto simp: find_Some_iff in_set_conv_nth)
  from binary64_interpolate_error [OF this] py_round_near [of "binary64_interpolate b c"]
  show "\<bar>real_of_int (dashboard_calculate_aqi c p) - interpolate b c\<bar> \<le> 1 / 2 + 1 / 10 ^ 9"
    unfolding d by linarith
next
  assume a: "bracket_high (last (breakpoints p)) < c"
  then show "forecaster_calculate_aqi c p = 500"
    by (simp add: forecaster_calculate_aqi_def aqi_loop_above_last)
  from a show "dashboard_calculate_aqi c p = 500"
    by (simp add: dashboard_calculate_aqi_def dashboard_aqi_loop_find find_above_last)
       (simp add: bracket_high_def)
qed

text \<open>
  A witness at PM2.5 = 5.4, where the formula gives 22.5 and its binary64 evaluation
  \<open>6333186975989761 / 2 ^ 48\<close>, printed 22.500000000000004: the service returns 23. At
  PM10 = 600 both functions return 500.
\<close>

theorem calculate_aqi_first_bracket_or_ceiling_witness:
  "find (in_bracket 5.4) (breakpoints ''pm25'') = Some (0, 12.0, 0, 50)
   \<and> forecaster_calculate_aqi 5.4 ''pm25'' = 22.5
   \<and> interpolate (0, 12.0, 0, 50) 5.4 = 22.5
   \<and> dashboard_calculate_aqi 5.4 ''pm25'' = 23
   \<and> \<bar>real_of_int (dashboard_calculate_aqi 5.4 ''pm25'') - interpolate (0, 12.0, 0, 50) 5.4\<bar>
        \<le> 1 / 2 + 1 / 10 ^ 9
   \<and> bracket_high (last (breakpoints ''pm10'')) < 600
   \<and> forecaster_calculate_aqi 600 ''pm10'' = 500
   \<and> dashboard_calculate_aqi 600 ''pm10'' = 500"
proof -
  have f: "find (in_bracket 5.4) (breakpoints ''pm25'') = Some (0, 12.0, 0, 50)"
    by (simp add: breakpoints_def in_bracket_def)
  have v: "interpolate (0, 12.0, 0, 50) 5.4 = 22.5"
    by (simp add: interpolate_def)
  have r: "py_round (binary64_interpolate (0, 12.0, 0, 50) 5.4) = 23"
    by (simp add: binary64_interpolate_pm25_5_4 py_round_def Let_def)
  have a: "bracket_high (last (breakpoints ''pm10'')) < 600"
    by (simp add: breakpoints_def bracket_high_def)
  from calculate_aqi_first_bracket_or_ceiling [of "5.4" "''pm25''" "(0, 12.0, 0, 50)"]
    calculate_aqi_first_bracket_or_ceiling [of 600 "''pm10''" "(0, 54, 0, 50)"]
    f v r a
  show ?thesis by (simp only: simp_thms) simp
qed

text \<open>
  C5 as stated fails for the dashboard service: at PM2.5 = 6.1 the first matching bracket
  is \<open>(0, 12.0, 0, 50)\<close>, whose formula gives \<open>305 / 12\<close>, and the service returns 25.
\<close>

theorem dashboard_calculate_aqi_unrounded_counterexample:
  "find (in_bracket 6.1) (breakpoints ''pm25'') = Some (0, 12.0, 0, 50)
   \<and> interpolate (0, 12.0, 0, 50) 6.1 = 305 / 12
   \<and> dashboard_calculate_aqi 6.1 ''pm25'' = 25
   \<and> real_of_int (dashboard_calculate_aqi 6.1 ''pm25'') \<noteq> interpolate (0, 12.0, 0, 50) 6.1"
proof -
  have f: "find (in_bracket 6.1) (breakpoints ''pm25'') = Some (0, 12.0, 0, 50)"
    by (simp add: breakpoints_def in_bracket_def)
  have v: "interpolate (0, 12.0, 0, 50) 6.1 = 305 / 12"
    by (simp add: interpolate_def)
  have r: "py_round (binary64_interpolate (0, 12.0, 0, 50) 6.1) = 25"
    by (simp add: binary64_interpolate_pm25_6_1 py_round_def Let_def)
  have d: "dashboard_calculate_aqi 6.1 ''pm25'' = 25"
    using f r by (simp add: dashboard_calculate_aqi_def dashboard_aqi_loop_find)
  show ?thesis unfolding d v using f by simp
qed

text \<open>
  Three concentrations at which the formula's exact value is a half, and the binary64
  arithmetic decides the integer: 22.5 is computed as 22.500000000000004, 4.5 as
  4.500000000000001 and 15.5 as 15.499999999999998.
\<close>

lemma dashboard_calculate_aqi_near_half:
  "interpolate (0, 12.0, 0, 50) 5.4 = 22.5 \<and> dashboard_calculate_aqi 5.4 ''pm25'' = 23"
  "interpolate (0, 12.0, 0, 50) 1.08 = 4.5 \<and> dashboard_calculate_aqi 1.08 ''pm25'' = 5"
  "interpolate (0, 54, 0, 50) 16.74 = 15.5 \<and> dashboard_calculate_aqi 16.74 ''pm10'' = 15"
proof -
  have "py_round (binary64_interpolate (0, 12.0, 0, 50) 5.4) = 23"
    by (simp add: binary64_interpolate_pm25_5_4 py_round_def Let_def)
  then show "interpolate (0, 12.0, 0, 50) 5.4 = 22.5 \<and> dashboard_calculate_aqi 5.4 ''pm25'' = 23"
    by (simp add: interpolate_def dashboard_calculate_aqi_def breakpoints_def)
  have "py_round (binary64_interpolate (0, 12.0, 0, 50) 1.08) = 5"
    by (simp add: binary64_interpolate_pm25_1_08 py_round_def Let_def)
  then show "interpolate (0, 12.0, 0, 50) 1.08 = 4.5 \<and> dashboard_calculate_aqi 1.08 ''pm25'' = 5"
    by (simp add: interpolate_def dashboard_calculate_aqi_def breakpoints_def)
  have "py_round (binary64_interpolate (0, 54, 0, 50) 16.74) = 15"
    by (simp add: binary64_interpolate_pm10_16_74 py_round_def Let_def)
  then show "interpolate (0, 54, 0, 50) 16.74 = 15.5 \<and> dashboard_calculate_aqi 16.74 ''pm10'' = 15"
    by (simp add: interpolate_def dashboard_calculate_aqi_def breakpoints_def)
qed

section \<open>Alert classification\<close>

text \<open>A Python exception that leaves a function is a value \<open>Inl e\<close> of its result.\<close>

datatype py_error =
    KeyError string
  | ValueError string
  | ZeroDivisionError
  | UnpicklingError
  | SystemExit int

text \<open>
  An f-string is kept as its literal text with the interpolated arguments beside it, so
  no number formatting is modelled.
\<close>

datatype fmt_arg = Str string | Num real

type_synonym fstring = "string \<times> fmt_arg list"

subsection \<open>\<open>AirQualityForecaster.generate_forecast_alerts\<close>\<close>

text \<open>
  One entry of the \<open>forecasts\<close> dictionary, \<open>{'pm25': .., 'pm10': .., 'timestamp': ..}\<close>.
  The dictionary itself is the list of its items in insertion order, which is the order
  \<open>forecasts.items()\<close> iterates in. The type of time stamps is left open.
\<close>

record 'ts forecast =
  pm25 :: real
  pm10 :: real
  timestamp :: 'ts

record 'ts forecast_alert =
  horizon :: string
  level :: string
  message :: fstring
  alert_timestamp :: 'ts
  aqi :: real


subsection \<open>Concentrations between two brackets\<close>


subsection \<open>\<open>AirQualityFlightSafetyPredictor.generate_alerts\<close>\<close>


definition subscript :: "(string \<times> 'v) list \<Rightarrow> string \<Rightarrow> py_error + 'v" where
  "subscript d k = (case map_of d k of None \<Rightarrow> Inl (KeyError k) | Some v \<Rightarrow> Inr v)"








subsection \<open>The alert scenario and the order of alerts\<close>








section \<open>Model artifacts: saving by the forecaster, loading by the prediction service\<close>

text \<open>
  The Python objects stored in an artifact: a dictionary of trained predictors or scalers
  (of an opaque type \<open>'m\<close>), a list of column names, or the dictionary of thresholds. An
  artifact is the pickled dictionary itself, as the list of its items. A file that exists
  holds either a pickled dictionary or bytes that \<open>joblib.load\<close> rejects; \<open>os.path.exists\<close>
  is whether the path is in the domain of the file system.
\<close>

datatype 'm pyobj =
    Dict "(string \<times> 'm) list"
  | ColumnList "string list"
  | ThresholdDict "(string \<times> (string \<times> real) list) list"

datatype 'm stored_file = Pickled "(string \<times> 'm pyobj) list" | Corrupt

type_synonym 'm filesystem = "string \<rightharpoonup> 'm stored_file"

definition joblib_load :: "'m filesystem \<Rightarrow> string \<Rightarrow> py_error + (string \<times> 'm pyobj) list" where
  "joblib_load fs path =
     (case fs path of
        Some (Pickled d) \<Rightarrow> Inr d
      | _ \<Rightarrow> Inl UnpicklingError)"

text \<open>The attributes of \<open>AirQualityForecaster\<close> that \<open>save_forecast_models\<close> reads.\<close>

record 'm forecaster =
  fc_models :: "(string \<times> 'm) list"
  fc_feature_columns :: "string list"

definition forecast_data :: "'m forecaster \<Rightarrow> (string \<times> 'm pyobj) list" where
  "forecast_data self =
     [(''models'', Dict (fc_models self)),
      (''feature_columns'', ColumnList (fc_feature_columns self))]"

definition save_forecast_models :: "'m forecaster \<Rightarrow> 'm filesystem \<Rightarrow> 'm filesystem" where
  "save_forecast_models self fs =
     fs(''air_quality_forecast_models.pkl'' \<mapsto> Pickled (forecast_data self))"

text \<open>The attributes of \<open>DashboardMLPredictor\<close>, as \<open>__init__\<close> sets them before loading.\<close>

record 'm predictor =
  models :: "'m pyobj"
  scalers :: "'m pyobj"
  feature_columns :: "'m pyobj"
  forecast_models :: "'m pyobj"
  forecast_scalers :: "'m pyobj"
  forecast_feature_columns :: "'m pyobj"

definition predictor_init :: "'m predictor" where
  "predictor_init =
     \<lparr>models = Dict [], scalers = Dict [], feature_columns = ColumnList [],
      forecast_models = Dict [], forecast_scalers = Dict [],
      forecast_feature_columns = ColumnList []\<rparr>"

text \<open>The two \<open>if os.path.exists(..)\<close> blocks of the \<open>try\<close> body, each stopping at its first exception.\<close>

definition load_current :: "'m filesystem \<Rightarrow> 'm predictor \<Rightarrow> py_error + 'm predictor" where
  "load_current fs self =
     (if ''air_quality_flight_safety_models.pkl'' \<in> dom fs then
        case joblib_load fs ''air_quality_flight_safety_models.pkl'' of Inl e \<Rightarrow> Inl e
        | Inr model_data \<Rightarrow>
        case subscript model_data ''models'' of Inl e \<Rightarrow> Inl e | Inr m \<Rightarrow>
        case subscript model_data ''scalers'' of Inl e \<Rightarrow> Inl e | Inr sc \<Rightarrow>
        case subscript model_data ''feature_columns'' of Inl e \<Rightarrow> Inl e | Inr fcs \<Rightarrow>
          Inr (self\<lparr>models := m, scalers := sc, feature_columns := fcs\<rparr>)
      else Inr self)"

definition load_forecast :: "'m filesystem \<Rightarrow> 'm predictor \<Rightarrow> py_error + 'm predictor" where
  "load_forecast fs self =
     (if ''air_quality_forecast_models.pkl'' \<in> dom fs then
        case joblib_load fs ''air_quality_forecast_models.pkl'' of Inl e \<Rightarrow> Inl e
        | Inr loaded \<Rightarrow>
        case subscript loaded ''models'' of Inl e \<Rightarrow> Inl e | Inr m \<Rightarrow>
        case subscript loaded ''scalers'' of Inl e \<Rightarrow> Inl e | Inr sc \<Rightarrow>
        case subscript loaded ''feature_columns'' of Inl e \<Rightarrow> Inl e | Inr fcs \<Rightarrow>
          Inr (self\<lparr>forecast_models := m, forecast_scalers := sc,
                    forecast_feature_columns := fcs\<rparr>)
      else Inr self)"

text \<open>
  \<open>load_models\<close>: every exception of the body is an \<open>Exception\<close>, so the handler runs and
  calls \<open>sys.exit(1)\<close>; the resulting \<open>SystemExit\<close> leaves \<open>load_models\<close>, \<open>__init__\<close> and
  \<open>main\<close>, none of which catches it.
\<close>

definition load_models :: "'m filesystem \<Rightarrow> 'm predictor \<Rightarrow> py_error + 'm predictor" where
  "load_models fs self =
     (case load_current fs self of
        Inl e \<Rightarrow> Inl (SystemExit 1)
      | Inr self1 \<Rightarrow>
          (case load_forecast fs self1 of
             Inl e \<Rightarrow> Inl (SystemExit 1)
           | Inr self2 \<Rightarrow> Inr self2))"

lemma forecast_data_no_scalers:
  "subscript (forecast_data fc) ''scalers'' = Inl (KeyError ''scalers'')"
  by (simp add: subscript_def forecast_data_def)

lemma load_forecast_of_forecaster_artifact:
  assumes "fs ''air_quality_forecast_models.pkl'' = Some (Pickled (forecast_data fc))"
  shows "load_forecast fs self = Inl (KeyError ''scalers'')"
proof -
  from assms have d: "''air_quality_forecast_models.pkl'' \<in> dom fs" by blast
  from assms have l: "joblib_load fs ''air_quality_forecast_models.pkl'' = Inr (forecast_data fc)"
    by (simp add: joblib_load_def)
  have m: "subscript (forecast_data fc) ''models'' = Inr (Dict (fc_models fc))"
    by (simp add: subscript_def forecast_data_def)
  show ?thesis
    unfolding load_forecast_def using d by (simp add: l m forecast_data_no_scalers)
qed

text \<open>
  C10. The artifact written by \<open>save_forecast_models\<close> has exactly the keys \<open>models\<close> and
  \<open>feature_columns\<close>. Whenever the file \<open>air_quality_forecast_models.pkl\<close> holds such an
  artifact, whatever else the file system holds and whatever the predictor's attributes
  are, the read of the key \<open>scalers\<close> raises \<open>KeyError\<close> and \<open>load_models\<close> ends in
  \<open>SystemExit\<close> with status 1: it never returns a loaded predictor.
\<close>

theorem load_models_rejects_forecaster_artifact:
  assumes "fs ''air_quality_forecast_models.pkl'' = Some (Pickled (forecast_data fc))"
  shows "map fst (forecast_data fc) = [''models'', ''feature_columns'']
    \<and> subscript (forecast_data fc) ''scalers'' = Inl (KeyError ''scalers'')
    \<and> load_models fs self = Inl (SystemExit 1)"
proof (intro conjI)
  show "map fst (forecast_data fc) = [''models'', ''feature_columns'']"
    by (simp add: forecast_data_def)
  show "subscript (forecast_data fc) ''scalers'' = Inl (KeyError ''scalers'')"
    by (rule forecast_data_no_scalers)
  show "load_models fs self = Inl (SystemExit 1)"
    unfolding load_models_def
    using load_forecast_of_forecaster_artifact [of fs fc] assms
    by (simp split: sum.split)
qed

theorem load_models_rejects_forecaster_artifact_witness:
  "save_forecast_models \<lparr>fc_models = [(''pm25_1h'', 0::nat)], fc_feature_columns = [''hour_sin'']\<rparr>
       Map.empty ''air_quality_forecast_models.pkl''
     = Some (Pickled (forecast_data \<lparr>fc_models = [(''pm25_1h'', 0::nat)],
                                     fc_feature_columns = [''hour_sin'']\<rparr>))
   \<and> load_models
        (save_forecast_models \<lparr>fc_models = [(''pm25_1h'', 0::nat)], fc_feature_columns = [''hour_sin'']\<rparr>
           Map.empty)
        predictor_init = Inl (SystemExit 1)"
proof -
  have h: "save_forecast_models \<lparr>fc_models = [(''pm25_1h'', 0::nat)],
             fc_feature_columns = [''hour_sin'']\<rparr> Map.empty ''air_quality_forecast_models.pkl''
     = Some (Pickled (forecast_data \<lparr>fc_models = [(''pm25_1h'', 0::nat)],
                                     fc_feature_columns = [''hour_sin'']\<rparr>))"
    by (simp add: save_forecast_models_def)
  from load_models_rejects_forecaster_artifact
    [of "save_forecast_models \<lparr>fc_models = [(''pm25_1h'', 0::nat)],
           fc_feature_columns = [''hour_sin'']\<rparr> Map.empty"
        "\<lparr>fc_models = [(''pm25_1h'', 0::nat)], fc_feature_columns = [''hour_sin'']\<rparr>"
        predictor_init] h
  show ?thesis by simp
qed

section \<open>Derived physical features\<close>

text \<open>\<open>np.clip(x, lo, hi)\<close> on a number: \<open>minimum(maximum(x, lo), hi)\<close>.\<close>

definition clip :: "real \<Rightarrow> real \<Rightarrow> real \<Rightarrow> real" where
  "clip x lo hi = min (max x lo) hi"

subsection \<open>Training time: \<open>AirQualityFlightSafetyPredictor\<close>\<close>

text \<open>
  The formulas of \<open>load_and_prepare_data\<close> and its helpers for one row whose measurements
  are numbers. numpy does not raise on a division by zero: \<open>50 / 0.0\<close> is \<open>inf\<close>, which
  \<open>np.clip\<close> brings to 50 in \<open>calculate_visibility\<close>; in \<open>calculate_air_density\<close> the
  result is \<open>inf\<close> or \<open>nan\<close>, which is \<open>None\<close> here.
\<close>

definition calculate_visibility :: "real \<Rightarrow> real \<Rightarrow> real \<Rightarrow> real" where
  "calculate_visibility pm25_c pm10_c dust_c =
     (let d = 1 + (pm25_c / 50) + (pm10_c / 100) + (dust_c / 200)
      in if d = 0 then 50 else clip (50 / d) 0.1 50)"



definition train_dust_wind_factor :: "real \<Rightarrow> real \<Rightarrow> real" where
  "train_dust_wind_factor dust_c wind = dust_c * wind / 100"


text \<open>
  \<open>Pressure_Stability\<close> at training time is the distance of the row's pressure from the
  mean of the 24 rows of the table ending at it.
\<close>

definition train_pressure_stability :: "real \<Rightarrow> real \<Rightarrow> real" where
  "train_pressure_stability pressure_hpa rolling_mean = \<bar>pressure_hpa - rolling_mean\<bar>"

subsection \<open>Inference time: \<open>DashboardMLPredictor.create_features_for_location\<close>\<close>

text \<open>
  The arguments of \<open>create_features_for_location\<close> and \<open>predict_conditions\<close>. The date parts
  of \<open>datetime.now()\<close> that the function reads are an explicit argument.
\<close>

record request =
  site :: string
  lat :: real
  lon :: real
  region :: string
  hour :: int
  temperature :: real
  humidity :: real
  wind_speed :: real
  pressure :: real
  dust :: real
  aod :: real

record clock =
  weekday :: nat
  month :: nat

definition get_season :: "nat \<Rightarrow> nat" where
  "get_season m =
     (if m \<in> set [12, 1, 2] then 0
      else if m \<in> set [3, 4, 5] then 1
      else if m \<in> set [6, 7, 8] then 2
      else 3)"

text \<open>Python's \<open>/\<close> on numbers raises \<open>ZeroDivisionError\<close> for a zero divisor.\<close>

definition py_div :: "real \<Rightarrow> real \<Rightarrow> py_error + real" where
  "py_div a b = (if b = 0 then Inl ZeroDivisionError else Inr (a / b))"

text \<open>
  Column names are written in ASCII: \<open>degC\<close>, \<open>deg\<close> and \<open>ug/m3\<close> stand for the degree and
  micro signs of the source. \<open>replace(hour=hour, ..)\<close> raises \<open>ValueError\<close> outside 0..23.
\<close>

definition create_features_for_location ::
  "clock \<Rightarrow> request \<Rightarrow> py_error + (string \<times> real) list" where
  "create_features_for_location now r =
     (if hour r < 0 \<or> 23 < hour r then Inl (ValueError ''hour must be in 0..23'')
      else
        let features =
          [(''Temperature (degC)'', temperature r),
           (''Humidity (%)'', humidity r),
           (''Wind Speed (m/s)'', wind_speed r),
           (''Wind Direction (deg)'', 180 + 60 * sin (of_int (hour r) * pi / 12)),
           (''Pressure (hPa)'', pressure r),
           (''Dust (ug/m3)'', dust r),
           (''Aerosol Optical Depth'', aod r),
           (''Hour'', of_int (hour r)),
           (''DayOfWeek'', of_nat (weekday now)),
           (''Month'', of_nat (month now)),
           (''Season'', of_nat (get_season (month now))),
           (''IsWeekend'', if 5 \<le> weekday now then 1 else 0)]
        in
        case py_div 50 (1 + (dust r / 200) + (aod r * 100)) of Inl e \<Rightarrow> Inl e | Inr vis \<Rightarrow>
        case py_div (pressure r * 100) (287.05 * (temperature r + 273.15)) of Inl e \<Rightarrow> Inl e
        | Inr density \<Rightarrow>
          Inr (features @
            [(''Visibility_Est'', vis),
             (''Turbulence_Risk'', clip (wind_speed r / 25 + dust r / 200) 0 1),
             (''Air_Density'', density),
             (''Dust_Wind_Factor'', (dust r / 100) * (wind_speed r / 25)),
             (''Pressure_Stability'', \<bar>pressure r - 1013.25\<bar> / 50),
             (''Temp_Humidity_Index'', temperature r * (1 + humidity r / 100))] @
            map (\<lambda>city. (''City_'' @ city, if region r = city \<or> site r = city then 1 else 0))
              [''Musandam'', ''Muscat'', ''Salalah'']))"



subsection \<open>Inference-time and training-time formulas compared\<close>

lemma create_features_for_location_returns:
  assumes "0 \<le> hour r" "hour r \<le> 23" "1 + dust r / 200 + aod r * 100 \<noteq> 0"
    "temperature r + 273.15 \<noteq> 0"
  shows "\<exists>features. create_features_for_location now r = Inr features"
  using assms by (simp add: create_features_for_location_def py_div_def Let_def)









section \<open>Tables: series and frames\<close>

text \<open>
  A pandas \<open>Series\<close> of floats is the list of its values in positional order, \<open>None\<close>
  being \<open>NaN\<close>. Index labels are not modelled: every operation below that the source
  uses (\<open>shift\<close>, \<open>rolling\<close>, \<open>iloc\<close>, \<open>fit\<close> on the values) is positional.
\<close>

type_synonym series = "real option list"

text \<open>
  \<open>s.shift(k)\<close>: for \<open>k \<ge> 0\<close> the values move \<open>k\<close> positions towards the end and the first
  \<open>k\<close> positions become \<open>NaN\<close>; for \<open>k < 0\<close> they move towards the start and the last
  \<open>-k\<close> positions become \<open>NaN\<close>. The length is unchanged.
\<close>

definition shift :: "int \<Rightarrow> 'a option list \<Rightarrow> 'a option list" where
  "shift k s =
     (if 0 \<le> k
      then replicate (min (nat k) (length s)) None @ take (length s - nat k) s
      else drop (nat (- k)) s @ replicate (min (nat (- k)) (length s)) None)"

text \<open>\<open>s.dropna()\<close>: the values that are not \<open>NaN\<close>, in order.\<close>

definition dropna_series :: "'a option list \<Rightarrow> 'a list" where
  "dropna_series s = List.map_filter id s"

text \<open>
  \<open>s.rolling(window=w, min_periods=m).mean()\<close>: at position \<open>i\<close> the mean of the values that
  are not \<open>NaN\<close> among the (at most \<open>w\<close>) positions ending at \<open>i\<close>, when there are at least
  \<open>m\<close> of them (and at least one); \<open>NaN\<close> otherwise. \<open>rolling(w)\<close> alone has \<open>m = w\<close>.
\<close>

definition window_mean :: "nat \<Rightarrow> nat \<Rightarrow> series \<Rightarrow> nat \<Rightarrow> real option" where
  "window_mean w m s i =
     (let vals = dropna_series (drop (Suc i - w) (take (Suc i) s))
      in if m \<le> length vals \<and> 0 < length vals
         then Some (sum_list vals / real (length vals))
         else None)"

definition rolling_mean :: "nat \<Rightarrow> nat \<Rightarrow> series \<Rightarrow> series" where
  "rolling_mean w m s = map (window_mean w m s) [0..<length s]"

text \<open>
  A row of a table: the site tag, the time stamp (whole hours since 1970-01-01 00:00; the
  input tables are hourly) and the numeric cells by column name. A frame is the list of
  its numeric column names, in order, with its rows; a cell under a name that is not a
  column of the frame is never read.
\<close>

record row =
  City :: string
  DateTime :: nat
  cell :: "string \<Rightarrow> real option"

record frame =
  columns :: "string list"
  rows :: "row list"

text \<open>\<open>df[c]\<close> raises \<open>KeyError\<close> for a missing column.\<close>

definition get_col :: "string \<Rightarrow> frame \<Rightarrow> py_error + series" where
  "get_col c df =
     (if c \<in> set (columns df) then Inr (map (\<lambda>r. cell r c) (rows df)) else Inl (KeyError c))"

text \<open>
  \<open>df[c] = values\<close>: an existing column is overwritten in place, a new one is appended as
  the last column.
\<close>

definition set_col :: "string \<Rightarrow> series \<Rightarrow> frame \<Rightarrow> frame" where
  "set_col c vs df =
     \<lparr>columns = (if c \<in> set (columns df) then columns df else columns df @ [c]),
      rows = map (\<lambda>(r, v). r\<lparr>cell := (cell r)(c := v)\<rparr>) (zip (rows df) vs)\<rparr>"

text \<open>\<open>df.dropna()\<close>: the rows without a \<open>NaN\<close> in any column.\<close>

definition dropna :: "frame \<Rightarrow> frame" where
  "dropna df = df\<lparr>rows := filter (\<lambda>r. \<forall>c \<in> set (columns df). cell r c \<noteq> None) (rows df)\<rparr>"

text \<open>
  \<open>pd.concat(frames, ignore_index=True)\<close>: the rows of the frames one after the other; the
  columns are the union of the frames' columns in order of first appearance, and a row
  has \<open>NaN\<close> under a column its own frame lacks.
\<close>

definition unique :: "'a list \<Rightarrow> 'a list" where
  "unique xs = rev (remdups (rev xs))"

definition own_cells :: "frame \<Rightarrow> row list" where
  "own_cells df =
     map (\<lambda>r. r\<lparr>cell := (\<lambda>c. if c \<in> set (columns df) then cell r c else None)\<rparr>) (rows df)"

definition concat_frames :: "frame list \<Rightarrow> frame" where
  "concat_frames dfs =
     \<lparr>columns = unique (concat (map columns dfs)), rows = concat (map own_cells dfs)\<rparr>"

text \<open>\<open>str(n)\<close> of a non-negative integer, as interpolated by an f-string.\<close>

definition digit_char :: "nat \<Rightarrow> char" where
  "digit_char d = ''0123456789'' ! d"

function str_nat :: "nat \<Rightarrow> string" where
  "str_nat n = (if n < 10 then [digit_char n] else str_nat (n div 10) @ [digit_char (n mod 10)])"
  by pat_completeness auto
termination
  by (relation "measure id") auto

declare str_nat.simps [simp del]

text \<open>A loop whose body may raise: the first exception ends it.\<close>

fun for_each :: "('a \<Rightarrow> 's \<Rightarrow> py_error + 's) \<Rightarrow> 'a list \<Rightarrow> 's \<Rightarrow> py_error + 's" where
  "for_each body [] s = Inr s"
| "for_each body (x # xs) s =
     (case body x s of Inl e \<Rightarrow> Inl e | Inr s' \<Rightarrow> for_each body xs s')"

section \<open>The forecaster's feature and label construction\<close>

subsection \<open>\<open>create_time_series_features\<close>\<close>

definition lag_hours :: "nat list" where
  "lag_hours = [1, 2, 3, 6, 12, 24]"

definition lag_columns :: "string list" where
  "lag_columns = [''PM2.5 (ug/m3)'', ''PM10 (ug/m3)'', ''Temperature (degC)'',
                  ''Humidity (%)'', ''Wind Speed (m/s)'', ''Dust (ug/m3)'']"

definition add_lag :: "string \<Rightarrow> nat \<Rightarrow> frame \<Rightarrow> py_error + frame" where
  "add_lag col lag df =
     (case get_col col df of Inl e \<Rightarrow> Inl e
      | Inr s \<Rightarrow> Inr (set_col (col @ ''_lag_'' @ str_nat lag @ ''h'') (shift (int lag) s) df))"

definition add_rolling :: "string \<Rightarrow> frame \<Rightarrow> py_error + frame" where
  "add_rolling col df =
     (case get_col col df of Inl e \<Rightarrow> Inl e
      | Inr s \<Rightarrow>
          let df1 = set_col (col @ ''_rolling_6h'') (rolling_mean 6 1 s) df
          in case get_col col df1 of Inl e \<Rightarrow> Inl e
             | Inr s1 \<Rightarrow> Inr (set_col (col @ ''_rolling_24h'') (rolling_mean 24 1 s1) df1))"

text \<open>The calendar parts of a time stamp: \<open>.dt.hour\<close> and \<open>.dt.dayofyear\<close>.\<close>

definition dt_hour :: "nat \<Rightarrow> nat" where
  "dt_hour t = t mod 24"

definition year_length :: "nat \<Rightarrow> nat" where
  "year_length y = (if (y mod 4 = 0 \<and> y mod 100 \<noteq> 0) \<or> y mod 400 = 0 then 366 else 365)"

function day_of_year_from :: "nat \<Rightarrow> nat \<Rightarrow> nat" where
  "day_of_year_from y d =
     (if d < year_length y then d + 1 else day_of_year_from (y + 1) (d - year_length y))"
  by pat_completeness auto
termination
  by (relation "measure snd") (auto simp: year_length_def)

declare day_of_year_from.simps [simp del]

definition dt_dayofyear :: "nat \<Rightarrow> nat" where
  "dt_dayofyear t = day_of_year_from 1970 (t div 24)"

definition add_seasonal :: "frame \<Rightarrow> frame" where
  "add_seasonal df =
     (let df1 = set_col ''hour_sin''
                  (map (\<lambda>r. Some (sin (2 * pi * real (dt_hour (DateTime r)) / 24))) (rows df)) df;
          df2 = set_col ''hour_cos''
                  (map (\<lambda>r. Some (cos (2 * pi * real (dt_hour (DateTime r)) / 24))) (rows df1)) df1;
          df3 = set_col ''day_sin''
                  (map (\<lambda>r. Some (sin (2 * pi * real (dt_dayofyear (DateTime r)) / 365))) (rows df2)) df2
      in set_col ''day_cos''
           (map (\<lambda>r. Some (cos (2 * pi * real (dt_dayofyear (DateTime r)) / 365))) (rows df3)) df3)"

text \<open>
  \<open>sort_values('DateTime')\<close> is modelled as a stable sort; under the data model's
  invariant that time stamps are unique within a site every sort gives the same order.
\<close>

definition create_time_series_features :: "frame \<Rightarrow> py_error + frame" where
  "create_time_series_features df =
     (let df0 = df\<lparr>rows := sort_key DateTime (rows df)\<rparr>
      in case for_each (\<lambda>col. for_each (add_lag col) lag_hours) lag_columns df0 of
           Inl e \<Rightarrow> Inl e
         | Inr df1 \<Rightarrow>
             (case for_each add_rolling lag_columns df1 of
                Inl e \<Rightarrow> Inl e
              | Inr df2 \<Rightarrow> Inr (add_seasonal df2)))"

subsection \<open>\<open>prepare_forecast_data\<close>\<close>

definition files :: "string list" where
  "files = [''./data/Muscat_oman_weather_aod_pm2023-2025.csv'',
            ''./data/Musandam_oman_weather_aod_pm2023-2025.csv'',
            ''./data/Salalah_oman_weather_aod_pm2023-2025.csv'']"

text \<open>
  \<open>f.split('/')[-1].split('_')[0]\<close>; the following \<open>replace\<close> of a substring that
  contains a slash changes nothing in a string without slashes.
\<close>

definition city_name :: "string \<Rightarrow> string" where
  "city_name f =
     takeWhile (\<lambda>c. c \<noteq> CHR ''_'') (rev (takeWhile (\<lambda>c. c \<noteq> CHR ''/'') (rev f)))"

text \<open>
  The file system is the function \<open>read_csv\<close>: the parsed table of a path (column names
  already stripped, time stamps parsed), or \<open>None\<close> when \<open>pd.read_csv\<close> raises, in which
  case the bare \<open>except\<close> skips the file.
\<close>

definition load_files :: "(string \<Rightarrow> frame option) \<Rightarrow> frame list" where
  "load_files read_csv =
     List.map_filter
       (\<lambda>f. case read_csv f of
               None \<Rightarrow> None
             | Some temp_df \<Rightarrow>
                 Some (temp_df\<lparr>rows := map (\<lambda>r. r\<lparr>City := city_name f\<rparr>) (rows temp_df)\<rparr>))
       files"

text \<open>
  \<open>sort_values(['City', 'DateTime'])\<close> is the stable sort by time followed by the stable
  sort by site. The loop over \<open>df['City'].unique()\<close> collects one frame per site.
\<close>

definition city_features :: "frame \<Rightarrow> string \<Rightarrow> frame list \<Rightarrow> py_error + frame list" where
  "city_features df city city_dfs =
     (case create_time_series_features (df\<lparr>rows := filter (\<lambda>r. City r = city) (rows df)\<rparr>) of
        Inl e \<Rightarrow> Inl e
      | Inr city_df \<Rightarrow> Inr (city_dfs @ [city_df]))"

definition prepare_forecast_data :: "(string \<Rightarrow> frame option) \<Rightarrow> py_error + frame" where
  "prepare_forecast_data read_csv =
     (case load_files read_csv of
        [] \<Rightarrow> Inl (ValueError ''No data files found!'')
      | df_list \<Rightarrow>
          let df0 = concat_frames df_list;
              df = df0\<lparr>rows := sort_key City (sort_key DateTime (rows df0))\<rparr>
          in case for_each (city_features df) (unique (map City (rows df))) [] of
               Inl e \<Rightarrow> Inl e
             | Inr [] \<Rightarrow> Inl (ValueError ''No objects to concatenate'')
             | Inr city_dfs \<Rightarrow> Inr (dropna (concat_frames city_dfs)))"

subsection \<open>\<open>train_forecast_models\<close>\<close>

definition horizons :: "nat list" where
  "horizons = [1, 6, 12, 24, 48]"

text \<open>
  \<open>DateTime\<close> and \<open>City\<close> are fields of a row here, so only the pollutant columns and the
  heat index are left to exclude from the numeric columns.
\<close>

definition exclude_cols :: "frame \<Rightarrow> string list" where
  "exclude_cols df =
     [''PM2.5 (ug/m3)'', ''PM10 (ug/m3)''] @
     (if ''Heat Index (degC)'' \<in> set (columns df) then [''Heat Index (degC)''] else [])"

definition feature_cols :: "frame \<Rightarrow> string list" where
  "feature_cols df = filter (\<lambda>col. col \<notin> set (exclude_cols df)) (columns df)"

text \<open>\<open>pd.get_dummies(df['City'], prefix='City')\<close>: one indicator column per site, sites sorted.\<close>

definition dummy_cities :: "frame \<Rightarrow> string list" where
  "dummy_cities df = sort (remdups (map City (rows df)))"

definition X_columns :: "frame \<Rightarrow> string list" where
  "X_columns df = feature_cols df @ map (\<lambda>c. ''City_'' @ c) (dummy_cities df)"

definition X_row :: "frame \<Rightarrow> row \<Rightarrow> real option list" where
  "X_row df r =
     map (cell r) (feature_cols df) @
     map (\<lambda>c. Some (if City r = c then 1 else 0)) (dummy_cities df)"

definition X_matrix :: "frame \<Rightarrow> real option list list" where
  "X_matrix df = map (X_row df) (rows df)"

text \<open>
  \<open>model.fit(X, y)\<close>: scikit-learn raises \<open>ValueError\<close> when the numbers of samples differ;
  otherwise the trained predictor is an unspecified function \<open>fit\<close> of the training set,
  the list of (feature row, label) pairs by position.
\<close>

type_synonym training_set = "(real option list \<times> real) list"

definition sk_fit :: "(training_set \<Rightarrow> 'm) \<Rightarrow> real option list list \<Rightarrow> real list \<Rightarrow> py_error + 'm" where
  "sk_fit fit X y =
     (if length X \<noteq> length y then Inl (ValueError ''inconsistent numbers of samples'')
      else Inr (fit (zip X y)))"

text \<open>\<open>d[k] = v\<close> on a dictionary kept as the list of its items.\<close>

fun dict_set :: "'k \<Rightarrow> 'v \<Rightarrow> ('k \<times> 'v) list \<Rightarrow> ('k \<times> 'v) list" where
  "dict_set k v [] = [(k, v)]"
| "dict_set k v ((k', v') # d) = (if k' = k then (k', v) # d else (k', v') # dict_set k v d)"

text \<open>One iteration of the \<open>for horizon in horizons\<close> loop, on the dictionary \<open>self.models\<close>.\<close>

definition y_shifted :: "string \<Rightarrow> frame \<Rightarrow> nat \<Rightarrow> py_error + real list" where
  "y_shifted target df h =
     (case get_col target df of Inl e \<Rightarrow> Inl e
      | Inr s \<Rightarrow> Inr (dropna_series (shift (- int h) s)))"

definition train_horizon ::
  "(training_set \<Rightarrow> 'm) \<Rightarrow> frame \<Rightarrow> nat \<Rightarrow> (string \<times> 'm) list \<Rightarrow> py_error + (string \<times> 'm) list"
where
  "train_horizon fit df h ms =
     (case y_shifted ''PM2.5 (ug/m3)'' df h of Inl e \<Rightarrow> Inl e | Inr y_pm25 \<Rightarrow>
      case y_shifted ''PM10 (ug/m3)'' df h of Inl e \<Rightarrow> Inl e | Inr y_pm10 \<Rightarrow>
        let X_aligned = take (length y_pm25) (X_matrix df)
        in if length X_aligned < 100 then Inr ms
           else
             case sk_fit fit X_aligned y_pm25 of Inl e \<Rightarrow> Inl e | Inr model_pm25 \<Rightarrow>
             case sk_fit fit X_aligned y_pm10 of Inl e \<Rightarrow> Inl e | Inr model_pm10 \<Rightarrow>
               Inr (dict_set (''pm10_'' @ str_nat h @ ''h'') model_pm10
                     (dict_set (''pm25_'' @ str_nat h @ ''h'') model_pm25 ms)))"

text \<open>The body of \<open>train_forecast_models\<close> after \<open>df = self.prepare_forecast_data()\<close>.\<close>

definition train_on :: "(training_set \<Rightarrow> 'm) \<Rightarrow> frame \<Rightarrow> 'm forecaster \<Rightarrow> py_error + 'm forecaster" where
  "train_on fit df self =
     (case for_each (train_horizon fit df) horizons (fc_models self) of
        Inl e \<Rightarrow> Inl e
      | Inr ms \<Rightarrow> Inr \<lparr>fc_models = ms, fc_feature_columns = X_columns df\<rparr>)"

definition train_forecast_models ::
  "(training_set \<Rightarrow> 'm) \<Rightarrow> (string \<Rightarrow> frame option) \<Rightarrow> 'm forecaster \<Rightarrow> py_error + 'm forecaster"
where
  "train_forecast_models fit read_csv self =
     (case prepare_forecast_data read_csv of
        Inl e \<Rightarrow> Inl e
      | Inr df \<Rightarrow> train_on fit df self)"

subsection \<open>Properties of the prepared table and of the training loop\<close>

text \<open>
  What \<open>train_forecast_models\<close> relies on in the table it gets from
  \<open>prepare_forecast_data\<close>: both pollutant columns exist and, after \<open>dropna\<close>, no cell of a
  column is \<open>NaN\<close>. \<open>col_values\<close> are the numbers of a column, and \<open>aligned_rows\<close> is
  \<open>len(X_aligned)\<close> as the loop computes it for a horizon.
\<close>

definition prepared :: "frame \<Rightarrow> bool" where
  "prepared df \<longleftrightarrow>
     ''PM2.5 (ug/m3)'' \<in> set (columns df) \<and> ''PM10 (ug/m3)'' \<in> set (columns df)
     \<and> (\<forall>r \<in> set (rows df). \<forall>c \<in> set (columns df). cell r c \<noteq> None)"

definition col_values :: "string \<Rightarrow> frame \<Rightarrow> real list" where
  "col_values c df = map (\<lambda>r. the (cell r c)) (rows df)"

definition aligned_rows :: "frame \<Rightarrow> nat \<Rightarrow> nat" where
  "aligned_rows df h =
     (case y_shifted ''PM2.5 (ug/m3)'' df h of
        Inl e \<Rightarrow> 0
      | Inr y_pm25 \<Rightarrow> length (take (length y_pm25) (X_matrix df)))"


lemma length_shift [simp]: "length (shift k s) = length s"
  by (auto simp: shift_def)

lemma dropna_series_append [simp]:
  "dropna_series (xs @ ys) = dropna_series xs @ dropna_series ys"
  by (simp add: dropna_series_def map_filter_def)

lemma dropna_series_replicate_None [simp]: "dropna_series (replicate k None) = []"
  by (simp add: dropna_series_def map_filter_def)

lemma dropna_series_no_nan: "None \<notin> set s \<Longrightarrow> dropna_series s = map the s"
proof -
  assume "None \<notin> set s"
  then have "\<forall>x\<in>set s. x \<noteq> None" by metis
  then have "filter (\<lambda>x. x \<noteq> None) s = s" by (rule filter_True)
  then show ?thesis by (simp add: dropna_series_def map_filter_def)
qed

lemma dropna_series_shift_back:
  assumes "None \<notin> set s"
  shows "dropna_series (shift (- int h) s) = map the (drop h s)"
proof (cases "h = 0")
  case True
  then show ?thesis using assms by (simp add: shift_def dropna_series_no_nan)
next
  case False
  have "None \<notin> set (drop h s)" using assms by (meson in_set_dropD)
  with False show ?thesis by (simp add: shift_def dropna_series_no_nan)
qed

lemma length_dropna_series_shift_back:
  "None \<notin> set s \<Longrightarrow> length (dropna_series (shift (- int h) s)) = length s - h"
  by (simp add: dropna_series_shift_back)

lemma map_of_dict_set: "map_of (dict_set k v d) = (map_of d)(k \<mapsto> v)"
  by (induction d) (auto simp: fun_eq_iff)

lemma str_nat_values:
  "str_nat 1 = ''1''" "str_nat 2 = ''2''" "str_nat 3 = ''3''" "str_nat 6 = ''6''"
  "str_nat 12 = ''12''" "str_nat 24 = ''24''" "str_nat 48 = ''48''" "str_nat (Suc 0) = ''1''"
  by (simp_all add: str_nat.simps digit_char_def)

lemma y_shifted_prepared:
  assumes "c \<in> set (columns df)" "\<forall>r \<in> set (rows df). cell r c \<noteq> None"
  shows "y_shifted c df h = Inr (drop h (col_values c df))"
proof -
  have "None \<notin> set (map (\<lambda>r. cell r c) (rows df))" using assms(2) by auto
  from dropna_series_shift_back [OF this]
  show ?thesis using assms(1)
    by (simp add: y_shifted_def get_col_def col_values_def drop_map)
qed

lemma aligned_rows_prepared:
  assumes "prepared df"
  shows "aligned_rows df h = length (rows df) - h"
proof -
  have "y_shifted ''PM2.5 (ug/m3)'' df h = Inr (drop h (col_values ''PM2.5 (ug/m3)'' df))"
    using assms by (intro y_shifted_prepared) (auto simp: prepared_def)
  then show ?thesis by (simp add: aligned_rows_def X_matrix_def col_values_def)
qed

lemma train_horizon_prepared:
  assumes "prepared df"
  shows "train_horizon fit df h ms =
    (if length (rows df) - h < 100 then Inr ms
     else Inr (dict_set (''pm10_'' @ str_nat h @ ''h'')
                 (fit (zip (take (length (rows df) - h) (X_matrix df))
                           (drop h (col_values ''PM10 (ug/m3)'' df))))
              (dict_set (''pm25_'' @ str_nat h @ ''h'')
                 (fit (zip (take (length (rows df) - h) (X_matrix df))
                           (drop h (col_values ''PM2.5 (ug/m3)'' df))))
               ms)))"
proof -
  have a: "y_shifted ''PM2.5 (ug/m3)'' df h = Inr (drop h (col_values ''PM2.5 (ug/m3)'' df))"
    using assms by (intro y_shifted_prepared) (auto simp: prepared_def)
  have b: "y_shifted ''PM10 (ug/m3)'' df h = Inr (drop h (col_values ''PM10 (ug/m3)'' df))"
    using assms by (intro y_shifted_prepared) (auto simp: prepared_def)
  show ?thesis
    unfolding train_horizon_def a b
    by (simp add: Let_def sk_fit_def X_matrix_def col_values_def)
qed

lemma for_each_rel:
  assumes step: "\<And>x s s'. x \<in> set xs \<Longrightarrow> body x s = Inr s' \<Longrightarrow> R s s'"
    and refl: "\<And>s. R s s" and trans: "\<And>a b c. R a b \<Longrightarrow> R b c \<Longrightarrow> R a c"
    and run: "for_each body xs s = Inr s'"
  shows "R s s'"
  using step run
proof (induction xs arbitrary: s)
  case Nil
  then show ?case using refl by simp
next
  case (Cons x xs)
  from Cons.prems(2) obtain s1 where b: "body x s = Inr s1" and r: "for_each body xs s1 = Inr s'"
    by (auto split: sum.splits)
  have "R s s1" using Cons.prems(1) [of x s s1] b by simp
  moreover have "R s1 s'"
  proof (rule Cons.IH [OF _ r])
    fix y t t' assume "y \<in> set xs" "body y t = Inr t'"
    then show "R t t'" using Cons.prems(1) [of y t t'] by simp
  qed
  ultimately show ?case using trans by blast
qed

lemma columns_set_col [simp]: "set (columns (set_col c vs df)) = insert c (set (columns df))"
  by (auto simp: set_col_def)

lemma add_lag_columns:
  assumes "add_lag col lag df = Inr df'"
  shows "col \<in> set (columns df)" "set (columns df) \<subseteq> set (columns df')"
  using assms by (auto simp: add_lag_def get_col_def split: if_splits)

lemma add_lags_columns:
  assumes "for_each (add_lag col) lags df = Inr df'"
  shows "set (columns df) \<subseteq> set (columns df')"
  by (rule for_each_rel [where R = "\<lambda>a b. set (columns a) \<subseteq> set (columns b)", OF _ _ _ assms])
     (auto dest: add_lag_columns(2))

lemma add_lags_has_col:
  assumes "for_each (add_lag col) (lag # lags) df = Inr df'"
  shows "col \<in> set (columns df')"
proof -
  from assms obtain df1 where a: "add_lag col lag df = Inr df1"
    and r: "for_each (add_lag col) lags df1 = Inr df'"
    by (auto split: sum.splits)
  from add_lag_columns [OF a] add_lags_columns [OF r] show ?thesis by blast
qed

lemma for_each_columns_established:
  assumes body: "\<And>c s s'. body c s = Inr s' \<Longrightarrow>
                   set (columns s) \<subseteq> set (columns s') \<and> c \<in> set (columns s')"
    and run: "for_each body cols df = Inr df'"
  shows "set (columns df) \<subseteq> set (columns df') \<and> set cols \<subseteq> set (columns df')"
  using run
proof (induction cols arbitrary: df)
  case Nil
  then show ?case by simp
next
  case (Cons c cols)
  from Cons.prems obtain df1 where a: "body c df = Inr df1"
    and r: "for_each body cols df1 = Inr df'"
    by (auto split: sum.splits)
  from body [OF a] Cons.IH [OF r]
  show ?case by auto
qed

lemma all_lags_columns:
  assumes "for_each (\<lambda>col. for_each (add_lag col) (lag # lags)) cols df = Inr df'"
  shows "set (columns df) \<subseteq> set (columns df') \<and> set cols \<subseteq> set (columns df')"
proof (rule for_each_columns_established [OF _ assms])
  fix c s s' assume "for_each (add_lag c) (lag # lags) s = Inr s'"
  from add_lags_columns [OF this] add_lags_has_col [OF this]
  show "set (columns s) \<subseteq> set (columns s') \<and> c \<in> set (columns s')" by simp
qed

lemma add_rolling_columns:
  assumes "add_rolling col df = Inr df'"
  shows "set (columns df) \<subseteq> set (columns df')"
  using assms by (auto simp: add_rolling_def Let_def get_col_def split: if_splits)

lemma add_rollings_columns:
  assumes "for_each add_rolling cols df = Inr df'"
  shows "set (columns df) \<subseteq> set (columns df')"
  by (rule for_each_rel [where R = "\<lambda>a b. set (columns a) \<subseteq> set (columns b)", OF _ _ _ assms])
     (auto dest: add_rolling_columns)

lemma add_seasonal_columns: "set (columns df) \<subseteq> set (columns (add_seasonal df))"
  by (auto simp: add_seasonal_def Let_def)

lemma create_time_series_features_columns:
  assumes "create_time_series_features df = Inr df'"
  shows "set lag_columns \<subseteq> set (columns df')"
proof -
  from assms obtain df1 df2 where
    a: "for_each (\<lambda>col. for_each (add_lag col) lag_hours) lag_columns
          (df\<lparr>rows := sort_key DateTime (rows df)\<rparr>) = Inr df1"
    and b: "for_each add_rolling lag_columns df1 = Inr df2"
    and c: "df' = add_seasonal df2"
    by (auto simp: create_time_series_features_def Let_def split: sum.splits)
  have "set lag_columns \<subseteq> set (columns df1)"
    using all_lags_columns [of 1 "[2, 3, 6, 12, 24]" lag_columns] a
    by (simp add: lag_hours_def)
  with add_rollings_columns [OF b] add_seasonal_columns [of df2] c show ?thesis by blast
qed

lemma city_features_all:
  assumes "for_each (city_features df) cities acc = Inr city_dfs"
    and "\<forall>f \<in> set acc. set lag_columns \<subseteq> set (columns f)"
  shows "\<forall>f \<in> set city_dfs. set lag_columns \<subseteq> set (columns f)"
  using assms
proof (induction cities arbitrary: acc)
  case Nil
  then show ?case by simp
next
  case (Cons c cities)
  from Cons.prems(1) obtain acc1 where
    s: "city_features df c acc = Inr acc1"
    and r1: "for_each (city_features df) cities acc1 = Inr city_dfs"
    by (auto split: sum.splits)
  from s obtain city_df where
    a: "create_time_series_features (df\<lparr>rows := filter (\<lambda>r. City r = c) (rows df)\<rparr>) = Inr city_df"
    and acc1: "acc1 = acc @ [city_df]"
    by (auto simp: city_features_def split: sum.splits)
  from r1 acc1 have r: "for_each (city_features df) cities (acc @ [city_df]) = Inr city_dfs"
    by simp
  from create_time_series_features_columns [OF a] Cons.prems(2)
  have "\<forall>f \<in> set (acc @ [city_df]). set lag_columns \<subseteq> set (columns f)" by simp
  from Cons.IH [OF r this] show ?case .
qed

lemma set_unique [simp]: "set (unique xs) = set xs"
  by (simp add: unique_def)

lemma columns_concat_frames: "set (columns (concat_frames dfs)) = (\<Union>f \<in> set dfs. set (columns f))"
  by (simp add: concat_frames_def)

lemma prepare_forecast_data_prepared:
  assumes "prepare_forecast_data read_csv = Inr df"
  shows "prepared df"
proof -
  from assms obtain df1 cities city_df city_dfs where
    run: "for_each (city_features df1) cities [] = Inr (city_df # city_dfs)"
    and df: "df = dropna (concat_frames (city_df # city_dfs))"
    unfolding prepare_forecast_data_def Let_def
    by (auto split: list.splits sum.splits)
  from city_features_all [OF run] have "set lag_columns \<subseteq> set (columns city_df)" by simp
  then have "set lag_columns \<subseteq> set (columns df)"
    unfolding df by (auto simp: dropna_def columns_concat_frames)
  then have "''PM2.5 (ug/m3)'' \<in> set (columns df)" "''PM10 (ug/m3)'' \<in> set (columns df)"
    by (auto simp: lag_columns_def)
  moreover have "\<forall>r \<in> set (rows df). \<forall>c \<in> set (columns df). cell r c \<noteq> None"
    unfolding df by (simp add: dropna_def)
  ultimately show ?thesis by (simp add: prepared_def)
qed

subsection \<open>Feature construction on a table without missing values\<close>

text \<open>
  The columns that \<open>create_time_series_features\<close> adds. A table is \<open>clean\<close> when it has
  the six base columns, none of its columns carries the name of an added one, and no
  cell is \<open>NaN\<close>. \<open>features_inv cdf df\<close> relates the table \<open>cdf\<close> given to
  \<open>create_time_series_features\<close> (already sorted) to the table \<open>df\<close> at any point of the
  function: same rows in the same order with their site, time and original cells; from
  row 24 on every added cell is a number; and the 24-hour lag of PM2.5, once added, is
  \<open>NaN\<close> on the first 24 rows.
\<close>

definition generated_columns :: "string list" where
  "generated_columns =
     concat (map (\<lambda>col. map (\<lambda>lag. col @ ''_lag_'' @ str_nat lag @ ''h'') lag_hours) lag_columns)
     @ concat (map (\<lambda>col. [col @ ''_rolling_6h'', col @ ''_rolling_24h'']) lag_columns)
     @ [''hour_sin'', ''hour_cos'', ''day_sin'', ''day_cos'']"

definition clean :: "frame \<Rightarrow> bool" where
  "clean df \<longleftrightarrow>
     set lag_columns \<subseteq> set (columns df)
     \<and> set (columns df) \<inter> set generated_columns = {}
     \<and> (\<forall>r \<in> set (rows df). \<forall>c \<in> set (columns df). cell r c \<noteq> None)"

definition features_inv :: "frame \<Rightarrow> frame \<Rightarrow> bool" where
  "features_inv cdf df \<longleftrightarrow>
     length (rows df) = length (rows cdf)
     \<and> set (columns cdf) \<subseteq> set (columns df)
     \<and> set (columns df) \<subseteq> set (columns cdf) \<union> set generated_columns
     \<and> (\<forall>i < length (rows cdf).
           City (rows df ! i) = City (rows cdf ! i)
         \<and> DateTime (rows df ! i) = DateTime (rows cdf ! i)
         \<and> (\<forall>c. c \<notin> set generated_columns \<longrightarrow> cell (rows df ! i) c = cell (rows cdf ! i) c))
     \<and> (\<forall>i < length (rows cdf). 24 \<le> i \<longrightarrow>
           (\<forall>c \<in> set (columns df). c \<in> set generated_columns \<longrightarrow> cell (rows df ! i) c \<noteq> None))
     \<and> (''PM2.5 (ug/m3)_lag_24h'' \<in> set (columns df) \<longrightarrow>
           (\<forall>i < length (rows cdf). i < 24 \<longrightarrow> cell (rows df ! i) ''PM2.5 (ug/m3)_lag_24h'' = None))"


lemma nth_rows_set_col:
  assumes "i < length (rows df)" "length vs = length (rows df)"
  shows "rows (set_col nm vs df) ! i = (rows df ! i)\<lparr>cell := (cell (rows df ! i))(nm := vs ! i)\<rparr>"
  using assms by (simp add: set_col_def)

lemma length_rows_set_col:
  "length vs = length (rows df) \<Longrightarrow> length (rows (set_col nm vs df)) = length (rows df)"
  by (simp add: set_col_def)

lemma features_inv_set_col:
  assumes inv: "features_inv cdf df" and nm: "nm \<in> set generated_columns"
    and len: "length vs = length (rows cdf)"
    and some: "\<forall>i < length (rows cdf). 24 \<le> i \<longrightarrow> vs ! i \<noteq> None"
    and none: "nm = ''PM2.5 (ug/m3)_lag_24h'' \<longrightarrow> (\<forall>i < length (rows cdf). i < 24 \<longrightarrow> vs ! i = None)"
  shows "features_inv cdf (set_col nm vs df)"
proof -
  from inv have l: "length (rows df) = length (rows cdf)" by (simp add: features_inv_def)
  with len have lv: "length vs = length (rows df)" by simp
  have r: "rows (set_col nm vs df) ! i = (rows df ! i)\<lparr>cell := (cell (rows df ! i))(nm := vs ! i)\<rparr>"
    if "i < length (rows cdf)" for i
    using that l lv by (simp add: nth_rows_set_col)
  show ?thesis
    unfolding features_inv_def
  proof (intro conjI allI impI ballI)
    show "length (rows (set_col nm vs df)) = length (rows cdf)"
      using lv l by (simp add: length_rows_set_col)
    show "set (columns cdf) \<subseteq> set (columns (set_col nm vs df))"
      using inv by (auto simp: features_inv_def)
    show "set (columns (set_col nm vs df)) \<subseteq> set (columns cdf) \<union> set generated_columns"
      using inv nm by (auto simp: features_inv_def)
  next
    fix i assume i: "i < length (rows cdf)"
    show "City (rows (set_col nm vs df) ! i) = City (rows cdf ! i)"
      using inv i by (simp add: r features_inv_def)
    show "DateTime (rows (set_col nm vs df) ! i) = DateTime (rows cdf ! i)"
      using inv i by (simp add: r features_inv_def)
  next
    fix i c assume i: "i < length (rows cdf)" and c: "c \<notin> set generated_columns"
    with nm have "c \<noteq> nm" by blast
    then show "cell (rows (set_col nm vs df) ! i) c = cell (rows cdf ! i) c"
      using inv i c by (simp add: r features_inv_def)
  next
    fix i c assume i: "i < length (rows cdf)" "24 \<le> i"
      and c: "c \<in> set (columns (set_col nm vs df))" "c \<in> set generated_columns"
    show "cell (rows (set_col nm vs df) ! i) c \<noteq> None"
    proof (cases "c = nm")
      case True
      then show ?thesis using some i by (simp add: r)
    next
      case False
      with c have "c \<in> set (columns df)" by simp
      with inv i c(2) have "cell (rows df ! i) c \<noteq> None" by (simp add: features_inv_def)
      with False show ?thesis using i by (simp add: r)
    qed
  next
    fix i assume c: "''PM2.5 (ug/m3)_lag_24h'' \<in> set (columns (set_col nm vs df))"
      and i: "i < length (rows cdf)" "i < 24"
    show "cell (rows (set_col nm vs df) ! i) ''PM2.5 (ug/m3)_lag_24h'' = None"
    proof (cases "nm = ''PM2.5 (ug/m3)_lag_24h''")
      case True
      with none i have "vs ! i = None" by blast
      then have "cell (rows (set_col nm vs df) ! i) nm = None" using i by (simp add: r)
      then show ?thesis by (simp only: True [symmetric])
    next
      case False
      with c have "''PM2.5 (ug/m3)_lag_24h'' \<in> set (columns df)" by simp
      with inv i have "cell (rows df ! i) ''PM2.5 (ug/m3)_lag_24h'' = None"
        by (simp add: features_inv_def)
      with False show ?thesis using i by (simp add: r)
    qed
  qed
qed

lemma nth_shift_forward:
  assumes "i < length s"
  shows "shift (int k) s ! i = (if i < k then None else s ! (i - k))"
proof (cases "i < k")
  case True
  with assms show ?thesis by (simp add: shift_def nth_append)
next
  case False
  with assms have "min k (length s) = k" "i - k < length s - k" by simp_all
  with False show ?thesis by (simp add: shift_def nth_append)
qed

lemma length_rolling_mean [simp]: "length (rolling_mean w m s) = length s"
  by (simp add: rolling_mean_def)

lemma nth_rolling_mean:
  "i < length s \<Longrightarrow> rolling_mean w m s ! i = window_mean w m s i"
  by (simp add: rolling_mean_def)

lemma dropna_series_nonempty:
  assumes "Some v \<in> set xs"
  shows "dropna_series xs \<noteq> []"
  using assms by (auto simp: dropna_series_def map_filter_def filter_empty_conv)

lemma window_mean_some:
  assumes "i < length s" "s ! i \<noteq> None" "0 < w"
  shows "window_mean w (Suc 0) s i \<noteq> None"
proof -
  from assms(2) obtain v where v: "s ! i = Some v" by blast
  have t: "take (Suc i) s = take i s @ [s ! i]"
    using assms(1) by (simp add: take_Suc_conv_app_nth)
  have "Suc i - w \<le> i" using assms(3) by simp
  then have "drop (Suc i - w) (take (Suc i) s) = drop (Suc i - w) (take i s) @ [s ! i]"
    using assms(1) by (simp add: t)
  then have "Some v \<in> set (drop (Suc i - w) (take (Suc i) s))" using v by simp
  from dropna_series_nonempty [OF this]
  have "0 < length (dropna_series (drop (Suc i - w) (take (Suc i) s)))" by simp
  then show ?thesis
    by (simp add: window_mean_def Let_def Suc_le_eq)
qed

lemma lag_name_generated:
  "col \<in> set lag_columns \<Longrightarrow> lag \<in> set lag_hours \<Longrightarrow>
   col @ ''_lag_'' @ str_nat lag @ ''h'' \<in> set generated_columns"
  by (auto simp: generated_columns_def)

lemma lag_name_24:
  "col \<in> set lag_columns \<Longrightarrow> lag \<in> set lag_hours \<Longrightarrow>
   col @ ''_lag_'' @ str_nat lag @ ''h'' = ''PM2.5 (ug/m3)_lag_24h'' \<Longrightarrow> lag = 24"
  by (auto simp: lag_columns_def lag_hours_def str_nat_values)

lemma rolling_name_generated:
  "col \<in> set lag_columns \<Longrightarrow> col @ ''_rolling_6h'' \<in> set generated_columns"
  "col \<in> set lag_columns \<Longrightarrow> col @ ''_rolling_24h'' \<in> set generated_columns"
  by (auto simp: generated_columns_def)

lemma rolling_name_other:
  "col \<in> set lag_columns \<Longrightarrow> col @ ''_rolling_6h'' \<noteq> ''PM2.5 (ug/m3)_lag_24h''"
  "col \<in> set lag_columns \<Longrightarrow> col @ ''_rolling_24h'' \<noteq> ''PM2.5 (ug/m3)_lag_24h''"
  by (auto simp: lag_columns_def)

lemma seasonal_name_generated:
  "''hour_sin'' \<in> set generated_columns" "''hour_cos'' \<in> set generated_columns"
  "''day_sin'' \<in> set generated_columns" "''day_cos'' \<in> set generated_columns"
  by (simp_all add: generated_columns_def)

lemma base_column_values:
  assumes inv: "features_inv cdf df" and cl: "clean cdf" and col: "col \<in> set lag_columns"
    and j: "j < length (rows cdf)"
  shows "map (\<lambda>r. cell r col) (rows df) ! j = cell (rows cdf ! j) col"
    and "map (\<lambda>r. cell r col) (rows df) ! j \<noteq> None"
proof -
  from cl col have c: "col \<in> set (columns cdf)" "col \<notin> set generated_columns"
    by (auto simp: clean_def)
  from inv j have l: "j < length (rows df)" by (simp add: features_inv_def)
  from inv j c(2) have "cell (rows df ! j) col = cell (rows cdf ! j) col"
    by (simp add: features_inv_def)
  with l show e: "map (\<lambda>r. cell r col) (rows df) ! j = cell (rows cdf ! j) col" by simp
  from j have "rows cdf ! j \<in> set (rows cdf)" by simp
  with cl c(1) have "cell (rows cdf ! j) col \<noteq> None" by (simp add: clean_def)
  with e show "map (\<lambda>r. cell r col) (rows df) ! j \<noteq> None" by simp
qed

lemma add_lag_step:
  assumes inv: "features_inv cdf df" and cl: "clean cdf"
    and col: "col \<in> set lag_columns" and lag: "lag \<in> set lag_hours"
  shows "\<exists>df'. add_lag col lag df = Inr df' \<and> features_inv cdf df'
    \<and> set (columns df) \<union> {col @ ''_lag_'' @ str_nat lag @ ''h''} \<subseteq> set (columns df')"
proof -
  let ?nm = "col @ ''_lag_'' @ str_nat lag @ ''h''"
  let ?s = "map (\<lambda>r. cell r col) (rows df)"
  from inv have l: "length (rows df) = length (rows cdf)" by (simp add: features_inv_def)
  from cl col inv have c: "col \<in> set (columns df)" by (auto simp: clean_def features_inv_def)
  then have run: "add_lag col lag df = Inr (set_col ?nm (shift (int lag) ?s) df)"
    by (simp add: add_lag_def get_col_def)
  from lag have lag24: "lag \<le> 24" by (auto simp: lag_hours_def)
  have v: "shift (int lag) ?s ! i = (if i < lag then None else ?s ! (i - lag))"
    if "i < length (rows cdf)" for i
    using that l by (simp add: nth_shift_forward)
  have "features_inv cdf (set_col ?nm (shift (int lag) ?s) df)"
  proof (rule features_inv_set_col [OF inv])
    show "?nm \<in> set generated_columns" by (rule lag_name_generated [OF col lag])
    show "length (shift (int lag) ?s) = length (rows cdf)" using l by simp
    show "\<forall>i<length (rows cdf). 24 \<le> i \<longrightarrow> shift (int lag) ?s ! i \<noteq> None"
    proof (intro allI impI)
      fix i assume i: "i < length (rows cdf)" "24 \<le> i"
      then have "i - lag < length (rows cdf)" by simp
      from base_column_values(2) [OF inv cl col this] i lag24 show "shift (int lag) ?s ! i \<noteq> None"
        by (simp add: v)
    qed
    show "?nm = ''PM2.5 (ug/m3)_lag_24h'' \<longrightarrow>
            (\<forall>i<length (rows cdf). i < 24 \<longrightarrow> shift (int lag) ?s ! i = None)"
    proof (intro allI impI)
      fix i assume "?nm = ''PM2.5 (ug/m3)_lag_24h''" and i: "i < length (rows cdf)" "i < 24"
      from lag_name_24 [OF col lag this(1)] i have "i < lag" by simp
      then show "shift (int lag) ?s ! i = None"
        using v [OF i(1)] by simp
    qed
  qed
  with run show ?thesis by auto
qed

lemma add_rolling_step:
  assumes inv: "features_inv cdf df" and cl: "clean cdf" and col: "col \<in> set lag_columns"
  shows "\<exists>df'. add_rolling col df = Inr df' \<and> features_inv cdf df'
    \<and> set (columns df) \<union> {col @ ''_rolling_6h'', col @ ''_rolling_24h''} \<subseteq> set (columns df')"
proof -
  let ?s = "map (\<lambda>r. cell r col) (rows df)"
  let ?df1 = "set_col (col @ ''_rolling_6h'') (rolling_mean 6 1 ?s) df"
  let ?s1 = "map (\<lambda>r. cell r col) (rows ?df1)"
  let ?df2 = "set_col (col @ ''_rolling_24h'') (rolling_mean 24 1 ?s1) ?df1"
  from inv have l: "length (rows df) = length (rows cdf)" by (simp add: features_inv_def)
  from cl col inv have c: "col \<in> set (columns df)" by (auto simp: clean_def features_inv_def)
  have inv1: "features_inv cdf ?df1"
  proof (rule features_inv_set_col [OF inv])
    show "col @ ''_rolling_6h'' \<in> set generated_columns" by (rule rolling_name_generated [OF col])
    show "length (rolling_mean 6 1 ?s) = length (rows cdf)" using l by simp
    show "\<forall>i<length (rows cdf). 24 \<le> i \<longrightarrow> rolling_mean 6 1 ?s ! i \<noteq> None"
    proof (intro allI impI)
      fix i assume i: "i < length (rows cdf)"
      have ne: "?s ! i \<noteq> None" by (rule base_column_values(2) [OF inv cl col i])
      have li: "i < length ?s" using i l by simp
      from window_mean_some [OF li ne, of 6] have "window_mean 6 (Suc 0) ?s i \<noteq> None"
        by simp
      then show "rolling_mean 6 1 ?s ! i \<noteq> None"
        using li by (simp add: nth_rolling_mean)
    qed
    show "col @ ''_rolling_6h'' = ''PM2.5 (ug/m3)_lag_24h'' \<longrightarrow>
        (\<forall>i<length (rows cdf). i < 24 \<longrightarrow> rolling_mean 6 1 ?s ! i = None)"
      using rolling_name_other(1) [OF col] by blast
  qed
  from inv1 have l1: "length (rows ?df1) = length (rows cdf)" by (simp add: features_inv_def)
  have inv2: "features_inv cdf ?df2"
  proof (rule features_inv_set_col [OF inv1])
    show "col @ ''_rolling_24h'' \<in> set generated_columns" by (rule rolling_name_generated [OF col])
    show "length (rolling_mean 24 1 ?s1) = length (rows cdf)" using l1 by simp
    show "\<forall>i<length (rows cdf). 24 \<le> i \<longrightarrow> rolling_mean 24 1 ?s1 ! i \<noteq> None"
    proof (intro allI impI)
      fix i assume i: "i < length (rows cdf)"
      have ne: "?s1 ! i \<noteq> None" by (rule base_column_values(2) [OF inv1 cl col i])
      have li: "i < length ?s1" using i l1 by simp
      from window_mean_some [OF li ne, of 24] have "window_mean 24 (Suc 0) ?s1 i \<noteq> None"
        by simp
      then show "rolling_mean 24 1 ?s1 ! i \<noteq> None"
        using li by (simp add: nth_rolling_mean)
    qed
    show "col @ ''_rolling_24h'' = ''PM2.5 (ug/m3)_lag_24h'' \<longrightarrow>
        (\<forall>i<length (rows cdf). i < 24 \<longrightarrow> rolling_mean 24 1 ?s1 ! i = None)"
      using rolling_name_other(2) [OF col] by blast
  qed
  have "add_rolling col df = Inr ?df2"
    using c by (simp add: add_rolling_def get_col_def Let_def)
  with inv2 show ?thesis by auto
qed

lemma seasonal_set_col:
  assumes inv: "features_inv cdf df" and nm: "nm \<in> set generated_columns"
    and other: "nm \<noteq> ''PM2.5 (ug/m3)_lag_24h''"
  shows "features_inv cdf (set_col nm (map (\<lambda>r. Some (g r)) (rows df)) df)"
proof (rule features_inv_set_col [OF inv nm])
  from inv have l: "length (rows df) = length (rows cdf)" by (simp add: features_inv_def)
  then show "length (map (\<lambda>r. Some (g r)) (rows df)) = length (rows cdf)" by simp
  show "\<forall>i<length (rows cdf). 24 \<le> i \<longrightarrow> map (\<lambda>r. Some (g r)) (rows df) ! i \<noteq> None"
    using l by simp
  show "nm = ''PM2.5 (ug/m3)_lag_24h'' \<longrightarrow>
      (\<forall>i<length (rows cdf). i < 24 \<longrightarrow> map (\<lambda>r. Some (g r)) (rows df) ! i = None)"
    using other by blast
qed

lemma add_seasonal_step:
  assumes inv: "features_inv cdf df"
  shows "features_inv cdf (add_seasonal df)
    \<and> set (columns df) \<union> {''hour_sin'', ''hour_cos'', ''day_sin'', ''day_cos''}
        \<subseteq> set (columns (add_seasonal df))"
proof -
  have o: "''hour_sin'' \<noteq> ''PM2.5 (ug/m3)_lag_24h''" "''hour_cos'' \<noteq> ''PM2.5 (ug/m3)_lag_24h''"
    "''day_sin'' \<noteq> ''PM2.5 (ug/m3)_lag_24h''" "''day_cos'' \<noteq> ''PM2.5 (ug/m3)_lag_24h''"
    by simp_all
  note s1 = seasonal_set_col [OF inv seasonal_name_generated(1) o(1)]
  note s2 = seasonal_set_col [OF s1 seasonal_name_generated(2) o(2)]
  note s3 = seasonal_set_col [OF s2 seasonal_name_generated(3) o(3)]
  note s4 = seasonal_set_col [OF s3 seasonal_name_generated(4) o(4)]
  have "features_inv cdf (add_seasonal df)"
    unfolding add_seasonal_def Let_def by (rule s4)
  moreover have "set (columns df) \<union> {''hour_sin'', ''hour_cos'', ''day_sin'', ''day_cos''}
        \<subseteq> set (columns (add_seasonal df))"
    unfolding add_seasonal_def Let_def by (simp only: columns_set_col) blast
  ultimately show ?thesis by blast
qed

lemma for_each_total:
  fixes s :: frame
  assumes "I s"
    and "\<And>x s. x \<in> set xs \<Longrightarrow> I s \<Longrightarrow>
           \<exists>s'. body x s = Inr s' \<and> I s' \<and> set (columns s) \<union> G x \<subseteq> set (columns s')"
  shows "\<exists>s'. for_each body xs s = Inr s' \<and> I s'
           \<and> set (columns s) \<union> (\<Union>x \<in> set xs. G x) \<subseteq> set (columns s')"
  using assms
proof (induction xs arbitrary: s)
  case Nil
  then show ?case by simp
next
  case (Cons x xs)
  from Cons.prems(2) [of x s] Cons.prems(1)
  obtain s1 where b: "body x s = Inr s1" and i1: "I s1"
    and c1: "set (columns s) \<union> G x \<subseteq> set (columns s1)"
    by auto
  have "\<exists>s'. for_each body xs s1 = Inr s' \<and> I s'
           \<and> set (columns s1) \<union> (\<Union>x \<in> set xs. G x) \<subseteq> set (columns s')"
  proof (rule Cons.IH [OF i1])
    fix y t assume "y \<in> set xs" "I t"
    then show "\<exists>s'. body y t = Inr s' \<and> I s' \<and> set (columns t) \<union> G y \<subseteq> set (columns s')"
      using Cons.prems(2) [of y t] by simp
  qed
  then obtain s' where r: "for_each body xs s1 = Inr s'" and i': "I s'"
    and c': "set (columns s1) \<union> (\<Union>x \<in> set xs. G x) \<subseteq> set (columns s')"
    by blast
  have "for_each body (x # xs) s = Inr s'" by (simp add: b r)
  moreover have "set (columns s) \<union> (\<Union>x \<in> set (x # xs). G x) \<subseteq> set (columns s')"
    using c1 c' by auto
  ultimately show ?case using i' by blast
qed

lemma features_inv_init:
  assumes "clean cdf"
  shows "features_inv cdf cdf"
proof -
  have "''PM2.5 (ug/m3)_lag_24h'' \<in> set generated_columns"
    using lag_name_generated [of "''PM2.5 (ug/m3)''" 24]
    by (simp add: lag_columns_def lag_hours_def str_nat_values)
  with assms have "''PM2.5 (ug/m3)_lag_24h'' \<notin> set (columns cdf)"
    by (auto simp: clean_def)
  with assms show ?thesis
    by (auto simp: features_inv_def clean_def)
qed

lemma generated_columns_union:
  "set generated_columns =
     (\<Union>col \<in> set lag_columns. \<Union>lag \<in> set lag_hours. {col @ ''_lag_'' @ str_nat lag @ ''h''})
     \<union> (\<Union>col \<in> set lag_columns. {col @ ''_rolling_6h'', col @ ''_rolling_24h''})
     \<union> {''hour_sin'', ''hour_cos'', ''day_sin'', ''day_cos''}"
  by (auto simp: generated_columns_def)

lemma lag_loop_clean:
  assumes cl: "clean cdf" and col: "col \<in> set lag_columns" and inv: "features_inv cdf s"
  shows "\<exists>s'. for_each (add_lag col) lag_hours s = Inr s' \<and> features_inv cdf s'
      \<and> set (columns s) \<union> (\<Union>lag \<in> set lag_hours. {col @ ''_lag_'' @ str_nat lag @ ''h''})
          \<subseteq> set (columns s')"
proof (rule for_each_total [where I = "features_inv cdf", OF inv])
  fix x t assume "x \<in> set lag_hours" "features_inv cdf t"
  then show "\<exists>s'. add_lag col x t = Inr s' \<and> features_inv cdf s'
      \<and> set (columns t) \<union> {col @ ''_lag_'' @ str_nat x @ ''h''} \<subseteq> set (columns s')"
    by (rule add_lag_step [OF _ cl col, rotated])
qed

lemma lag_loops_clean:
  assumes cl: "clean cdf" and inv: "features_inv cdf df"
  shows "\<exists>df1. for_each (\<lambda>col. for_each (add_lag col) lag_hours) lag_columns df = Inr df1
     \<and> features_inv cdf df1
     \<and> set (columns df)
        \<union> (\<Union>col \<in> set lag_columns. \<Union>lag \<in> set lag_hours. {col @ ''_lag_'' @ str_nat lag @ ''h''})
        \<subseteq> set (columns df1)"
proof (rule for_each_total [where I = "features_inv cdf", OF inv])
  fix x t assume "x \<in> set lag_columns" "features_inv cdf t"
  then show "\<exists>s'. for_each (add_lag x) lag_hours t = Inr s' \<and> features_inv cdf s'
      \<and> set (columns t) \<union> (\<Union>lag \<in> set lag_hours. {x @ ''_lag_'' @ str_nat lag @ ''h''})
          \<subseteq> set (columns s')"
    by (rule lag_loop_clean [OF cl])
qed

lemma rolling_loop_clean:
  assumes cl: "clean cdf" and inv: "features_inv cdf df1"
  shows "\<exists>df2. for_each add_rolling lag_columns df1 = Inr df2
     \<and> features_inv cdf df2
     \<and> set (columns df1)
        \<union> (\<Union>col \<in> set lag_columns. {col @ ''_rolling_6h'', col @ ''_rolling_24h''})
        \<subseteq> set (columns df2)"
proof (rule for_each_total [where I = "features_inv cdf", OF inv])
  fix x t assume "x \<in> set lag_columns" "features_inv cdf t"
  then show "\<exists>s'. add_rolling x t = Inr s' \<and> features_inv cdf s'
      \<and> set (columns t) \<union> {x @ ''_rolling_6h'', x @ ''_rolling_24h''} \<subseteq> set (columns s')"
    by (rule add_rolling_step [OF _ cl, rotated])
qed

lemma clean_sorted:
  assumes "clean cdf"
  shows "clean (cdf\<lparr>rows := sort_key DateTime (rows cdf)\<rparr>)"
  using assms by (simp add: clean_def)

lemma create_time_series_features_clean:
  assumes cl: "clean cdf"
  shows "\<exists>df'. create_time_series_features cdf = Inr df'
     \<and> features_inv (cdf\<lparr>rows := sort_key DateTime (rows cdf)\<rparr>) df'
     \<and> set (columns df') = set (columns cdf) \<union> set generated_columns"
proof -
  let ?c0 = "cdf\<lparr>rows := sort_key DateTime (rows cdf)\<rparr>"
  have cl0: "clean ?c0" by (rule clean_sorted [OF cl])
  from lag_loops_clean [OF cl0 features_inv_init [OF cl0]]
  obtain df1 where a: "for_each (\<lambda>col. for_each (add_lag col) lag_hours) lag_columns ?c0 = Inr df1"
    and i1: "features_inv ?c0 df1"
    and c1: "set (columns ?c0)
        \<union> (\<Union>col \<in> set lag_columns. \<Union>lag \<in> set lag_hours. {col @ ''_lag_'' @ str_nat lag @ ''h''})
        \<subseteq> set (columns df1)"
    by blast
  from rolling_loop_clean [OF cl0 i1]
  obtain df2 where b: "for_each add_rolling lag_columns df1 = Inr df2"
    and i2: "features_inv ?c0 df2"
    and c2: "set (columns df1)
        \<union> (\<Union>col \<in> set lag_columns. {col @ ''_rolling_6h'', col @ ''_rolling_24h''})
        \<subseteq> set (columns df2)"
    by blast
  from add_seasonal_step [OF i2] have i3: "features_inv ?c0 (add_seasonal df2)"
    and c3: "set (columns df2) \<union> {''hour_sin'', ''hour_cos'', ''day_sin'', ''day_cos''}
        \<subseteq> set (columns (add_seasonal df2))"
    by blast+
  have g1: "(\<Union>col \<in> set lag_columns. \<Union>lag \<in> set lag_hours. {col @ ''_lag_'' @ str_nat lag @ ''h''})
        \<subseteq> set (columns (add_seasonal df2))"
    using c1 c2 c3 by (meson Un_upper2 Un_upper1 subset_trans)
  have g2: "(\<Union>col \<in> set lag_columns. {col @ ''_rolling_6h'', col @ ''_rolling_24h''})
        \<subseteq> set (columns (add_seasonal df2))"
    using c2 c3 by (meson Un_upper2 Un_upper1 subset_trans)
  have g3: "{''hour_sin'', ''hour_cos'', ''day_sin'', ''day_cos''} \<subseteq> set (columns (add_seasonal df2))"
    using c3 by (meson Un_upper2 subset_trans)
  have g0: "set (columns cdf) \<subseteq> set (columns (add_seasonal df2))"
    using i3 by (simp add: features_inv_def)
  have up: "set (columns cdf) \<union> set generated_columns \<subseteq> set (columns (add_seasonal df2))"
    unfolding generated_columns_union using g0 g1 g2 g3 by (simp only: Un_subset_iff)
  have low: "set (columns (add_seasonal df2)) \<subseteq> set (columns cdf) \<union> set generated_columns"
    using i3 by (simp add: features_inv_def)
  have run: "create_time_series_features cdf = Inr (add_seasonal df2)"
    unfolding create_time_series_features_def Let_def a by (simp add: b)
  from run i3 up low show ?thesis by blast
qed

subsection \<open>\<open>prepare_forecast_data\<close> on tables without missing values\<close>

text \<open>
  \<open>city_series df c\<close> is the series of site \<open>c\<close> in a table: its rows in time order.
  \<open>same_row cols r r'\<close>: two rows agree on site, time and the cells of the given columns.
\<close>

definition same_row :: "string list \<Rightarrow> row \<Rightarrow> row \<Rightarrow> bool" where
  "same_row cols r r' \<longleftrightarrow>
     City r = City r' \<and> DateTime r = DateTime r' \<and> (\<forall>c \<in> set cols. cell r c = cell r' c)"

definition city_series :: "frame \<Rightarrow> string \<Rightarrow> row list" where
  "city_series df c = sort_key DateTime (filter (\<lambda>r. City r = c) (rows df))"

lemma sorted_wrt_remdups: "sorted_wrt R xs \<Longrightarrow> sorted_wrt R (remdups xs)"
  by (induction xs) auto

lemma sorted_unique:
  assumes "sorted (xs :: 'a :: linorder list)"
  shows "sorted (unique xs)"
proof -
  from assms have "sorted_wrt (\<ge>) (rev xs)" by (simp add: sorted_wrt_rev)
  then have "sorted_wrt (\<ge>) (remdups (rev xs))" by (rule sorted_wrt_remdups)
  then show ?thesis by (simp add: unique_def sorted_wrt_rev)
qed

lemma distinct_unique [simp]: "distinct (unique xs)"
  by (simp add: unique_def)

lemma unique_sorted_keys:
  "unique (map f (sort_key f xs)) = sort (remdups (map f xs))"
proof (rule sorted_distinct_set_unique)
  show "sorted (unique (map f (sort_key f xs)))" by (rule sorted_unique) simp
  show "distinct (unique (map f (sort_key f xs)))" by simp
  show "sorted (sort (remdups (map f xs)))" by simp
  show "distinct (sort (remdups (map f xs)))" by simp
  show "set (unique (map f (sort_key f xs))) = set (sort (remdups (map f xs)))" by simp
qed

lemma city_rows_of_sorted:
  "sort_key DateTime (filter (\<lambda>r. City r = c) (sort_key City (sort_key DateTime xs)))
     = sort_key DateTime (filter (\<lambda>r. City r = c) xs)"
proof -
  have "filter (\<lambda>r. City r = c) (sort_key City (sort_key DateTime xs))
      = filter (\<lambda>r. City r = c) (sort_key DateTime xs)"
    by (rule sort_key_stable)
  also have "\<dots> = sort_key DateTime (filter (\<lambda>r. City r = c) xs)"
    by (rule filter_sort)
  finally show ?thesis by (simp add: sort_key_id_if_sorted)
qed

lemma filter_eq_drop:
  assumes "\<forall>i < length xs. P (xs ! i) \<longleftrightarrow> k \<le> i"
  shows "filter P xs = drop k xs"
  using assms
proof (induction xs arbitrary: k)
  case Nil
  then show ?case by simp
next
  case (Cons x xs)
  show ?case
  proof (cases k)
    case 0
    with Cons.prems have "\<forall>y \<in> set (x # xs). P y"
      by (metis in_set_conv_nth le0)
    then show ?thesis using 0 by simp
  next
    case (Suc k')
    from Cons.prems Suc have "\<not> P x" by force
    moreover have "\<forall>i < length xs. P (xs ! i) \<longleftrightarrow> k' \<le> i"
      using Cons.prems Suc by force
    from Cons.IH [OF this] have "filter P xs = drop k' xs" .
    ultimately show ?thesis using Suc by simp
  qed
qed

lemma list_all2_concat:
  "list_all2 (list_all2 P) xss yss \<Longrightarrow> list_all2 P (concat xss) (concat yss)"
  by (induction rule: list_all2_induct) (auto intro: list_all2_appendI)

lemma length_own_cells [simp]: "length (own_cells f) = length (rows f)"
  by (simp add: own_cells_def)

lemma nth_own_cells:
  assumes "i < length (rows f)"
  shows "City (own_cells f ! i) = City (rows f ! i)"
    and "DateTime (own_cells f ! i) = DateTime (rows f ! i)"
    and "c \<in> set (columns f) \<Longrightarrow> cell (own_cells f ! i) c = cell (rows f ! i) c"
  using assms by (simp_all add: own_cells_def)

lemma city_frame_kept:
  assumes cl: "clean c0" and inv: "features_inv c0 f"
    and cols: "set (columns f) = set (columns c0) \<union> set generated_columns"
  shows "filter (\<lambda>r. \<forall>c \<in> set (columns f). cell r c \<noteq> None) (own_cells f) = drop 24 (own_cells f)"
proof (rule filter_eq_drop, intro allI impI)
  fix i assume "i < length (own_cells f)"
  then have i: "i < length (rows f)" by simp
  from inv have l: "length (rows f) = length (rows c0)" by (simp add: features_inv_def)
  have star: "''PM2.5 (ug/m3)_lag_24h'' \<in> set (columns f)"
    using cols lag_name_generated [of "''PM2.5 (ug/m3)''" 24]
    by (simp add: lag_columns_def lag_hours_def str_nat_values)
  show "(\<forall>c \<in> set (columns f). cell (own_cells f ! i) c \<noteq> None) \<longleftrightarrow> 24 \<le> i"
  proof
    assume a: "\<forall>c \<in> set (columns f). cell (own_cells f ! i) c \<noteq> None"
    show "24 \<le> i"
    proof (rule ccontr)
      assume "\<not> 24 \<le> i"
      then have "i < 24" by simp
      with inv star i l have "cell (rows f ! i) ''PM2.5 (ug/m3)_lag_24h'' = None"
        by (simp add: features_inv_def)
      with nth_own_cells(3) [OF i star]
      have "cell (own_cells f ! i) ''PM2.5 (ug/m3)_lag_24h'' = None" by simp
      with a star show False by blast
    qed
  next
    assume g: "24 \<le> i"
    show "\<forall>c \<in> set (columns f). cell (own_cells f ! i) c \<noteq> None"
    proof
      fix c assume c: "c \<in> set (columns f)"
      have "cell (rows f ! i) c \<noteq> None"
      proof (cases "c \<in> set generated_columns")
        case True
        with inv c g i l show ?thesis by (simp add: features_inv_def)
      next
        case False
        with c cols have cc: "c \<in> set (columns c0)" by blast
        from inv False i l have "cell (rows f ! i) c = cell (rows c0 ! i) c"
          by (simp add: features_inv_def)
        moreover have "rows c0 ! i \<in> set (rows c0)" using i l by simp
        with cl cc have "cell (rows c0 ! i) c \<noteq> None" by (simp add: clean_def)
        ultimately show ?thesis by simp
      qed
      with nth_own_cells(3) [OF i c] show "cell (own_cells f ! i) c \<noteq> None" by simp
    qed
  qed
qed

lemma city_frame_same_rows:
  assumes cl: "clean c0" and inv: "features_inv c0 f"
  shows "list_all2 (same_row (columns c0)) (own_cells f) (rows c0)"
proof (rule list_all2_all_nthI)
  from inv show l: "length (own_cells f) = length (rows c0)" by (simp add: features_inv_def)
  fix i assume "i < length (own_cells f)"
  then have i: "i < length (rows f)" "i < length (rows c0)" using l by simp_all
  from inv have sub: "set (columns c0) \<subseteq> set (columns f)" by (simp add: features_inv_def)
  show "same_row (columns c0) (own_cells f ! i) (rows c0 ! i)"
    unfolding same_row_def
  proof (intro conjI ballI)
    show "City (own_cells f ! i) = City (rows c0 ! i)"
      using inv i by (simp add: nth_own_cells features_inv_def)
    show "DateTime (own_cells f ! i) = DateTime (rows c0 ! i)"
      using inv i by (simp add: nth_own_cells features_inv_def)
    fix c assume c: "c \<in> set (columns c0)"
    with cl have "c \<notin> set generated_columns" by (auto simp: clean_def)
    with inv i have "cell (rows f ! i) c = cell (rows c0 ! i) c" by (simp add: features_inv_def)
    moreover from c sub have "c \<in> set (columns f)" by blast
    ultimately show "cell (own_cells f ! i) c = cell (rows c0 ! i) c"
      using nth_own_cells(3) [OF i(1)] by simp
  qed
qed

lemma city_features_loop:
  assumes "\<forall>c \<in> set cs. \<exists>f.
      create_time_series_features (df\<lparr>rows := filter (\<lambda>r. City r = c) (rows df)\<rparr>) = Inr f \<and> Q c f"
  shows "\<exists>fs. for_each (city_features df) cs acc = Inr (acc @ fs) \<and> list_all2 Q cs fs"
  using assms
proof (induction cs arbitrary: acc)
  case Nil
  then show ?case by simp
next
  case (Cons c cs)
  from Cons.prems obtain f where
    f: "create_time_series_features (df\<lparr>rows := filter (\<lambda>r. City r = c) (rows df)\<rparr>) = Inr f"
    and q: "Q c f" by auto
  have step: "city_features df c acc = Inr (acc @ [f])"
    by (simp add: city_features_def f)
  from Cons.prems have "\<forall>c \<in> set cs. \<exists>f.
      create_time_series_features (df\<lparr>rows := filter (\<lambda>r. City r = c) (rows df)\<rparr>) = Inr f \<and> Q c f"
    by simp
  from Cons.IH [OF this, of "acc @ [f]"] obtain fs where
    r: "for_each (city_features df) cs (acc @ [f]) = Inr ((acc @ [f]) @ fs)"
    and a: "list_all2 Q cs fs" by blast
  have "for_each (city_features df) (c # cs) acc = Inr (acc @ (f # fs))"
    by (simp add: step r)
  moreover have "list_all2 Q (c # cs) (f # fs)" using q a by simp
  ultimately show ?case by blast
qed

lemma unique_cities_sorted:
  "unique (map City (sort_key City (sort_key DateTime xs))) = sort (remdups (map City xs))"
proof (rule sorted_distinct_set_unique)
  show "sorted (unique (map City (sort_key City (sort_key DateTime xs))))"
    by (rule sorted_unique) simp
  show "distinct (unique (map City (sort_key City (sort_key DateTime xs))))" by simp
  show "sorted (sort (remdups (map City xs)))" by simp
  show "distinct (sort (remdups (map City xs)))" by simp
  show "set (unique (map City (sort_key City (sort_key DateTime xs)))) = set (sort (remdups (map City xs)))"
    by simp
qed

lemma rows_dropna_concat:
  assumes "fs \<noteq> []" and "\<forall>f \<in> set fs. set (columns f) = COLS"
  shows "rows (dropna (concat_frames fs))
     = concat (map (\<lambda>f. filter (\<lambda>r. \<forall>c \<in> set (columns f). cell r c \<noteq> None) (own_cells f)) fs)"
proof -
  from assms have c: "set (columns (concat_frames fs)) = COLS"
    by (cases fs) (auto simp: columns_concat_frames)
  have "rows (dropna (concat_frames fs))
      = filter (\<lambda>r. \<forall>c \<in> COLS. cell r c \<noteq> None) (concat (map own_cells fs))"
    by (simp add: dropna_def c) (simp add: concat_frames_def)
  also have "\<dots> = concat (map (\<lambda>f. filter (\<lambda>r. \<forall>c \<in> COLS. cell r c \<noteq> None) (own_cells f)) fs)"
    by (simp add: filter_concat comp_def)
  also have "\<dots> = concat (map (\<lambda>f. filter (\<lambda>r. \<forall>c \<in> set (columns f). cell r c \<noteq> None) (own_cells f)) fs)"
    using assms(2) by (intro arg_cong [where f = concat] map_cong) simp_all
  finally show ?thesis .
qed

lemma prepare_forecast_data_clean:
  fixes read_csv
  defines "df0 \<equiv> concat_frames (load_files read_csv)"
  assumes cl: "clean df0" and ne: "rows df0 \<noteq> []"
  shows "\<exists>df. prepare_forecast_data read_csv = Inr df
    \<and> list_all2 (same_row (columns df0)) (rows df)
         (concat (map (\<lambda>c. drop 24 (city_series df0 c)) (sort (remdups (map City (rows df0))))))"
proof -
  let ?dfS = "df0\<lparr>rows := sort_key City (sort_key DateTime (rows df0))\<rparr>"
  let ?cities = "sort (remdups (map City (rows df0)))"
  let ?c0 = "\<lambda>c. df0\<lparr>rows := city_series df0 c\<rparr>"
  let ?COLS = "set (columns df0) \<union> set generated_columns"
  let ?Q = "\<lambda>c f. features_inv (?c0 c) f \<and> set (columns f) = ?COLS"
  have lf: "load_files read_csv \<noteq> []"
    using ne by (auto simp: df0_def concat_frames_def)
  have cities: "unique (map City (rows ?dfS)) = ?cities"
    by (simp add: unique_cities_sorted)
  have cne: "?cities \<noteq> []"
    using ne by (metis (no_types, lifting) Nil_is_map_conv remdups_eq_nil_iff set_empty set_sort)
  have clc: "clean (?c0 c)" for c
    using cl by (auto simp: clean_def city_series_def)
  have each: "\<exists>f. create_time_series_features (?dfS\<lparr>rows := filter (\<lambda>r. City r = c) (rows ?dfS)\<rparr>) = Inr f
      \<and> ?Q c f" for c
  proof -
    let ?cdf = "?dfS\<lparr>rows := filter (\<lambda>r. City r = c) (rows ?dfS)\<rparr>"
    have clcdf: "clean ?cdf" using cl by (auto simp: clean_def)
    have e: "?cdf\<lparr>rows := sort_key DateTime (rows ?cdf)\<rparr> = ?c0 c"
      by (simp add: city_series_def city_rows_of_sorted)
    from create_time_series_features_clean [OF clcdf]
    obtain f where "create_time_series_features ?cdf = Inr f"
      "features_inv (?cdf\<lparr>rows := sort_key DateTime (rows ?cdf)\<rparr>) f"
      "set (columns f) = set (columns ?cdf) \<union> set generated_columns"
      by blast
    then show ?thesis unfolding e by auto
  qed
  from city_features_loop [where Q = ?Q and df = ?dfS and cs = ?cities and acc = "[]"] each
  obtain fs where run: "for_each (city_features ?dfS) ?cities [] = Inr fs"
    and q: "list_all2 ?Q ?cities fs"
    by auto
  from q cne have fne: "fs \<noteq> []" by auto
  have qf: "\<exists>c. ?Q c f" if "f \<in> set fs" for f
  proof -
    from that obtain i where i: "i < length fs" "f = fs ! i" by (metis in_set_conv_nth)
    from list_all2_nthD2 [OF q i(1)] i(2) show ?thesis by blast
  qed
  have colsfs: "\<forall>f \<in> set fs. set (columns f) = ?COLS"
    using qf by blast
  from lf obtain x xs where lf': "load_files read_csv = x # xs" by (cases "load_files read_csv") auto
  have d: "concat_frames (x # xs) = df0" by (simp add: df0_def lf')
  from fne obtain f fs' where fs: "fs = f # fs'" by (cases fs) auto
  have res: "prepare_forecast_data read_csv = Inr (dropna (concat_frames fs))"
    unfolding prepare_forecast_data_def lf' list.case Let_def d cities run
    by (simp add: fs)
  have kept: "filter (\<lambda>r. \<forall>c \<in> set (columns f). cell r c \<noteq> None) (own_cells f)
      = drop 24 (own_cells f)" if "f \<in> set fs" for f
  proof -
    from qf [OF that] obtain c where "?Q c f" by blast
    then show ?thesis
      using city_frame_kept [OF clc [of c], of f] by simp
  qed
  have rows: "rows (dropna (concat_frames fs)) = concat (map (\<lambda>f. drop 24 (own_cells f)) fs)"
    unfolding rows_dropna_concat [OF fne colsfs]
    using kept by (intro arg_cong [where f = concat] map_cong) simp_all
  have "list_all2 (list_all2 (same_row (columns df0)))
      (map (\<lambda>f. drop 24 (own_cells f)) fs) (map (\<lambda>c. drop 24 (city_series df0 c)) ?cities)"
  proof (rule list_all2_all_nthI)
    show "length (map (\<lambda>f. drop 24 (own_cells f)) fs)
        = length (map (\<lambda>c. drop 24 (city_series df0 c)) ?cities)"
      using list_all2_lengthD [OF q] by simp
    fix i assume "i < length (map (\<lambda>f. drop 24 (own_cells f)) fs)"
    then have i: "i < length fs" by simp
    with list_all2_lengthD [OF q] have i': "i < length ?cities" by simp
    from q i have "features_inv (?c0 (?cities ! i)) (fs ! i)"
      by (simp add: list_all2_conv_all_nth)
    from city_frame_same_rows [OF clc this]
    have "list_all2 (same_row (columns df0)) (own_cells (fs ! i)) (city_series df0 (?cities ! i))"
      by simp
    then have "list_all2 (same_row (columns df0)) (drop 24 (own_cells (fs ! i)))
        (drop 24 (city_series df0 (?cities ! i)))"
      by (rule list_all2_dropI)
    then show "list_all2 (same_row (columns df0)) (map (\<lambda>f. drop 24 (own_cells f)) fs ! i)
        (map (\<lambda>c. drop 24 (city_series df0 c)) ?cities ! i)"
      using i i' by simp
  qed
  from list_all2_concat [OF this] res rows show ?thesis by auto
qed

subsection \<open>Models stored by the training loop\<close>

text \<open>
  The training set that the loop hands to \<open>fit\<close> for a target and a horizon, on a
  prepared table: feature row \<open>i\<close> of the table paired with the target's value at row
  \<open>i + h\<close> of the table, for the first \<open>n - h\<close> rows.
\<close>

definition training_set :: "string \<Rightarrow> frame \<Rightarrow> nat \<Rightarrow> training_set" where
  "training_set target df h =
     zip (take (length (rows df) - h) (X_matrix df)) (drop h (col_values target df))"

lemma horizon_keys:
  assumes "h \<in> set horizons" "h' \<in> set horizons"
  shows "(''pm25_'' @ str_nat h @ ''h'' = ''pm25_'' @ str_nat h' @ ''h'') = (h = h')"
    and "(''pm10_'' @ str_nat h @ ''h'' = ''pm10_'' @ str_nat h' @ ''h'') = (h = h')"
    and "''pm25_'' @ str_nat h @ ''h'' \<noteq> ''pm10_'' @ str_nat h' @ ''h''"
  using assms by (auto simp: horizons_def str_nat_values)

lemma train_horizon_step:
  assumes "prepared df"
  shows "train_horizon fit df h ms =
    Inr (if length (rows df) - h < 100 then ms
         else dict_set (''pm10_'' @ str_nat h @ ''h'') (fit (training_set ''PM10 (ug/m3)'' df h))
               (dict_set (''pm25_'' @ str_nat h @ ''h'') (fit (training_set ''PM2.5 (ug/m3)'' df h)) ms))"
  unfolding train_horizon_prepared [OF assms] training_set_def by simp

lemma for_each_train_horizon_models:
  assumes p: "prepared df" and sub: "set hs \<subseteq> set horizons" and d: "distinct hs"
  shows "\<exists>ms'. for_each (train_horizon fit df) hs ms = Inr ms'
    \<and> (\<forall>h \<in> set hs. 100 \<le> length (rows df) - h \<longrightarrow>
           map_of ms' (''pm25_'' @ str_nat h @ ''h'') = Some (fit (training_set ''PM2.5 (ug/m3)'' df h))
         \<and> map_of ms' (''pm10_'' @ str_nat h @ ''h'') = Some (fit (training_set ''PM10 (ug/m3)'' df h)))
    \<and> (\<forall>k. (\<forall>h \<in> set hs. 100 \<le> length (rows df) - h \<longrightarrow>
                 k \<noteq> ''pm25_'' @ str_nat h @ ''h'' \<and> k \<noteq> ''pm10_'' @ str_nat h @ ''h'')
           \<longrightarrow> map_of ms' k = map_of ms k)"
  using sub d
proof (induction hs arbitrary: ms)
  case Nil
  then show ?case by simp
next
  case (Cons h hs)
  let ?n = "length (rows df)"
  let ?k25 = "\<lambda>h. ''pm25_'' @ str_nat h @ ''h''"
  let ?k10 = "\<lambda>h. ''pm10_'' @ str_nat h @ ''h''"
  let ?ms1 = "if ?n - h < 100 then ms
         else dict_set (?k10 h) (fit (training_set ''PM10 (ug/m3)'' df h))
               (dict_set (?k25 h) (fit (training_set ''PM2.5 (ug/m3)'' df h)) ms)"
  from Cons.prems have hh: "h \<in> set horizons" and sub': "set hs \<subseteq> set horizons"
    and d': "distinct hs" and hn: "h \<notin> set hs" by auto
  from Cons.IH [OF sub' d', of ?ms1]
  obtain ms' where r: "for_each (train_horizon fit df) hs ?ms1 = Inr ms'"
    and v: "\<And>h'. h' \<in> set hs \<Longrightarrow> 100 \<le> ?n - h' \<Longrightarrow>
           map_of ms' (?k25 h') = Some (fit (training_set ''PM2.5 (ug/m3)'' df h'))
         \<and> map_of ms' (?k10 h') = Some (fit (training_set ''PM10 (ug/m3)'' df h'))"
    and fr: "\<And>k. (\<forall>h' \<in> set hs. 100 \<le> ?n - h' \<longrightarrow> k \<noteq> ?k25 h' \<and> k \<noteq> ?k10 h')
           \<Longrightarrow> map_of ms' k = map_of ?ms1 k"
    by blast
  have res: "for_each (train_horizon fit df) (h # hs) ms = Inr ms'"
    by (simp add: train_horizon_step [OF p] r)
  have ne: "?k25 h \<noteq> ?k25 h' \<and> ?k25 h \<noteq> ?k10 h' \<and> ?k10 h \<noteq> ?k25 h' \<and> ?k10 h \<noteq> ?k10 h'"
    if "h' \<in> set hs" for h'
  proof -
    from that sub' have m: "h' \<in> set horizons" by blast
    from that hn have "h \<noteq> h'" by blast
    with horizon_keys(1,2) [OF hh m] horizon_keys(3) [OF hh m] horizon_keys(3) [OF m hh]
    show ?thesis by simp
  qed
  have other: "\<forall>h' \<in> set hs. 100 \<le> ?n - h' \<longrightarrow> ?k25 h \<noteq> ?k25 h' \<and> ?k25 h \<noteq> ?k10 h'"
    "\<forall>h' \<in> set hs. 100 \<le> ?n - h' \<longrightarrow> ?k10 h \<noteq> ?k25 h' \<and> ?k10 h \<noteq> ?k10 h'"
    using ne by blast+
  have c1: "map_of ms' (?k25 h') = Some (fit (training_set ''PM2.5 (ug/m3)'' df h'))
         \<and> map_of ms' (?k10 h') = Some (fit (training_set ''PM10 (ug/m3)'' df h'))"
    if "h' \<in> set (h # hs)" "100 \<le> ?n - h'" for h'
  proof (cases "h' = h")
    case True
    with that(2) have t: "\<not> ?n - h < 100" by simp
    have "map_of ms' (?k25 h) = map_of ?ms1 (?k25 h)" by (rule fr [OF other(1)])
    moreover have "map_of ms' (?k10 h) = map_of ?ms1 (?k10 h)" by (rule fr [OF other(2)])
    moreover have "?k25 h \<noteq> ?k10 h" by (rule horizon_keys(3) [OF hh hh])
    ultimately show ?thesis using t True by (simp add: map_of_dict_set)
  next
    case False
    with that(1) have "h' \<in> set hs" by simp
    from v [OF this that(2)] show ?thesis .
  qed
  have c2: "map_of ms' k = map_of ms k"
    if "\<forall>h' \<in> set (h # hs). 100 \<le> ?n - h' \<longrightarrow> k \<noteq> ?k25 h' \<and> k \<noteq> ?k10 h'" for k
  proof -
    from that have "map_of ms' k = map_of ?ms1 k" by (intro fr) simp
    moreover from that have "100 \<le> ?n - h \<longrightarrow> k \<noteq> ?k25 h \<and> k \<noteq> ?k10 h" by simp
    then have "map_of ?ms1 k = map_of ms k" by (auto simp: map_of_dict_set)
    ultimately show ?thesis by simp
  qed
  from res c1 c2 show ?case by blast
qed


text \<open>
  C8. Whenever \<open>prepare_forecast_data\<close> returns a table, \<open>train_forecast_models\<close> returns
  normally (no exception), and for every horizon of \<open>[1, 6, 12, 24, 48]\<close>: if its aligned
  training set \<open>X_aligned\<close> has fewer than 100 rows, the entries of \<open>self.models\<close> under
  \<open>pm25_<h>h\<close> and \<open>pm10_<h>h\<close> are what they were before the call, so no model is stored
  for it; and a horizon with at least 100 rows has both of its models stored, whichever
  other horizons were skipped.
\<close>

theorem insufficient_horizons_skipped:
  assumes "prepare_forecast_data read_csv = Inr df"
  shows "\<exists>st. train_forecast_models fit read_csv self = Inr st
    \<and> (\<forall>h \<in> set horizons.
         (aligned_rows df h < 100 \<longrightarrow>
            map_of (fc_models st) (''pm25_'' @ str_nat h @ ''h'')
              = map_of (fc_models self) (''pm25_'' @ str_nat h @ ''h'')
          \<and> map_of (fc_models st) (''pm10_'' @ str_nat h @ ''h'')
              = map_of (fc_models self) (''pm10_'' @ str_nat h @ ''h''))
       \<and> (100 \<le> aligned_rows df h \<longrightarrow>
            map_of (fc_models st) (''pm25_'' @ str_nat h @ ''h'') \<noteq> None
          \<and> map_of (fc_models st) (''pm10_'' @ str_nat h @ ''h'') \<noteq> None))"
proof -
  have p: "prepared df" by (rule prepare_forecast_data_prepared [OF assms])
  have dh: "distinct horizons" by (simp add: horizons_def)
  from for_each_train_horizon_models [OF p subset_refl dh, of fit "fc_models self"]
  obtain ms' where r: "for_each (train_horizon fit df) horizons (fc_models self) = Inr ms'"
    and v: "\<And>h. h \<in> set horizons \<Longrightarrow> 100 \<le> length (rows df) - h \<Longrightarrow>
           map_of ms' (''pm25_'' @ str_nat h @ ''h'') = Some (fit (training_set ''PM2.5 (ug/m3)'' df h))
         \<and> map_of ms' (''pm10_'' @ str_nat h @ ''h'') = Some (fit (training_set ''PM10 (ug/m3)'' df h))"
    and fr: "\<And>k. (\<forall>h \<in> set horizons. 100 \<le> length (rows df) - h \<longrightarrow>
                 k \<noteq> ''pm25_'' @ str_nat h @ ''h'' \<and> k \<noteq> ''pm10_'' @ str_nat h @ ''h'')
           \<Longrightarrow> map_of ms' k = map_of (fc_models self) k"
    by blast
  let ?st = "\<lparr>fc_models = ms', fc_feature_columns = X_columns df\<rparr>"
  have run: "train_forecast_models fit read_csv self = Inr ?st"
    by (simp add: train_forecast_models_def assms train_on_def r)
  have skip: "map_of ms' (''pm25_'' @ str_nat h @ ''h'')
              = map_of (fc_models self) (''pm25_'' @ str_nat h @ ''h'')
          \<and> map_of ms' (''pm10_'' @ str_nat h @ ''h'')
              = map_of (fc_models self) (''pm10_'' @ str_nat h @ ''h'')"
    if h: "h \<in> set horizons" and less: "aligned_rows df h < 100" for h
  proof -
    from less have l: "length (rows df) - h < 100" by (simp add: aligned_rows_prepared [OF p])
    have ne: "''pm25_'' @ str_nat h @ ''h'' \<noteq> ''pm25_'' @ str_nat h' @ ''h''
        \<and> ''pm25_'' @ str_nat h @ ''h'' \<noteq> ''pm10_'' @ str_nat h' @ ''h''
        \<and> ''pm10_'' @ str_nat h @ ''h'' \<noteq> ''pm25_'' @ str_nat h' @ ''h''
        \<and> ''pm10_'' @ str_nat h @ ''h'' \<noteq> ''pm10_'' @ str_nat h' @ ''h''"
      if m: "h' \<in> set horizons" and g: "100 \<le> length (rows df) - h'" for h'
    proof -
      from g l have "h \<noteq> h'" by auto
      with horizon_keys(1,2) [OF h m] horizon_keys(3) [OF h m] horizon_keys(3) [OF m h]
      show ?thesis by simp
    qed
    have "map_of ms' (''pm25_'' @ str_nat h @ ''h'')
              = map_of (fc_models self) (''pm25_'' @ str_nat h @ ''h'')"
      by (rule fr) (use ne in blast)
    moreover have "map_of ms' (''pm10_'' @ str_nat h @ ''h'')
              = map_of (fc_models self) (''pm10_'' @ str_nat h @ ''h'')"
      by (rule fr) (use ne in blast)
    ultimately show ?thesis by simp
  qed
  have fitd: "map_of ms' (''pm25_'' @ str_nat h @ ''h'') \<noteq> None
          \<and> map_of ms' (''pm10_'' @ str_nat h @ ''h'') \<noteq> None"
    if h: "h \<in> set horizons" and ge: "100 \<le> aligned_rows df h" for h
  proof -
    from ge have "100 \<le> length (rows df) - h" by (simp add: aligned_rows_prepared [OF p])
    from v [OF h this] show ?thesis by simp
  qed
  from run skip fitd show ?thesis by (intro exI [of _ ?st]) simp
qed

subsection \<open>Two sites of 80 hourly rows each\<close>

text \<open>
  An input the forecaster can be run on: the files of Muscat and Musandam hold 80
  consecutive hourly rows each (hours 0 to 79) with the nine measurement columns and no
  missing value, and the file of Salalah cannot be read. PM2.5 at hour \<open>t\<close> is \<open>1000 + t\<close>
  in Muscat and \<open>t\<close> in Musandam; every other measurement is 1.
\<close>

definition raw_columns :: "string list" where
  "raw_columns = [''Temperature (degC)'', ''Humidity (%)'', ''Wind Speed (m/s)'',
                  ''Wind Direction (deg)'', ''Pressure (hPa)'', ''Dust (ug/m3)'',
                  ''Aerosol Optical Depth'', ''PM2.5 (ug/m3)'', ''PM10 (ug/m3)'']"

definition hourly_table :: "nat \<Rightarrow> (nat \<Rightarrow> real) \<Rightarrow> frame" where
  "hourly_table n pm =
     \<lparr>columns = raw_columns,
      rows = map (\<lambda>t. \<lparr>City = [], DateTime = t,
                        cell = (\<lambda>c. Some (if c = ''PM2.5 (ug/m3)'' then pm t else 1))\<rparr>) [0..<n]\<rparr>"

definition two_sites :: "string \<Rightarrow> frame option" where
  "two_sites f =
     (if f = ''./data/Muscat_oman_weather_aod_pm2023-2025.csv''
      then Some (hourly_table 80 (\<lambda>t. 1000 + real t))
      else if f = ''./data/Musandam_oman_weather_aod_pm2023-2025.csv''
      then Some (hourly_table 80 (\<lambda>t. real t))
      else None)"

definition site_row :: "string \<Rightarrow> (nat \<Rightarrow> real) \<Rightarrow> nat \<Rightarrow> row" where
  "site_row city pm t =
     \<lparr>City = city, DateTime = t,
      cell = (\<lambda>c. if c \<in> set raw_columns
                   then Some (if c = ''PM2.5 (ug/m3)'' then pm t else 1) else None)\<rparr>"

lemma city_names:
  "city_name ''./data/Muscat_oman_weather_aod_pm2023-2025.csv'' = ''Muscat''"
  "city_name ''./data/Musandam_oman_weather_aod_pm2023-2025.csv'' = ''Musandam''"
  "city_name ''./data/Salalah_oman_weather_aod_pm2023-2025.csv'' = ''Salalah''"
  by (simp_all add: city_name_def)

lemma load_files_two_sites:
  "load_files two_sites =
     [\<lparr>columns = raw_columns,
       rows = map (\<lambda>t. \<lparr>City = ''Muscat'', DateTime = t,
                        cell = (\<lambda>c. Some (if c = ''PM2.5 (ug/m3)'' then 1000 + real t else 1))\<rparr>) [0..<80]\<rparr>,
      \<lparr>columns = raw_columns,
       rows = map (\<lambda>t. \<lparr>City = ''Musandam'', DateTime = t,
                        cell = (\<lambda>c. Some (if c = ''PM2.5 (ug/m3)'' then real t else 1))\<rparr>) [0..<80]\<rparr>]"
  unfolding load_files_def files_def
  by (simp add: map_filter_simps two_sites_def city_names hourly_table_def o_def)

lemma unique_raw_columns: "unique (raw_columns @ raw_columns) = raw_columns"
  by (simp add: unique_def raw_columns_def)

lemma two_sites_concat:
  "concat_frames (load_files two_sites) =
     \<lparr>columns = raw_columns,
      rows = map (site_row ''Muscat'' (\<lambda>t. 1000 + real t)) [0..<80]
             @ map (site_row ''Musandam'' (\<lambda>t. real t)) [0..<80]\<rparr>"
  unfolding load_files_two_sites concat_frames_def
  by (simp add: unique_raw_columns own_cells_def o_def site_row_def del: upt_Suc cong: if_cong)

lemma raw_columns_not_generated: "set raw_columns \<inter> set generated_columns = {}"
  by (simp add: raw_columns_def generated_columns_def lag_columns_def lag_hours_def str_nat_values)

lemma site_row_fields [simp]:
  "City (site_row city pm t) = city"
  "DateTime (site_row city pm t) = t"
  "c \<in> set raw_columns \<Longrightarrow>
     cell (site_row city pm t) c = Some (if c = ''PM2.5 (ug/m3)'' then pm t else 1)"
  by (simp_all add: site_row_def)

lemma two_sites_clean: "clean (concat_frames (load_files two_sites))"
  unfolding two_sites_concat clean_def
proof (intro conjI)
  show "set lag_columns \<subseteq> set (columns \<lparr>columns = raw_columns,
      rows = map (site_row ''Muscat'' (\<lambda>t. 1000 + real t)) [0..<80]
             @ map (site_row ''Musandam'' (\<lambda>t. real t)) [0..<80]\<rparr>)"
    by (simp add: lag_columns_def raw_columns_def)
  show "set (columns \<lparr>columns = raw_columns,
      rows = map (site_row ''Muscat'' (\<lambda>t. 1000 + real t)) [0..<80]
             @ map (site_row ''Musandam'' (\<lambda>t. real t)) [0..<80]\<rparr>) \<inter> set generated_columns = {}"
    using raw_columns_not_generated by simp
  show "\<forall>r\<in>set (rows \<lparr>columns = raw_columns,
      rows = map (site_row ''Muscat'' (\<lambda>t. 1000 + real t)) [0..<80]
             @ map (site_row ''Musandam'' (\<lambda>t. real t)) [0..<80]\<rparr>).
      \<forall>c\<in>set (columns \<lparr>columns = raw_columns,
      rows = map (site_row ''Muscat'' (\<lambda>t. 1000 + real t)) [0..<80]
             @ map (site_row ''Musandam'' (\<lambda>t. real t)) [0..<80]\<rparr>). cell r c \<noteq> None"
    by (auto simp del: upt_Suc)
qed

lemma sort_remdups_pair:
  fixes a b :: "'a :: linorder"
  assumes "set ys = {a, b}" "a < b"
  shows "sort (remdups ys) = [a, b]"
proof (rule sorted_distinct_set_unique)
  show "sorted (sort (remdups ys))" by simp
  show "distinct (sort (remdups ys))" by simp
  show "sorted [a, b]" using assms(2) by simp
  show "distinct [a, b]" using assms(2) by simp
  show "set (sort (remdups ys)) = set [a, b]" using assms(1) by auto
qed

lemma two_sites_cities:
  "sort (remdups (map City (rows (concat_frames (load_files two_sites))))) = [''Musandam'', ''Muscat'']"
proof (rule sort_remdups_pair)
  show "set (map City (rows (concat_frames (load_files two_sites)))) = {''Musandam'', ''Muscat''}"
    unfolding two_sites_concat by (auto simp add: o_def image_constant_conv simp del: upt_Suc)
  show "''Musandam'' < ''Muscat''" by simp
qed

lemma sort_key_site_rows:
  "sort_key DateTime (map (site_row city pm) [0..<n]) = map (site_row city pm) [0..<n]"
  by (rule sort_key_id_if_sorted) (simp add: o_def del: upt_Suc)

lemma two_sites_series:
  "city_series (concat_frames (load_files two_sites)) ''Musandam''
     = map (site_row ''Musandam'' (\<lambda>t. real t)) [0..<80]"
  "city_series (concat_frames (load_files two_sites)) ''Muscat''
     = map (site_row ''Muscat'' (\<lambda>t. 1000 + real t)) [0..<80]"
  unfolding two_sites_concat city_series_def
  by (simp_all add: filter_map o_def sort_key_site_rows del: upt_Suc)

definition expected_rows :: "row list" where
  "expected_rows =
     map (site_row ''Musandam'' (\<lambda>t. real t)) [24..<80]
     @ map (site_row ''Muscat'' (\<lambda>t. 1000 + real t)) [24..<80]"

lemma two_sites_prepared_rows:
  "\<exists>df. prepare_forecast_data two_sites = Inr df
     \<and> list_all2 (same_row raw_columns) (rows df) expected_rows"
proof -
  have ne: "rows (concat_frames (load_files two_sites)) \<noteq> []"
    unfolding two_sites_concat by simp
  have c: "columns (concat_frames (load_files two_sites)) = raw_columns"
    unfolding two_sites_concat by simp
  from prepare_forecast_data_clean [OF two_sites_clean ne]
  show ?thesis
    unfolding two_sites_cities c expected_rows_def
    by (simp add: two_sites_series drop_map del: upt_Suc upt_rec_numeral)
qed

text \<open>
  \<open>site_rows\<close> is the length of a site's series in the prepared table, and \<open>claimed_rows\<close>
  the row count that per-site truncation would retain for a horizon: the sum over the
  sites of (series length minus horizon).
\<close>

definition site_rows :: "frame \<Rightarrow> string \<Rightarrow> nat" where
  "site_rows df c = length (filter (\<lambda>r. City r = c) (rows df))"

definition claimed_rows :: "frame \<Rightarrow> nat \<Rightarrow> nat" where
  "claimed_rows df h = sum_list (map (\<lambda>c. site_rows df c - h) (dummy_cities df))"

lemma length_expected_rows [simp]: "length expected_rows = 112"
  by (simp add: expected_rows_def del: upt_Suc upt_rec_numeral)

lemma expected_rows_nth:
  "i < 56 \<Longrightarrow> expected_rows ! i = site_row ''Musandam'' (\<lambda>t. real t) (24 + i)"
  "56 \<le> i \<Longrightarrow> i < 112 \<Longrightarrow> expected_rows ! i = site_row ''Muscat'' (\<lambda>t. 1000 + real t) (i - 32)"
  by (simp_all add: expected_rows_def nth_append del: upt_Suc upt_rec_numeral)

lemma map_City_expected_rows:
  "map City expected_rows = replicate 56 ''Musandam'' @ replicate 56 ''Muscat''"
  by (simp add: expected_rows_def o_def map_replicate_const del: upt_Suc upt_rec_numeral)

lemma same_row_cities:
  "list_all2 (same_row cols) xs ys \<Longrightarrow> map City xs = map City ys"
  by (induction rule: list_all2_induct) (simp_all add: same_row_def)

lemma site_rows_map: "site_rows df c = length (filter (\<lambda>k. k = c) (map City (rows df)))"
  by (simp add: site_rows_def filter_map o_def)

lemma training_set_nth:
  assumes "i < length (rows df) - h"
  shows "training_set target df h ! i = (X_row df (rows df ! i), the (cell (rows df ! (i + h)) target))"
    and "length (training_set target df h) = length (rows df) - h"
  using assms by (simp_all add: training_set_def X_matrix_def col_values_def add.commute)

lemma train_forecast_models_stored:
  assumes "prepare_forecast_data read_csv = Inr df"
  shows "\<exists>st. train_forecast_models fit read_csv self = Inr st
    \<and> (\<forall>h \<in> set horizons. 100 \<le> length (rows df) - h \<longrightarrow>
           map_of (fc_models st) (''pm25_'' @ str_nat h @ ''h'')
             = Some (fit (training_set ''PM2.5 (ug/m3)'' df h))
         \<and> map_of (fc_models st) (''pm10_'' @ str_nat h @ ''h'')
             = Some (fit (training_set ''PM10 (ug/m3)'' df h)))"
proof -
  have p: "prepared df" by (rule prepare_forecast_data_prepared [OF assms])
  have dh: "distinct horizons" by (simp add: horizons_def)
  from for_each_train_horizon_models [OF p subset_refl dh, of fit "fc_models self"]
  obtain ms' where r: "for_each (train_horizon fit df) horizons (fc_models self) = Inr ms'"
    and v: "\<forall>h \<in> set horizons. 100 \<le> length (rows df) - h \<longrightarrow>
           map_of ms' (''pm25_'' @ str_nat h @ ''h'') = Some (fit (training_set ''PM2.5 (ug/m3)'' df h))
         \<and> map_of ms' (''pm10_'' @ str_nat h @ ''h'') = Some (fit (training_set ''PM10 (ug/m3)'' df h))"
    by blast
  have "train_forecast_models fit read_csv self
      = Inr \<lparr>fc_models = ms', fc_feature_columns = X_columns df\<rparr>"
    by (simp add: train_forecast_models_def assms train_on_def r)
  with v show ?thesis by simp
qed

lemma two_sites_frame:
  "\<exists>df. prepare_forecast_data two_sites = Inr df
     \<and> prepared df \<and> length (rows df) = 112
     \<and> map City (rows df) = replicate 56 ''Musandam'' @ replicate 56 ''Muscat''
     \<and> (\<forall>i < 112. same_row raw_columns (rows df ! i) (expected_rows ! i))"
proof -
  from two_sites_prepared_rows obtain df where
    p: "prepare_forecast_data two_sites = Inr df"
    and l: "list_all2 (same_row raw_columns) (rows df) expected_rows"
    by blast
  from list_all2_lengthD [OF l] have n: "length (rows df) = 112" by simp
  have c: "map City (rows df) = replicate 56 ''Musandam'' @ replicate 56 ''Muscat''"
    using same_row_cities [OF l] by (simp only: map_City_expected_rows)
  have r: "\<forall>i < 112. same_row raw_columns (rows df ! i) (expected_rows ! i)"
    using list_all2_nthD [OF l] n by simp
  from p prepare_forecast_data_prepared [OF p] n c r show ?thesis by blast
qed

definition forecaster_init :: "'m forecaster" where
  "forecaster_init = \<lparr>fc_models = [], fc_feature_columns = []\<rparr>"

lemma horizons_members: "1 \<in> set horizons" "12 \<in> set horizons" "24 \<in> set horizons"
  by (simp_all add: horizons_def)

theorem insufficient_horizons_skipped_witness:
  "\<exists>df st. prepare_forecast_data two_sites = Inr df
     \<and> train_forecast_models (\<lambda>ts. ts) two_sites forecaster_init = Inr st
     \<and> aligned_rows df 12 = 100 \<and> aligned_rows df 24 = 88
     \<and> map_of (fc_models st) ''pm25_12h'' \<noteq> None \<and> map_of (fc_models st) ''pm10_12h'' \<noteq> None
     \<and> map_of (fc_models st) ''pm25_24h'' = None \<and> map_of (fc_models st) ''pm10_24h'' = None"
proof -
  from two_sites_frame
  obtain df where p: "prepare_forecast_data two_sites = Inr df"
    and pr: "prepared df" and n: "length (rows df) = 112"
    and c: "map City (rows df) = replicate 56 ''Musandam'' @ replicate 56 ''Muscat''"
    and same': "\<forall>i < 112. same_row raw_columns (rows df ! i) (expected_rows ! i)"
    by blast
  from same' have same: "same_row raw_columns (rows df ! i) (expected_rows ! i)" if "i < 112" for i
    using that by blast
  have a: "aligned_rows df 12 = 100" "aligned_rows df 24 = 88"
    by (simp_all add: aligned_rows_prepared [OF pr] n)
  from insufficient_horizons_skipped [OF p, of "\<lambda>ts. ts" forecaster_init]
  obtain st where run: "train_forecast_models (\<lambda>ts. ts) two_sites forecaster_init = Inr st"
    and all: "\<forall>h \<in> set horizons.
         (aligned_rows df h < 100 \<longrightarrow>
            map_of (fc_models st) (''pm25_'' @ str_nat h @ ''h'')
              = map_of (fc_models forecaster_init) (''pm25_'' @ str_nat h @ ''h'')
          \<and> map_of (fc_models st) (''pm10_'' @ str_nat h @ ''h'')
              = map_of (fc_models forecaster_init) (''pm10_'' @ str_nat h @ ''h''))
       \<and> (100 \<le> aligned_rows df h \<longrightarrow>
            map_of (fc_models st) (''pm25_'' @ str_nat h @ ''h'') \<noteq> None
          \<and> map_of (fc_models st) (''pm10_'' @ str_nat h @ ''h'') \<noteq> None)"
    by blast
  from bspec [OF all horizons_members(2)] a(1)
  have t: "map_of (fc_models st) ''pm25_12h'' \<noteq> None \<and> map_of (fc_models st) ''pm10_12h'' \<noteq> None"
    by (simp add: str_nat_values)
  from bspec [OF all horizons_members(3)] a(2)
  have s: "map_of (fc_models st) ''pm25_24h'' = None \<and> map_of (fc_models st) ''pm10_24h'' = None"
    by (simp add: str_nat_values forecaster_init_def)
  from p run a t s show ?thesis by blast
qed

text \<open>
  C3, evaluated on the two-site input. After the warm-up rows are dropped each site has
  56 rows, so per-site truncation would retain \<open>(56 - 1) + (56 - 1) = 110\<close> rows for
  horizon 1; the loop's \<open>X_aligned\<close> has 111 rows, because \<open>shift(-h)\<close> runs over the
  concatenated table and only the last \<open>h\<close> rows of the whole table lose their label.
\<close>

theorem retained_rows_two_sites:
  "\<exists>df. prepare_forecast_data two_sites = Inr df
     \<and> dummy_cities df = [''Musandam'', ''Muscat'']
     \<and> site_rows df ''Musandam'' = 56 \<and> site_rows df ''Muscat'' = 56
     \<and> claimed_rows df 1 = 110
     \<and> aligned_rows df 1 = 111"
proof -
  from two_sites_frame
  obtain df where p: "prepare_forecast_data two_sites = Inr df"
    and pr: "prepared df" and n: "length (rows df) = 112"
    and c: "map City (rows df) = replicate 56 ''Musandam'' @ replicate 56 ''Muscat''"
    and same': "\<forall>i < 112. same_row raw_columns (rows df ! i) (expected_rows ! i)"
    by blast
  from same' have same: "same_row raw_columns (rows df ! i) (expected_rows ! i)" if "i < 112" for i
    using that by blast
  have d: "dummy_cities df = [''Musandam'', ''Muscat'']"
    unfolding dummy_cities_def c by (rule sort_remdups_pair) auto
  have s: "site_rows df ''Musandam'' = 56" "site_rows df ''Muscat'' = 56"
    unfolding site_rows_map c by simp_all
  have cl: "claimed_rows df 1 = 110"
    unfolding claimed_rows_def d by (simp add: s)
  have a: "aligned_rows df 1 = 111"
    by (simp add: aligned_rows_prepared [OF pr] n)
  from p d s cl a show ?thesis by blast
qed

text \<open>
  C1, evaluated on the two-site input with the identity as \<open>fit\<close>, so that the stored model
  is its training set. The 1-hour PM2.5 training set has 111 pairs. Its pair 55 has the
  features of Musandam's last row (hour 79) and the label 1024, which is the PM2.5 of
  Muscat at hour 24 (row 56 of the table); Musandam has no row after hour 79 and no
  PM2.5 value 1024. The last row of Musandam's series is thus retained for horizon 1,
  with a label from another site's series.
\<close>

theorem cross_site_label_two_sites:
  "\<exists>df st ts. prepare_forecast_data two_sites = Inr df
     \<and> train_forecast_models (\<lambda>ts. ts) two_sites forecaster_init = Inr st
     \<and> map_of (fc_models st) ''pm25_1h'' = Some ts
     \<and> length (rows df) = 112 \<and> length ts = 111
     \<and> City (rows df ! 55) = ''Musandam'' \<and> DateTime (rows df ! 55) = 79
     \<and> City (rows df ! 56) = ''Muscat'' \<and> DateTime (rows df ! 56) = 24
     \<and> cell (rows df ! 56) ''PM2.5 (ug/m3)'' = Some 1024
     \<and> ts ! 55 = (X_row df (rows df ! 55), 1024)
     \<and> (\<forall>r \<in> set (rows df). City r = ''Musandam'' \<longrightarrow>
           DateTime r \<le> 79 \<and> cell r ''PM2.5 (ug/m3)'' \<noteq> Some 1024)"
proof -
  from two_sites_frame
  obtain df where p: "prepare_forecast_data two_sites = Inr df"
    and pr: "prepared df" and n: "length (rows df) = 112"
    and c: "map City (rows df) = replicate 56 ''Musandam'' @ replicate 56 ''Muscat''"
    and same': "\<forall>i < 112. same_row raw_columns (rows df ! i) (expected_rows ! i)"
    by blast
  from same' have same: "same_row raw_columns (rows df ! i) (expected_rows ! i)" if "i < 112" for i
    using that by blast
  have pm: "''PM2.5 (ug/m3)'' \<in> set raw_columns" by (simp add: raw_columns_def)
  from train_forecast_models_stored [OF p, of "\<lambda>ts. ts" forecaster_init]
  obtain st where run: "train_forecast_models (\<lambda>ts. ts) two_sites forecaster_init = Inr st"
    and all: "\<forall>h \<in> set horizons. 100 \<le> length (rows df) - h \<longrightarrow>
           map_of (fc_models st) (''pm25_'' @ str_nat h @ ''h'')
             = Some (training_set ''PM2.5 (ug/m3)'' df h)
         \<and> map_of (fc_models st) (''pm10_'' @ str_nat h @ ''h'')
             = Some (training_set ''PM10 (ug/m3)'' df h)"
    by blast
  let ?ts = "training_set ''PM2.5 (ug/m3)'' df 1"
  from bspec [OF all horizons_members(1)] n
  have m: "map_of (fc_models st) ''pm25_1h'' = Some ?ts"
    by (simp add: str_nat_values)
  have i55: "55 < length (rows df) - 1" using n by simp
  have len: "length ?ts = 111" using training_set_nth(2) [OF i55] n by simp
  from same [of 55] have r55: "City (rows df ! 55) = ''Musandam''" "DateTime (rows df ! 55) = 79"
    by (simp_all add: same_row_def expected_rows_nth)
  from same [of 56] pm
  have r56: "City (rows df ! 56) = ''Muscat''" "DateTime (rows df ! 56) = 24"
    "cell (rows df ! 56) ''PM2.5 (ug/m3)'' = Some 1024"
    by (simp_all add: same_row_def expected_rows_nth)
  have t55: "?ts ! 55 = (X_row df (rows df ! 55), 1024)"
    using training_set_nth(1) [OF i55, of "''PM2.5 (ug/m3)''"] r56(3) by simp
  have own: "DateTime r \<le> 79 \<and> cell r ''PM2.5 (ug/m3)'' \<noteq> Some 1024"
    if "r \<in> set (rows df)" "City r = ''Musandam''" for r
  proof -
    from that(1) n obtain i where i: "i < 112" "r = rows df ! i"
      by (metis in_set_conv_nth)
    have "i < 56"
    proof (rule ccontr)
      assume "\<not> i < 56"
      with i(1) same [of i] have "City (rows df ! i) = ''Muscat''"
        by (simp add: same_row_def expected_rows_nth)
      with that(2) i(2) show False by simp
    qed
    with same [of i] pm i show ?thesis
      by (simp add: same_row_def expected_rows_nth)
  qed
  from p run m n len r55 r56 t55 own show ?thesis by blast
qed

theorem cross_site_label_two_sites_witness:
  "\<exists>df. prepare_forecast_data two_sites = Inr df
     \<and> rows df ! 55 \<in> set (rows df)
     \<and> City (rows df ! 55) = ''Musandam''
     \<and> DateTime (rows df ! 55) \<le> 79
     \<and> cell (rows df ! 55) ''PM2.5 (ug/m3)'' \<noteq> Some 1024"
proof -
  from cross_site_label_two_sites
  obtain df where p: "prepare_forecast_data two_sites = Inr df"
    and n: "length (rows df) = 112"
    and c: "City (rows df ! 55) = ''Musandam''"
    and own: "\<forall>r \<in> set (rows df). City r = ''Musandam'' \<longrightarrow>
           DateTime r \<le> 79 \<and> cell r ''PM2.5 (ug/m3)'' \<noteq> Some 1024"
    by blast
  from n have m: "rows df ! 55 \<in> set (rows df)" by simp
  from bspec [OF own m] c p m show ?thesis by blast
qed

section \<open>Inference adapters\<close>

text \<open>
  A trained predictor is opaque: \<open>predict m x\<close> is \<open>m.predict(x)[0]\<close> on the one-row
  feature matrix \<open>x\<close>, a number or an exception.
\<close>

subsection \<open>\<open>DashboardMLPredictor.predict_conditions\<close>\<close>

text \<open>
  The feature dictionary becomes a one-row frame; every column of
  \<open>self.feature_columns\<close> it lacks is added with value 0, and selecting
  \<open>feature_df[self.feature_columns]\<close> then yields the values in training order (columns that
  the training order does not name are dropped).
\<close>

definition reorder :: "string list \<Rightarrow> (string \<times> real) list \<Rightarrow> real list" where
  "reorder fcols features =
     map (\<lambda>col. case map_of features col of Some v \<Rightarrow> v | None \<Rightarrow> 0) fcols"

definition fallback_values :: "(string \<times> real) list" where
  "fallback_values =
     [(''PM2.5'', 20), (''PM10'', 40), (''Visibility_Est'', 15),
      (''Flight_Safety_Score'', 0.7), (''Overall_AQI'', 50)]"

text \<open>
  The loop over \<open>self.models.items()\<close>: each prediction is clamped by \<open>max(0, pred)\<close>; an
  exception of \<open>predict\<close> is caught and replaced by the fallback value of the target
  (\<open>fallback_values.get(target_name, 0)\<close>).
\<close>

definition predict_target ::
  "('m \<Rightarrow> real list \<Rightarrow> py_error + real) \<Rightarrow> real list \<Rightarrow> string \<times> 'm \<Rightarrow> string \<times> real" where
  "predict_target predict x tm =
     (case tm of (target_name, model) \<Rightarrow>
        (case predict model x of
           Inr pred \<Rightarrow> (target_name, max 0 pred)
         | Inl e \<Rightarrow>
             (target_name, case map_of fallback_values target_name of Some v \<Rightarrow> v | None \<Rightarrow> 0)))"

definition dict_get :: "(string \<times> 'v) list \<Rightarrow> string \<Rightarrow> 'v \<Rightarrow> 'v" where
  "dict_get d k dflt = (case map_of d k of Some v \<Rightarrow> v | None \<Rightarrow> dflt)"

definition predict_conditions ::
  "('m \<Rightarrow> real list \<Rightarrow> py_error + real) \<Rightarrow> (string \<times> 'm) list \<Rightarrow> string list \<Rightarrow>
   clock \<Rightarrow> request \<Rightarrow> py_error + (string \<times> real) list" where
  "predict_conditions predict ms fcols now r =
     (case create_features_for_location now r of
        Inl e \<Rightarrow> Inl e
      | Inr features \<Rightarrow>
          let feature_df = reorder fcols features;
              predictions = fold (\<lambda>tm d. dict_set (fst tm) (snd (predict_target predict feature_df tm)) d)
                              ms [];
              aqi_value = max (dashboard_calculate_aqi (dict_get predictions ''PM2.5'' 20) ''pm25'')
                              (dashboard_calculate_aqi (dict_get predictions ''PM10'' 40) ''pm10'')
          in Inr (dict_set ''AQI'' (real_of_int aqi_value) predictions))"

subsection \<open>\<open>AirQualityForecaster.forecast_next_48_hours\<close>\<close>

text \<open>
  \<open>current_conditions\<close> is a one-row frame: its numeric columns in order, and the value of
  its \<open>City\<close> column when it has one.
\<close>

record conditions =
  cc_city :: "string option"
  cc_columns :: "(string \<times> real) list"

definition startswith :: "string \<Rightarrow> string \<Rightarrow> bool" where
  "startswith s p = (take (length p) s = p)"

text \<open>
  The one-hot site columns. With a \<open>City\<close> column: \<open>get_dummies\<close> gives the single indicator
  of that city, and the loop adds with 0 every \<open>City_\<close> column of the training order that
  is not there yet. Without one: the dictionary comprehension, with Muscat as default.
\<close>

definition city_dummies :: "string list \<Rightarrow> conditions \<Rightarrow> (string \<times> real) list" where
  "city_dummies fcols cc =
     (case cc_city cc of
        Some city \<Rightarrow>
          fold (\<lambda>col d. if startswith col ''City_'' \<and> col \<notin> set (map fst d)
                         then d @ [(col, 0)] else d)
               fcols [(''City_'' @ city, 1)]
      | None \<Rightarrow>
          map (\<lambda>col. (col, if col = ''City_Muscat'' then 1 else 0))
              (unique (filter (\<lambda>col. startswith col ''City_'') fcols)))"

text \<open>
  \<open>current_conditions[base_features]\<close>: selecting a list of columns raises \<open>KeyError\<close> as
  soon as one of them is not a column of the frame.
\<close>

definition select_columns :: "string list \<Rightarrow> (string \<times> real) list \<Rightarrow> py_error + (string \<times> real) list" where
  "select_columns cols d =
     (case filter (\<lambda>col. col \<notin> set (map fst d)) cols of
        [] \<Rightarrow> Inr (map (\<lambda>col. (col, the (map_of d col))) cols)
      | missing # _ \<Rightarrow> Inl (KeyError missing))"

definition fill_missing :: "string list \<Rightarrow> (string \<times> real) list \<Rightarrow> (string \<times> real) list" where
  "fill_missing fcols x =
     fold (\<lambda>col d. if col \<notin> set (map fst d) then d @ [(col, 0)] else d) fcols x"

definition X_current :: "string list \<Rightarrow> conditions \<Rightarrow> py_error + real list" where
  "X_current fcols cc =
     (let dummies = city_dummies fcols cc;
          base_features = filter (\<lambda>col. \<not> startswith col ''City_'') fcols
      in case select_columns base_features (cc_columns cc) of
           Inl e \<Rightarrow> Inl e
         | Inr base \<Rightarrow>
             (case select_columns fcols (fill_missing fcols (base @ dummies)) of
                Inl e \<Rightarrow> Inl e
              | Inr x \<Rightarrow> Inr (map snd x)))"

text \<open>
  One iteration of the loop over the horizons: skipped unless both models exist; an
  exception of \<open>predict\<close> is not caught here. \<open>now\<close> is \<open>datetime.now()\<close> in hours.
\<close>

definition forecast_horizon ::
  "('m \<Rightarrow> real list \<Rightarrow> py_error + real) \<Rightarrow> (string \<times> 'm) list \<Rightarrow> nat \<Rightarrow> real list \<Rightarrow> nat \<Rightarrow>
   (string \<times> nat forecast) list \<Rightarrow> py_error + (string \<times> nat forecast) list" where
  "forecast_horizon predict ms now x h forecasts =
     (case (map_of ms (''pm25_'' @ str_nat h @ ''h''), map_of ms (''pm10_'' @ str_nat h @ ''h'')) of
        (Some m25, Some m10) \<Rightarrow>
          (case predict m25 x of Inl e \<Rightarrow> Inl e | Inr pm25_pred \<Rightarrow>
           case predict m10 x of Inl e \<Rightarrow> Inl e | Inr pm10_pred \<Rightarrow>
             Inr (dict_set (str_nat h @ ''h'')
                    \<lparr>pm25 = max 0 pm25_pred, pm10 = max 0 pm10_pred, timestamp = now + h\<rparr>
                    forecasts))
      | _ \<Rightarrow> Inr forecasts)"

definition forecast_next_48_hours ::
  "('m \<Rightarrow> real list \<Rightarrow> py_error + real) \<Rightarrow> 'm forecaster \<Rightarrow> nat \<Rightarrow> conditions \<Rightarrow>
   py_error + (string \<times> nat forecast) list" where
  "forecast_next_48_hours predict self now current_conditions =
     (case X_current (fc_feature_columns self) current_conditions of
        Inl e \<Rightarrow> Inl e
      | Inr x \<Rightarrow> for_each (forecast_horizon predict (fc_models self) now x) horizons [])"

lemma select_columns_missing:
  assumes "col \<in> set cols" "col \<notin> set (map fst d)"
  shows "\<exists>k. select_columns cols d = Inl (KeyError k) \<and> k \<in> set cols \<and> k \<notin> set (map fst d)"
proof -
  from assms have "col \<in> set (filter (\<lambda>col. col \<notin> set (map fst d)) cols)" by simp
  then have "filter (\<lambda>col. col \<notin> set (map fst d)) cols \<noteq> []"
    by (metis empty_iff list.set(1))
  then obtain k ks where f: "filter (\<lambda>col. col \<notin> set (map fst d)) cols = k # ks"
    by (cases "filter (\<lambda>col. col \<notin> set (map fst d)) cols") auto
  then have "k \<in> set (filter (\<lambda>col. col \<notin> set (map fst d)) cols)" by simp
  then have "k \<in> set cols" "k \<notin> set (map fst d)" by simp_all
  with f show ?thesis by (simp add: select_columns_def)
qed

lemma forecast_missing_feature_raises:
  assumes "col \<in> set (fc_feature_columns self)" "\<not> startswith col ''City_''"
    and "col \<notin> set (map fst (cc_columns cc))"
  shows "\<exists>k. forecast_next_48_hours predict self now cc = Inl (KeyError k)
           \<and> k \<in> set (fc_feature_columns self) \<and> k \<notin> set (map fst (cc_columns cc))"
proof -
  let ?base = "filter (\<lambda>col. \<not> startswith col ''City_'') (fc_feature_columns self)"
  from assms have "col \<in> set ?base" by simp
  from select_columns_missing [OF this assms(3)]
  obtain k where "select_columns ?base (cc_columns cc) = Inl (KeyError k)"
    "k \<in> set ?base" "k \<notin> set (map fst (cc_columns cc))" by blast
  then show ?thesis
    by (auto simp: forecast_next_48_hours_def X_current_def Let_def)
qed

text \<open>
  C6, evaluated on a request that lacks a lag column of the training order. The
  forecaster was trained with the columns temperature, 1-hour lag of PM2.5 and the
  Muscat indicator; the request has the temperature and the city only. Whatever the
  models, \<open>forecast_next_48_hours\<close> raises \<open>KeyError\<close> for the lag column: the selection
  \<open>current_conditions[base_features]\<close> fails before the loop that would add the missing
  column with 0 is reached.
\<close>

theorem forecast_missing_lag_column:
  "forecast_next_48_hours predict
     \<lparr>fc_models = ms,
      fc_feature_columns = [''Temperature (degC)'', ''PM2.5 (ug/m3)_lag_1h'', ''City_Muscat'']\<rparr>
     now
     \<lparr>cc_city = Some ''Muscat'', cc_columns = [(''Temperature (degC)'', 30.5)]\<rparr>
   = Inl (KeyError ''PM2.5 (ug/m3)_lag_1h'')"
  by (simp add: forecast_next_48_hours_def X_current_def Let_def select_columns_def startswith_def)

text \<open>
  \<open>predict_conditions\<close>, in contrast, fills the missing columns with 0 and returns
  non-negative values whenever the feature dictionary could be built.
\<close>

lemma set_dict_set: "set (dict_set k v d) \<subseteq> insert (k, v) (set d)"
  by (induction d) (auto split: if_splits)

lemma dict_set_values:
  assumes "v' \<in> snd ` set (dict_set k v d)"
  shows "v' = v \<or> v' \<in> snd ` set d"
proof -
  from assms obtain k' where "(k', v') \<in> set (dict_set k v d)" by auto
  with set_dict_set [of k v d] have "(k', v') = (k, v) \<or> (k', v') \<in> set d" by blast
  then show ?thesis by force
qed

lemma predict_target_nonneg: "0 \<le> snd (predict_target predict x tm)"
  by (cases tm) (auto simp: predict_target_def fallback_values_def split: sum.splits)

lemma fold_predictions_nonneg:
  assumes "\<forall>v \<in> snd ` set d. 0 \<le> v"
  shows "\<forall>v \<in> snd ` set (fold (\<lambda>tm d. dict_set (fst tm) (snd (predict_target predict x tm)) d) ms d).
           (0::real) \<le> v"
  using assms
proof (induction ms arbitrary: d)
  case Nil
  then show ?case by simp
next
  case (Cons tm ms)
  have "\<forall>v \<in> snd ` set (dict_set (fst tm) (snd (predict_target predict x tm)) d). 0 \<le> v"
  proof
    fix v assume "v \<in> snd ` set (dict_set (fst tm) (snd (predict_target predict x tm)) d)"
    from dict_set_values [OF this] Cons.prems predict_target_nonneg [of predict x tm]
    show "0 \<le> v" by blast
  qed
  from Cons.IH [OF this] show ?case by simp
qed

lemma predict_conditions_nonneg:
  assumes "create_features_for_location now r = Inr features"
  shows "\<exists>predictions. predict_conditions predict ms fcols now r = Inr predictions
           \<and> (\<forall>v \<in> snd ` set predictions. 0 \<le> v)"
proof -
  let ?x = "reorder fcols features"
  let ?p = "fold (\<lambda>tm d. dict_set (fst tm) (snd (predict_target predict ?x tm)) d) ms []"
  let ?a = "max (dashboard_calculate_aqi (dict_get ?p ''PM2.5'' 20) ''pm25'')
                (dashboard_calculate_aqi (dict_get ?p ''PM10'' 40) ''pm10'')"
  have p: "\<forall>v \<in> snd ` set ?p. 0 \<le> v" by (rule fold_predictions_nonneg) simp
  have "0 \<le> ?a" using dashboard_calculate_aqi_nonneg [of "dict_get ?p ''PM2.5'' 20" "''pm25''"]
    by (simp only: max_def split: if_splits) (simp add: dashboard_calculate_aqi_nonneg)
  then have a: "0 \<le> real_of_int ?a" by simp
  have "\<forall>v \<in> snd ` set (dict_set ''AQI'' (real_of_int ?a) ?p). 0 \<le> v"
  proof
    fix v assume "v \<in> snd ` set (dict_set ''AQI'' (real_of_int ?a) ?p)"
    from dict_set_values [OF this] p a show "0 \<le> v" by blast
  qed
  moreover have "predict_conditions predict ms fcols now r = Inr (dict_set ''AQI'' (real_of_int ?a) ?p)"
    by (simp add: predict_conditions_def assms Let_def)
  ultimately show ?thesis by blast
qed

lemma reorder_zero_fill:
  assumes "i < length fcols"
  shows "reorder fcols features ! i =
     (case map_of features (fcols ! i) of Some v \<Rightarrow> v | None \<Rightarrow> 0)"
    and "fcols ! i \<notin> fst ` set features \<Longrightarrow> reorder fcols features ! i = 0"
  using assms by (simp_all add: reorder_def map_of_eq_None_iff [symmetric])

section \<open>Weather stability indicators of the aviation predictor\<close>

text \<open>
  \<open>AirQualityFlightSafetyPredictor.load_and_prepare_data\<close>, restricted to what decides
  the values of its one rolling-window feature: the files found by \<open>glob\<close>, in the order
  \<open>glob\<close> returns them and each with its parsed table, are tagged with their site and
  concatenated (no sorting takes place), and \<open>Pressure_Stability\<close> and
  \<open>Temp_Humidity_Index\<close> are then computed on the concatenated table. The other features
  of the function are computed row by row and are left out.
\<close>

definition concat_sites :: "(string \<times> frame) list \<Rightarrow> py_error + frame" where
  "concat_sites tables =
     (case tables of
        [] \<Rightarrow> Inl (ValueError ''No objects to concatenate'')
      | _ \<Rightarrow>
          Inr (concat_frames
                (map (\<lambda>(f, temp_df).
                        temp_df\<lparr>rows := map (\<lambda>r. r\<lparr>City := city_name f\<rparr>) (rows temp_df)\<rparr>)
                     tables)))"

text \<open>Arithmetic on series is elementwise, and \<open>NaN\<close> in either operand gives \<open>NaN\<close>.\<close>

definition elementwise :: "(real \<Rightarrow> real \<Rightarrow> real) \<Rightarrow> series \<Rightarrow> series \<Rightarrow> series" where
  "elementwise f xs ys =
     map (\<lambda>(x, y). case (x, y) of (Some a, Some b) \<Rightarrow> Some (f a b) | _ \<Rightarrow> None) (zip xs ys)"

definition weather_stability_indicators :: "frame \<Rightarrow> py_error + frame" where
  "weather_stability_indicators df =
     (case get_col ''Pressure (hPa)'' df of Inl e \<Rightarrow> Inl e | Inr p \<Rightarrow>
        let df1 = set_col ''Pressure_Stability''
                    (elementwise (\<lambda>a m. \<bar>a - m\<bar>) p (rolling_mean 24 24 p)) df
        in case get_col ''Temperature (degC)'' df1 of Inl e \<Rightarrow> Inl e | Inr t \<Rightarrow>
           case get_col ''Humidity (%)'' df1 of Inl e \<Rightarrow> Inl e | Inr h \<Rightarrow>
             Inr (set_col ''Temp_Humidity_Index'' (elementwise (\<lambda>a b. a * (b / 100)) t h) df1))"

definition stability_features :: "(string \<times> frame) list \<Rightarrow> py_error + frame" where
  "stability_features tables =
     (case concat_sites tables of Inl e \<Rightarrow> Inl e | Inr df \<Rightarrow> weather_stability_indicators df)"

text \<open>
  Two input tables: 23 hourly rows for Muscat with pressure 1000, and a single row for
  Salalah with pressure 1024; every other measurement is 1.
\<close>

definition pressure_table :: "nat \<Rightarrow> real \<Rightarrow> frame" where
  "pressure_table n p =
     \<lparr>columns = raw_columns,
      rows = map (\<lambda>t. \<lparr>City = [], DateTime = t,
                        cell = (\<lambda>c. Some (if c = ''Pressure (hPa)'' then p else 1))\<rparr>) [0..<n]\<rparr>"

definition muscat_file :: "string \<times> frame" where
  "muscat_file = (''./data/Muscat_oman_weather_aod_pm2023-2025.csv'', pressure_table 23 1000)"

definition salalah_file :: "string \<times> frame" where
  "salalah_file = (''./data/Salalah_oman_weather_aod_pm2023-2025.csv'', pressure_table 1 1024)"

definition pressure_row :: "string \<Rightarrow> real \<Rightarrow> nat \<Rightarrow> row" where
  "pressure_row city p t =
     \<lparr>City = city, DateTime = t,
      cell = (\<lambda>c. if c \<in> set raw_columns
                   then Some (if c = ''Pressure (hPa)'' then p else 1) else None)\<rparr>"

lemma concat_muscat_salalah:
  "concat_sites [muscat_file, salalah_file] =
     Inr \<lparr>columns = raw_columns,
          rows = map (pressure_row ''Muscat'' 1000) [0..<23]
                 @ map (pressure_row ''Salalah'' 1024) [0..<1]\<rparr>"
  unfolding concat_sites_def muscat_file_def salalah_file_def concat_frames_def pressure_table_def
  by (simp add: unique_raw_columns own_cells_def o_def pressure_row_def city_names
      del: upt_Suc upt_rec_numeral cong: if_cong)

lemma concat_salalah_muscat:
  "concat_sites [salalah_file, muscat_file] =
     Inr \<lparr>columns = raw_columns,
          rows = map (pressure_row ''Salalah'' 1024) [0..<1]
                 @ map (pressure_row ''Muscat'' 1000) [0..<23]\<rparr>"
  unfolding concat_sites_def muscat_file_def salalah_file_def concat_frames_def pressure_table_def
  by (simp add: unique_raw_columns own_cells_def o_def pressure_row_def city_names
      del: upt_Suc upt_rec_numeral cong: if_cong)

lemma pressure_row_fields [simp]:
  "City (pressure_row city p t) = city"
  "DateTime (pressure_row city p t) = t"
  "c \<in> set raw_columns \<Longrightarrow>
     cell (pressure_row city p t) c = Some (if c = ''Pressure (hPa)'' then p else 1)"
  by (simp_all add: pressure_row_def)

lemma raw_columns_members:
  "''Pressure (hPa)'' \<in> set raw_columns" "''Temperature (degC)'' \<in> set raw_columns"
  "''Humidity (%)'' \<in> set raw_columns"
  by (simp_all add: raw_columns_def)

lemma dropna_series_map_Some [simp]: "dropna_series (map Some xs) = xs"
  by (simp add: dropna_series_def map_filter_def o_def)

lemma window_muscat_salalah:
  "window_mean 24 24 (map Some (replicate 23 1000 @ [1024])) 23 = Some 1001"
proof -
  have "drop (Suc 23 - 24) (take (Suc 23) (map Some (replicate 23 1000 @ [1024::real])))
      = map Some (replicate 23 1000 @ [1024])"
    by simp
  then show ?thesis
    unfolding window_mean_def Let_def
    by (simp add: sum_list_replicate del: map_append replicate_append_same)
qed

lemma window_salalah_first:
  "window_mean 24 24 (Some 1024 # s) 0 = None"
  by (simp add: window_mean_def Let_def dropna_series_def map_filter_def)

lemma nth_elementwise:
  "i < length xs \<Longrightarrow> i < length ys \<Longrightarrow>
   elementwise f xs ys ! i =
     (case (xs ! i, ys ! i) of (Some a, Some b) \<Rightarrow> Some (f a b) | _ \<Rightarrow> None)"
  by (simp add: elementwise_def)

lemma length_elementwise [simp]: "length (elementwise f xs ys) = min (length xs) (length ys)"
  by (simp add: elementwise_def)

lemma stability_value:
  assumes cols: "''Pressure (hPa)'' \<in> set (columns df)" "''Temperature (degC)'' \<in> set (columns df)"
    "''Humidity (%)'' \<in> set (columns df)"
    and i: "i < length (rows df)"
  shows "\<exists>df'. weather_stability_indicators df = Inr df'
    \<and> length (rows df') = length (rows df)
    \<and> City (rows df' ! i) = City (rows df ! i)
    \<and> cell (rows df' ! i) ''Pressure_Stability'' =
        (case (cell (rows df ! i) ''Pressure (hPa)'',
               window_mean 24 24 (map (\<lambda>r. cell r ''Pressure (hPa)'') (rows df)) i) of
           (Some a, Some m) \<Rightarrow> Some \<bar>a - m\<bar> | _ \<Rightarrow> None)"
proof -
  let ?p = "map (\<lambda>r. cell r ''Pressure (hPa)'') (rows df)"
  let ?ps = "elementwise (\<lambda>a m. \<bar>a - m\<bar>) ?p (rolling_mean 24 24 ?p)"
  let ?df1 = "set_col ''Pressure_Stability'' ?ps df"
  let ?t = "map (\<lambda>r. cell r ''Temperature (degC)'') (rows ?df1)"
  let ?h = "map (\<lambda>r. cell r ''Humidity (%)'') (rows ?df1)"
  let ?thi = "elementwise (\<lambda>a b. a * (b / 100)) ?t ?h"
  let ?df2 = "set_col ''Temp_Humidity_Index'' ?thi ?df1"
  have lps: "length ?ps = length (rows df)" by simp
  have l1: "length (rows ?df1) = length (rows df)" by (simp add: length_rows_set_col)
  have lthi: "length ?thi = length (rows ?df1)" by simp
  have l2: "length (rows ?df2) = length (rows df)" using l1 lthi by (simp add: length_rows_set_col)
  have run: "weather_stability_indicators df = Inr ?df2"
    using cols by (simp add: weather_stability_indicators_def get_col_def Let_def)
  have r1: "rows ?df1 ! i = (rows df ! i)\<lparr>cell := (cell (rows df ! i))(''Pressure_Stability'' := ?ps ! i)\<rparr>"
    using i lps by (rule nth_rows_set_col)
  have r2: "rows ?df2 ! i = (rows ?df1 ! i)\<lparr>cell := (cell (rows ?df1 ! i))(''Temp_Humidity_Index'' := ?thi ! i)\<rparr>"
    using i l1 lthi by (intro nth_rows_set_col) simp_all
  have v: "?ps ! i = (case (cell (rows df ! i) ''Pressure (hPa)'', window_mean 24 24 ?p i) of
           (Some a, Some m) \<Rightarrow> Some \<bar>a - m\<bar> | _ \<Rightarrow> None)"
    using i by (simp add: nth_elementwise nth_rolling_mean)
  have "City (rows ?df2 ! i) = City (rows df ! i)"
    unfolding r2 r1 by simp
  moreover have "cell (rows ?df2 ! i) ''Pressure_Stability'' = ?ps ! i"
    unfolding r2 r1 by simp
  ultimately show ?thesis using run l2 v by auto
qed

lemma pressures_of_rows:
  "map (\<lambda>r. cell r ''Pressure (hPa)'') (map (pressure_row city p) [0..<n]) = replicate n (Some p)"
  by (simp add: o_def raw_columns_members map_replicate_const del: upt_Suc upt_rec_numeral)

text \<open>
  C7, evaluated on two tables in both orders. With Muscat's file first, the single row
  of Salalah is row 23 of the concatenated table and its \<open>Pressure_Stability\<close> is 23: the
  distance of its pressure 1024 from the mean 1001 of a window made of Muscat's 23
  pressures and its own. With Salalah's file first the same row has \<open>NaN\<close>. The rolling
  value of the row is read from another site's series and changes with the order of the
  sites.
\<close>

theorem pressure_stability_reads_other_site:
  "\<exists>df df'. stability_features [muscat_file, salalah_file] = Inr df
     \<and> stability_features [salalah_file, muscat_file] = Inr df'
     \<and> City (rows df ! 23) = ''Salalah''
     \<and> cell (rows df ! 23) ''Pressure_Stability'' = Some 23
     \<and> City (rows df' ! 0) = ''Salalah''
     \<and> cell (rows df' ! 0) ''Pressure_Stability'' = None"
proof -
  let ?ab = "\<lparr>columns = raw_columns,
          rows = map (pressure_row ''Muscat'' 1000) [0..<23]
                 @ map (pressure_row ''Salalah'' 1024) [0..<1]\<rparr>"
  let ?ba = "\<lparr>columns = raw_columns,
          rows = map (pressure_row ''Salalah'' 1024) [0..<1]
                 @ map (pressure_row ''Muscat'' 1000) [0..<23]\<rparr>"
  have pab: "map (\<lambda>r. cell r ''Pressure (hPa)'') (rows ?ab) = map Some (replicate 23 1000 @ [1024])"
    by (simp add: pressures_of_rows del: upt_Suc upt_rec_numeral map_map)
  have pba: "map (\<lambda>r. cell r ''Pressure (hPa)'') (rows ?ba) = Some 1024 # replicate 23 (Some 1000)"
    by (simp add: pressures_of_rows del: upt_Suc upt_rec_numeral map_map)
  have rab: "rows ?ab ! 23 = pressure_row ''Salalah'' 1024 0"
    by (simp add: nth_append del: upt_Suc upt_rec_numeral)
  have rba: "rows ?ba ! 0 = pressure_row ''Salalah'' 1024 0"
    by (simp add: nth_append del: upt_Suc upt_rec_numeral)
  have cols: "''Pressure (hPa)'' \<in> set (columns ?ab)" "''Temperature (degC)'' \<in> set (columns ?ab)"
    "''Humidity (%)'' \<in> set (columns ?ab)"
    "''Pressure (hPa)'' \<in> set (columns ?ba)" "''Temperature (degC)'' \<in> set (columns ?ba)"
    "''Humidity (%)'' \<in> set (columns ?ba)"
    by (simp_all add: raw_columns_members)
  have iab: "23 < length (rows ?ab)" by simp
  have iba: "0 < length (rows ?ba)" by simp
  from stability_value [OF cols(1-3) iab]
  obtain df where d: "weather_stability_indicators ?ab = Inr df"
    and dc: "City (rows df ! 23) = City (rows ?ab ! 23)"
    and dv: "cell (rows df ! 23) ''Pressure_Stability'' =
        (case (cell (rows ?ab ! 23) ''Pressure (hPa)'',
               window_mean 24 24 (map (\<lambda>r. cell r ''Pressure (hPa)'') (rows ?ab)) 23) of
           (Some a, Some m) \<Rightarrow> Some \<bar>a - m\<bar> | _ \<Rightarrow> None)"
    by blast
  from stability_value [OF cols(4-6) iba]
  obtain df' where d': "weather_stability_indicators ?ba = Inr df'"
    and dc': "City (rows df' ! 0) = City (rows ?ba ! 0)"
    and dv': "cell (rows df' ! 0) ''Pressure_Stability'' =
        (case (cell (rows ?ba ! 0) ''Pressure (hPa)'',
               window_mean 24 24 (map (\<lambda>r. cell r ''Pressure (hPa)'') (rows ?ba)) 0) of
           (Some a, Some m) \<Rightarrow> Some \<bar>a - m\<bar> | _ \<Rightarrow> None)"
    by blast
  have 1: "stability_features [muscat_file, salalah_file] = Inr df"
    unfolding stability_features_def concat_muscat_salalah sum.case by (rule d)
  have 2: "stability_features [salalah_file, muscat_file] = Inr df'"
    unfolding stability_features_def concat_salalah_muscat sum.case by (rule d')
  have 3: "City (rows df ! 23) = ''Salalah''" unfolding dc rab by simp
  have 4: "cell (rows df ! 23) ''Pressure_Stability'' = Some 23"
    unfolding dv pab rab window_muscat_salalah by (simp add: raw_columns_members)
  have 5: "City (rows df' ! 0) = ''Salalah''" unfolding dc' rba by simp
  have 6: "cell (rows df' ! 0) ''Pressure_Stability'' = None"
    unfolding dv' pba rba window_salalah_first by (simp add: raw_columns_members)
  from 1 2 3 4 5 6 show ?thesis by blast
qed

end
